(* ===== verification/Prelude.thy ===== *)
theory Prelude
  imports Main "HOL-Library.AList"
begin

text \<open>
  What every component of the model shares: decimal numerals, UTF-8 text, JavaScript property
  lists (an object's own properties, in the order in which JavaScript enumerates them) and the
  result type of code that may throw.  The interface \<open>keyed_object\<close> states what the components
  rely on when they read and write properties; it is interpreted here on the property lists.
\<close>

named_theorems prop_simps \<open>lookups in and updates of property lists\<close>
named_theorems throw_simps \<open>sequencing of code that may throw\<close>

section \<open>Decimal numerals\<close>

abbreviation code_of :: "char \<Rightarrow> nat" where
  "code_of c \<equiv> of_char c"

definition is_digit :: "char \<Rightarrow> bool" where
  "is_digit c \<longleftrightarrow> 48 \<le> code_of c \<and> code_of c \<le> 57"

definition digit_char :: "nat \<Rightarrow> char" where
  "digit_char n = char_of (48 + n)"

lemma digit_char_0: "digit_char 0 = CHR ''0''"
  by (simp add: digit_char_def char_of_eq_iff)

definition digit_value :: "char \<Rightarrow> nat" where
  "digit_value c = code_of c - 48"

fun show_nat :: "nat \<Rightarrow> string" where
  "show_nat n = (if n < 10 then [digit_char n] else show_nat (n div 10) @ [digit_char (n mod 10)])"

declare show_nat.simps [simp del]

definition show_int :: "int \<Rightarrow> string" where
  "show_int i = (if i < 0 then ''-'' @ show_nat (nat (- i)) else show_nat (nat i))"

fun read_digits :: "nat \<Rightarrow> string \<Rightarrow> nat" where
  "read_digits acc [] = acc"
| "read_digits acc (c # cs) = read_digits (10 * acc + digit_value c) cs"

lemma code_of_char [simp]: "n < 256 \<Longrightarrow> code_of (char_of n) = n"
  by (simp add: of_char_of)

lemma is_digit_digit_char [simp]: "n < 10 \<Longrightarrow> is_digit (digit_char n)"
  by (simp add: is_digit_def digit_char_def)

lemma digit_value_digit_char [simp]: "n < 10 \<Longrightarrow> digit_value (digit_char n) = n"
  by (simp add: digit_value_def digit_char_def)

lemma digits_show_nat: "\<forall>c \<in> set (show_nat n). is_digit c"
proof (induction n rule: show_nat.induct)
  case (1 n)
  then show ?case
    by (subst show_nat.simps) auto
qed

lemma show_nat_nonempty [simp]: "show_nat n \<noteq> []"
  by (subst show_nat.simps) simp

lemma read_digits_append: "read_digits acc (xs @ ys) = read_digits (read_digits acc xs) ys"
  by (induction xs arbitrary: acc) auto

lemma read_show_nat [simp]: "read_digits 0 (show_nat n) = n"
proof (induction n rule: show_nat.induct)
  case (1 n)
  then show ?case
    by (subst show_nat.simps) (auto simp: read_digits_append)
qed

lemma show_nat_inject [simp]: "show_nat m = show_nat n \<longleftrightarrow> m = n"
  by (metis read_show_nat)

lemma digit_char_inject [simp]: "m < 10 \<Longrightarrow> n < 10 \<Longrightarrow> digit_char m = digit_char n \<longleftrightarrow> m = n"
  by (metis digit_value_digit_char)

lemma leading_show_nat: "n \<noteq> 0 \<Longrightarrow> hd (show_nat n) \<noteq> digit_char 0"
proof (induction n rule: show_nat.induct)
  case (1 n)
  show ?case
  proof (cases "n < 10")
    case True
    with "1.prems" show ?thesis
      by (subst show_nat.simps) simp
  next
    case False
    with 1 have "hd (show_nat (n div 10)) \<noteq> digit_char 0" by simp
    with False show ?thesis
      by (subst show_nat.simps) simp
  qed
qed

lemma is_digit_minus [simp]: "\<not> is_digit CHR ''-''"
  by (simp add: is_digit_def)

section \<open>Text\<close>

text \<open>
  A JavaScript string is represented by its UTF-8 encoding.  The program compares, concatenates
  and transmits its strings; the few places that look at single code units go through
  \<open>utf16_units\<close>.  \<open>utf8\<close> spells a text by its code points.
\<close>

definition utf8_char :: "nat \<Rightarrow> string" where
  "utf8_char n =
     (if n < 0x80 then [char_of n]
      else if n < 0x800 then [char_of (0xC0 + n div 64), char_of (0x80 + n mod 64)]
      else if n < 0x10000 then
        [char_of (0xE0 + n div 4096), char_of (0x80 + n div 64 mod 64), char_of (0x80 + n mod 64)]
      else
        [char_of (0xF0 + n div 262144), char_of (0x80 + n div 4096 mod 64),
         char_of (0x80 + n div 64 mod 64), char_of (0x80 + n mod 64)])"

definition utf8 :: "nat list \<Rightarrow> string" where
  "utf8 ns = concat (map utf8_char ns)"

lemma utf8_char_ascii: "n < 0x80 \<Longrightarrow> utf8_char n = [char_of n]"
  by (simp add: utf8_char_def)

text \<open>The code point of a four byte sequence, and its two surrogates.\<close>

definition astral_units :: "char \<Rightarrow> char \<Rightarrow> char \<Rightarrow> char \<Rightarrow> string list" where
  "astral_units a b c d =
     (let n = (code_of a mod 8) * 262144 + (code_of b mod 64) * 4096 + (code_of c mod 64) * 64
              + code_of d mod 64 - 0x10000
      in [utf8_char (0xD800 + n div 1024), utf8_char (0xDC00 + n mod 1024)])"

text \<open>
  The UTF-16 code units of a string, each as a string of its own (a surrogate is spelled by the
  three bytes of its number).
\<close>

fun utf16_units :: "string \<Rightarrow> string list" where
  "utf16_units [] = []"
| "utf16_units (a # r) =
     (if code_of a < 0x80 then [a] # utf16_units r
      else if code_of a < 0xE0 then
        (case r of b # r' \<Rightarrow> [a, b] # utf16_units r' | _ \<Rightarrow> [[a]])
      else if code_of a < 0xF0 then
        (case r of b # c # r' \<Rightarrow> [a, b, c] # utf16_units r' | _ \<Rightarrow> [a # r])
      else
        (case r of b # c # d # r' \<Rightarrow> astral_units a b c d @ utf16_units r' | _ \<Rightarrow> [a # r]))"

section \<open>Property lists\<close>

text \<open>
  The own properties of an object are a list of key and value in enumeration order.  A key that
  spells an array index (a canonical decimal below \<open>2^32 - 1\<close>) is enumerated before every other
  key and in numeric order; the other keys keep the order in which they were added.
\<close>

definition array_index :: "string \<Rightarrow> nat option" where
  "array_index k =
     (if k \<noteq> [] \<and> (\<forall>c \<in> set k. is_digit c) \<and> (hd k = CHR ''0'' \<longrightarrow> tl k = [])
         \<and> read_digits 0 k < 2 ^ 32 - 1
      then Some (read_digits 0 k) else None)"

definition key_before :: "string \<Rightarrow> string \<Rightarrow> bool" where
  "key_before k k' \<longleftrightarrow>
     (case array_index k of None \<Rightarrow> False
      | Some n \<Rightarrow> (case array_index k' of None \<Rightarrow> True | Some m \<Rightarrow> n < m))"

type_synonym 'v props = "(string \<times> 'v) list"

definition keys :: "'v props \<Rightarrow> string list" where
  "keys o1 = map fst o1"

fun prop_insert :: "string \<Rightarrow> 'v \<Rightarrow> 'v props \<Rightarrow> 'v props" where
  "prop_insert k v [] = [(k, v)]"
| "prop_insert k v (p # ps) =
     (if key_before k (fst p) then (k, v) # p # ps else p # prop_insert k v ps)"

definition prop_set :: "string \<Rightarrow> 'v \<Rightarrow> 'v props \<Rightarrow> 'v props" where
  "prop_set k v ps = (if k \<in> set (keys ps) then AList.update k v ps else prop_insert k v ps)"

definition prop_get :: "'v props \<Rightarrow> string \<Rightarrow> 'v option" where
  "prop_get ps k = map_of ps k"

text \<open>\<open>{...a, ...b}\<close>: the properties of \<open>b\<close> are assigned, in order, to a copy of \<open>a\<close>.\<close>

fun prop_spread :: "'v props \<Rightarrow> 'v props \<Rightarrow> 'v props" where
  "prop_spread a [] = a"
| "prop_spread a ((k, v) # b) = prop_spread (prop_set k v a) b"

text \<open>An object literal with computed or literal keys.\<close>

definition prop_literal :: "'v props \<Rightarrow> 'v props" where
  "prop_literal ps = prop_spread [] ps"

text \<open>What enumeration order guarantees of the property list of a real object.\<close>

definition prop_ordered :: "'v props \<Rightarrow> bool" where
  "prop_ordered ps \<longleftrightarrow>
     distinct (keys ps) \<and> sorted_wrt (\<lambda>k k'. \<not> key_before k' k) (keys ps)"

lemma keys_simps [simp]: "keys [] = []" "keys (p # ps) = fst p # keys ps"
    "keys (ps @ qs) = keys ps @ keys qs"
  by (simp_all add: keys_def)

lemma keys_insert: "set (keys (prop_insert k v ps)) = insert k (set (keys ps))"
  by (induction ps) auto

lemma keys_update: "k \<in> set (keys ps) \<Longrightarrow> keys (AList.update k v ps) = keys ps"
  by (induction ps) (auto simp: keys_def)

lemma set_keys_prop_set [simp, prop_simps]: "set (keys (prop_set k v ps)) = insert k (set (keys ps))"
  by (auto simp: prop_set_def keys_insert keys_update)

lemma map_of_insert_new:
  "k \<notin> set (keys ps) \<Longrightarrow> map_of (prop_insert k v ps) = (map_of ps)(k \<mapsto> v)"
proof (induction ps)
  case (Cons p ps)
  then show ?case by (cases p) (auto simp: fun_eq_iff)
qed simp

lemma prop_get_set [simp, prop_simps]:
  "prop_get (prop_set k v ps) k' = (if k' = k then Some v else prop_get ps k')"
  by (simp add: prop_get_def prop_set_def update_conv map_of_insert_new)

lemma prop_get_Nil [simp, prop_simps]: "prop_get [] k = None"
  by (simp add: prop_get_def)

lemma prop_get_Cons [prop_simps]:
  "prop_get (p # ps) k = (if k = fst p then Some (snd p) else prop_get ps k)"
  by (cases p) (simp add: prop_get_def)

lemma prop_get_None [prop_simps]: "prop_get ps k = None \<longleftrightarrow> k \<notin> set (keys ps)"
  by (simp add: prop_get_def keys_def map_of_eq_None_iff)

lemma prop_get_Some_key: "prop_get ps k = Some v \<Longrightarrow> k \<in> set (keys ps)"
  by (metis option.simps(3) prop_get_None)

lemma key_before_irrefl [simp]: "\<not> key_before k k"
  by (auto simp: key_before_def split: option.splits)

lemma key_before_trans: "key_before a b \<Longrightarrow> key_before b c \<Longrightarrow> key_before a c"
  by (auto simp: key_before_def split: option.splits)

lemma key_before_cotrans: "key_before a c \<Longrightarrow> key_before a b \<or> key_before b c"
  by (auto simp: key_before_def split: option.splits)

lemma prop_ordered_Nil [simp]: "prop_ordered []"
  by (simp add: prop_ordered_def)

lemma prop_ordered_Cons:
  "prop_ordered (p # ps) \<longleftrightarrow>
     fst p \<notin> set (keys ps) \<and> (\<forall>k \<in> set (keys ps). \<not> key_before k (fst p)) \<and> prop_ordered ps"
  by (auto simp: prop_ordered_def)

lemma prop_ordered_insert:
  "prop_ordered ps \<Longrightarrow> k \<notin> set (keys ps) \<Longrightarrow> prop_ordered (prop_insert k v ps)"
proof (induction ps)
  case (Cons p ps)
  show ?case
  proof (cases "key_before k (fst p)")
    case True
    have "\<not> key_before k' k" if "k' \<in> set (keys (p # ps))" for k'
    proof
      assume "key_before k' k"
      then have "key_before k' (fst p)" using True by (rule key_before_trans)
      with that Cons.prems(1) show False by (auto simp: prop_ordered_Cons)
    qed
    with True Cons.prems show ?thesis by (auto simp: prop_ordered_Cons)
  next
    case False
    with Cons show ?thesis by (auto simp: prop_ordered_Cons keys_insert)
  qed
qed (simp add: prop_ordered_def)

lemma prop_ordered_set [simp, intro]: "prop_ordered ps \<Longrightarrow> prop_ordered (prop_set k v ps)"
  by (auto simp: prop_set_def prop_ordered_insert) (simp add: prop_ordered_def keys_update)

lemma prop_set_last:
  assumes "prop_ordered (ps @ [(k, v)])"
  shows "prop_set k v ps = ps @ [(k, v)]"
proof -
  have "prop_insert k v ps = ps @ [(k, v)]"
    using assms
  proof (induction ps)
    case (Cons p ps)
    then have "\<not> key_before k (fst p)" by (auto simp: prop_ordered_Cons)
    with Cons show ?case by (auto simp: prop_ordered_Cons)
  qed simp
  moreover have "k \<notin> set (keys ps)"
    using assms by (simp add: prop_ordered_def)
  ultimately show ?thesis by (simp add: prop_set_def)
qed

lemma prop_set_eqvt_keys: "k \<in> set (keys ps) \<Longrightarrow> keys (prop_set k v ps) = keys ps"
  by (simp add: prop_set_def keys_update)

section \<open>The interface of keyed objects\<close>

text \<open>
  What the components rely on when they use an object as a dictionary: reading after writing,
  the set of keys, and that writing keeps the object well formed.
\<close>

locale keyed_object =
  fixes get :: "'o \<Rightarrow> 'k \<Rightarrow> 'v option"
    and put :: "'k \<Rightarrow> 'v \<Rightarrow> 'o \<Rightarrow> 'o"
    and keyset :: "'o \<Rightarrow> 'k set"
    and wf :: "'o \<Rightarrow> bool"
  assumes get_put: "get (put k v ob) k' = (if k' = k then Some v else get ob k')"
    and keyset_get: "k \<in> keyset ob \<longleftrightarrow> get ob k \<noteq> None"
    and wf_put: "wf ob \<Longrightarrow> wf (put k v ob)"
begin

text \<open>Assigning a list of pairs in order: the last value written to a key is the one read.\<close>

definition put_all :: "('k \<times> 'v) list \<Rightarrow> 'o \<Rightarrow> 'o" where
  "put_all ps ob = fold (\<lambda>(k, v). put k v) ps ob"

lemma put_all_simps: "put_all [] ob = ob" "put_all ((k, v) # ps) ob = put_all ps (put k v ob)"
  by (simp_all add: put_all_def)

lemma get_put_all:
  "get (put_all ps ob) k = (case map_of (rev ps) k of None \<Rightarrow> get ob k | Some v \<Rightarrow> Some v)"
proof (induction ps arbitrary: ob)
  case (Cons p ps)
  then show ?case
    by (cases p) (auto simp: put_all_simps get_put map_add_def split: option.splits)
qed (simp add: put_all_simps)

lemma keyset_put_all: "keyset (put_all ps ob) = fst ` set ps \<union> keyset ob"
proof -
  have "k \<in> keyset (put_all ps ob) \<longleftrightarrow> k \<in> fst ` set ps \<union> keyset ob" for k
  proof (cases "map_of (rev ps) k")
    case None
    then have "k \<notin> fst ` set ps" by (simp add: map_of_eq_None_iff)
    with None show ?thesis by (simp add: keyset_get get_put_all)
  next
    case (Some v)
    then have "(k, v) \<in> set (rev ps)" by (rule map_of_SomeD)
    then have "k \<in> fst ` set ps" by force
    with Some show ?thesis by (simp add: keyset_get get_put_all)
  qed
  then show ?thesis by blast
qed

lemma wf_put_all: "wf ob \<Longrightarrow> wf (put_all ps ob)"
  by (induction ps arbitrary: ob) (auto simp: put_all_simps wf_put)

lemma put_same_get: "get (put k v (put k w ob)) = get (put k v ob)"
  by (simp add: fun_eq_iff get_put)

lemma put_swap_get: "k \<noteq> l \<Longrightarrow> get (put k v (put l w ob)) = get (put l w (put k v ob))"
  by (simp add: fun_eq_iff get_put)

end

interpretation props: keyed_object prop_get prop_set "\<lambda>ps. set (keys ps)" prop_ordered
  by unfold_locales (auto simp: prop_get_None)

lemma prop_spread_put_all: "prop_spread a b = props.put_all b a"
proof (induction b arbitrary: a)
  case (Cons p b)
  then show ?case by (cases p) (simp add: props.put_all_simps)
qed (simp add: props.put_all_simps)

lemma prop_get_spread [prop_simps]:
  "prop_get (prop_spread a b) k = (case map_of (rev b) k of None \<Rightarrow> prop_get a k | Some v \<Rightarrow> Some v)"
  by (simp add: prop_spread_put_all props.get_put_all)

lemma keys_prop_spread [simp, prop_simps]:
  "set (keys (prop_spread a b)) = set (keys a) \<union> set (keys b)"
  using props.keyset_put_all[of b a] by (auto simp: prop_spread_put_all keys_def)

lemma prop_ordered_spread [intro]: "prop_ordered a \<Longrightarrow> prop_ordered (prop_spread a b)"
  by (simp add: prop_spread_put_all props.wf_put_all)

lemma prop_ordered_literal [intro]: "prop_ordered (prop_literal ps)"
  by (auto simp: prop_literal_def)

lemma map_of_rev_distinct: "distinct (keys ps) \<Longrightarrow> map_of (rev ps) k = prop_get ps k"
  using map_of_inject_set[of "rev ps" ps]
  by (simp add: prop_get_def keys_def rev_map[symmetric])

lemma prop_spread_ordered_id:
  "prop_ordered (a @ b) \<Longrightarrow> prop_spread a b = a @ b"
proof (induction b arbitrary: a)
  case (Cons p b)
  obtain k v where p: "p = (k, v)" by (cases p)
  have "prop_ordered (a @ [(k, v)])"
    using Cons.prems p by (auto simp: prop_ordered_def sorted_wrt_append)
  then have "prop_set k v a = a @ [(k, v)]" by (rule prop_set_last)
  with Cons p show ?case by simp
qed simp

section \<open>Code that may throw\<close>

text \<open>
  The errors that the modelled code can raise: \<open>JSON.parse\<close> on text that is no JSON, an access to
  a property of \<open>undefined\<close> or \<open>null\<close> or a call of something that is no function, and a
  \<open>WebSocket.send\<close> before the connection is open.
\<close>

datatype js_error = SyntaxError | TypeError | InvalidStateError

type_synonym 'a thrown = "js_error + 'a"

definition throw :: "js_error \<Rightarrow> 'a thrown" where
  "throw e = Inl e"

definition and_then :: "'a thrown \<Rightarrow> ('a \<Rightarrow> 'b thrown) \<Rightarrow> 'b thrown" where
  "and_then m f = (case m of Inl e \<Rightarrow> Inl e | Inr x \<Rightarrow> f x)"

lemma and_then_simps [simp, throw_simps]:
  "and_then (Inl e) f = Inl e" "and_then (Inr x) f = f x"
  by (simp_all add: and_then_def)

lemma and_then_return [simp]: "and_then m Inr = m"
  by (cases m) auto

lemma and_then_Inr: "and_then m f = Inr y \<longleftrightarrow> (\<exists>x. m = Inr x \<and> f x = Inr y)"
  by (cases m) auto

lemma and_then_Inl: "and_then m f = Inl e \<longleftrightarrow> m = Inl e \<or> (\<exists>x. m = Inr x \<and> f x = Inl e)"
  by (cases m) auto

lemma and_then_assoc: "and_then (and_then m f) g = and_then m (\<lambda>x. and_then (f x) g)"
  by (cases m) auto

lemma and_then_cong [fundef_cong]:
  "m = m' \<Longrightarrow> (\<And>x. m' = Inr x \<Longrightarrow> f x = f' x) \<Longrightarrow> and_then m f = and_then m' f'"
  by (cases m') auto

text \<open>A loop that collects its results and stops at the first exception.\<close>

fun collect :: "('a \<Rightarrow> 'b thrown) \<Rightarrow> 'a list \<Rightarrow> 'b list thrown" where
  "collect f [] = Inr []"
| "collect f (x # xs) = and_then (f x) (\<lambda>y. and_then (collect f xs) (\<lambda>ys. Inr (y # ys)))"

lemma collect_Inr: "collect f xs = Inr ys \<longleftrightarrow> list_all2 (\<lambda>x y. f x = Inr y) xs ys"
  by (induction xs arbitrary: ys) (auto simp: and_then_Inr list_all2_Cons1)

lemma collect_map: "(\<And>x. x \<in> set xs \<Longrightarrow> f x = Inr (g x)) \<Longrightarrow> collect f xs = Inr (map g xs)"
  by (induction xs) auto

lemma collect_length: "collect f xs = Inr ys \<Longrightarrow> length ys = length xs"
  by (auto simp: collect_Inr dest: list_all2_lengthD)

section \<open>Keys that are names\<close>

lemma array_index_name [prop_simps]: "\<not> is_digit c \<Longrightarrow> array_index (c # cs) = None"
  by (simp add: array_index_def)

lemma prop_ordered_names:
  "\<forall>k \<in> set (keys ps). array_index k = None \<Longrightarrow> distinct (keys ps) \<Longrightarrow> prop_ordered ps"
  by (auto simp: prop_ordered_def key_before_def sorted_wrt_iff_nth_less)

lemma prop_literal_ordered: "prop_ordered ps \<Longrightarrow> prop_literal ps = ps"
  using prop_spread_ordered_id[of "[]" ps] by (simp add: prop_literal_def)

section \<open>Lists\<close>

lemma find_in_set: "find P xs = Some x \<Longrightarrow> x \<in> set xs \<and> P x"
  by (induction xs) (auto split: if_splits)

lemma find_Some_ex: "x \<in> set xs \<Longrightarrow> P x \<Longrightarrow> \<exists>y. find P xs = Some y"
  by (induction xs) auto

lemma set_AList_update: "set (AList.update k v ps) \<subseteq> insert (k, v) (set ps)"
  by (induction ps) auto

end
