(* ===== verification/JsValue.thy ===== *)
theory JsValue
  imports Prelude
begin

text \<open>
  The values of JavaScript as far as the program uses them, with the language's own coercions:
  truthiness, \<open>||\<close> and \<open>&&\<close>, \<open>===\<close>, \<open>==\<close>, conversion to string and to number, property access,
  \<open>for ... in\<close> and the bound of a counting loop.  A number of the model is an integer or NaN (the
  program counts, and passes other numbers through).  Members inherited from a prototype are not
  part of an object's property list.
\<close>

datatype jsval =
    Undef
  | Null
  | Bool bool
  | Num int
  | NaN
  | Str string
  | Arr "jsval list"
  | Obj "jsval props"

section \<open>Coercions\<close>

fun truthy :: "jsval \<Rightarrow> bool" where
  "truthy Undef = False"
| "truthy Null = False"
| "truthy (Bool b) = b"
| "truthy (Num n) = (n \<noteq> 0)"
| "truthy NaN = False"
| "truthy (Str s) = (s \<noteq> [])"
| "truthy (Arr _) = True"
| "truthy (Obj _) = True"

text \<open>\<open>a || b\<close> and \<open>a && b\<close> on operands without side effects.\<close>

definition js_or :: "jsval \<Rightarrow> jsval \<Rightarrow> jsval" where
  "js_or a b = (if truthy a then a else b)"

definition js_and :: "jsval \<Rightarrow> jsval \<Rightarrow> jsval" where
  "js_and a b = (if truthy a then b else a)"

text \<open>\<open>a ?? b\<close>.\<close>

definition js_nullish :: "jsval \<Rightarrow> jsval \<Rightarrow> jsval" where
  "js_nullish a b = (if a = Undef \<or> a = Null then b else a)"

fun js_string :: "jsval \<Rightarrow> string" and js_join :: "jsval list \<Rightarrow> string" where
  "js_string Undef = ''undefined''"
| "js_string Null = ''null''"
| "js_string (Bool b) = (if b then ''true'' else ''false'')"
| "js_string (Num n) = show_int n"
| "js_string NaN = ''NaN''"
| "js_string (Str s) = s"
| "js_string (Arr xs) = js_join xs"
| "js_string (Obj _) = ''[object Object]''"
| "js_join [] = ''''"
| "js_join [x] = (if x = Undef \<or> x = Null then '''' else js_string x)"
| "js_join (x # y # xs) =
     (if x = Undef \<or> x = Null then '''' else js_string x) @ '','' @ js_join (y # xs)"

text \<open>
  The number a string spells, for optional blanks around an optionally signed decimal integer;
  every other text counts as no number.
\<close>

definition is_blank :: "char \<Rightarrow> bool" where
  "is_blank c \<longleftrightarrow> code_of c \<in> {9, 10, 11, 12, 13, 32}"

definition js_trim :: "string \<Rightarrow> string" where
  "js_trim s = rev (dropWhile is_blank (rev (dropWhile is_blank s)))"

definition string_number :: "string \<Rightarrow> jsval" where
  "string_number s =
     (let t = js_trim s;
          (sign, ds) = (case t of [] \<Rightarrow> (1, []) | c # cs \<Rightarrow>
             if c = CHR ''-'' then (- 1, cs) else if c = CHR ''+'' then (1, cs) else (1, t))
      in if t = [] then Num 0
         else if ds \<noteq> [] \<and> (\<forall>c \<in> set ds. is_digit c) then Num (sign * int (read_digits 0 ds))
         else NaN)"

fun js_number :: "jsval \<Rightarrow> jsval" where
  "js_number Undef = NaN"
| "js_number Null = Num 0"
| "js_number (Bool b) = Num (if b then 1 else 0)"
| "js_number (Num n) = Num n"
| "js_number NaN = NaN"
| "js_number (Str s) = string_number s"
| "js_number (Arr xs) = string_number (js_join xs)"
| "js_number (Obj _) = NaN"

section \<open>Equality\<close>

fun is_primitive :: "jsval \<Rightarrow> bool" where
  "is_primitive (Arr _) = False"
| "is_primitive (Obj _) = False"
| "is_primitive _ = True"

text \<open>
  \<open>v === w\<close> where one side is primitive; the program never compares two objects this way (where the
  identity of an object matters, the model has an explicit heap).
\<close>

definition strict_eq :: "jsval \<Rightarrow> jsval \<Rightarrow> bool" where
  "strict_eq v w \<longleftrightarrow> v = w \<and> is_primitive w \<and> w \<noteq> NaN"

definition to_primitive :: "jsval \<Rightarrow> jsval" where
  "to_primitive v = (if is_primitive v then v else Str (js_string v))"

fun loose_prim :: "jsval \<Rightarrow> jsval \<Rightarrow> bool" where
  "loose_prim Undef w = (w = Undef \<or> w = Null)"
| "loose_prim Null w = (w = Undef \<or> w = Null)"
| "loose_prim (Str s) (Str t) = (s = t)"
| "loose_prim v w =
     (w \<noteq> Undef \<and> w \<noteq> Null \<and> js_number v = js_number w \<and> js_number v \<noteq> NaN)"

text \<open>\<open>v == w\<close> where not both sides are objects.\<close>

definition loose_eq :: "jsval \<Rightarrow> jsval \<Rightarrow> bool" where
  "loose_eq v w = loose_prim (to_primitive v) (to_primitive w)"

lemma loose_eq_Str [simp]: "loose_eq (Str s) (Str t) \<longleftrightarrow> s = t"
  by (simp add: loose_eq_def to_primitive_def)

lemma loose_eq_Undef [simp]: "\<not> loose_eq Undef (Str t)" "\<not> loose_eq Null (Str t)"
  by (simp_all add: loose_eq_def to_primitive_def)

lemma strict_eq_simps [simp]:
  "strict_eq v (Str s) \<longleftrightarrow> v = Str s" "strict_eq v Undef \<longleftrightarrow> v = Undef"
  "strict_eq v Null \<longleftrightarrow> v = Null" "strict_eq v (Num n) \<longleftrightarrow> v = Num n"
  "strict_eq v (Bool b) \<longleftrightarrow> v = Bool b"
  by (auto simp: strict_eq_def)

section \<open>Properties, enumeration, counting loops\<close>

definition or_undef :: "jsval option \<Rightarrow> jsval" where
  "or_undef x = (case x of None \<Rightarrow> Undef | Some v \<Rightarrow> v)"

definition nth_or_undef :: "jsval list \<Rightarrow> nat \<Rightarrow> jsval" where
  "nth_or_undef xs i = (if i < length xs then xs ! i else Undef)"

text \<open>\<open>v.k\<close> and \<open>v[k]\<close>: an access to a property of \<open>undefined\<close> or \<open>null\<close> throws.\<close>

fun js_get :: "jsval \<Rightarrow> string \<Rightarrow> jsval thrown" where
  "js_get Undef k = Inl TypeError"
| "js_get Null k = Inl TypeError"
| "js_get (Obj ps) k = Inr (or_undef (prop_get ps k))"
| "js_get (Arr xs) k =
     Inr (if k = ''length'' then Num (int (length xs))
          else (case array_index k of None \<Rightarrow> Undef | Some i \<Rightarrow> nth_or_undef xs i))"
| "js_get (Str s) k =
     Inr (if k = ''length'' then Num (int (length (utf16_units s)))
          else (case array_index k of None \<Rightarrow> Undef
                | Some i \<Rightarrow> nth_or_undef (map Str (utf16_units s)) i))"
| "js_get _ k = Inr Undef"

text \<open>\<open>v[i]\<close> for a loop counter \<open>i\<close>.\<close>

definition js_nth :: "jsval \<Rightarrow> nat \<Rightarrow> jsval thrown" where
  "js_nth v i = js_get v (show_nat i)"

text \<open>The keys that \<open>for (const k in v)\<close> visits.\<close>

fun js_keys :: "jsval \<Rightarrow> string list" where
  "js_keys (Obj ps) = keys ps"
| "js_keys (Arr xs) = map show_nat [0..<length xs]"
| "js_keys (Str s) = map show_nat [0..<length (utf16_units s)]"
| "js_keys _ = []"

text \<open>How often the body of \<open>for (let i = 0; i < v; i++)\<close> runs.\<close>

definition loop_count :: "jsval \<Rightarrow> nat" where
  "loop_count v = (case js_number v of Num n \<Rightarrow> nat n | _ \<Rightarrow> 0)"

lemma or_undef_simps [simp]: "or_undef None = Undef" "or_undef (Some v) = v"
  by (simp_all add: or_undef_def)

lemma read_digits_bound: "n < 2 ^ 32 - 1 \<Longrightarrow> array_index (show_nat n) = Some n"
proof -
  assume n: "n < 2 ^ 32 - 1"
  have "hd (show_nat n) = CHR ''0'' \<longrightarrow> tl (show_nat n) = []"
  proof
    assume "hd (show_nat n) = CHR ''0''"
    then have "hd (show_nat n) = digit_char 0" by (simp add: digit_char_0)
    then have "n = 0" using leading_show_nat by blast
    then show "tl (show_nat n) = []" by (simp add: show_nat.simps)
  qed
  with n show ?thesis by (simp add: array_index_def digits_show_nat)
qed

lemma js_get_length_Arr [simp]: "js_get (Arr xs) ''length'' = Inr (Num (int (length xs)))"
  by simp

lemma show_nat_not_length [simp]: "show_nat i \<noteq> ''length''"
proof
  assume "show_nat i = ''length''"
  then have "is_digit CHR ''l''" using digits_show_nat[of i] by simp
  then show False by (simp add: is_digit_def)
qed

lemma js_nth_Arr:
  "i < length xs \<Longrightarrow> length xs < 2 ^ 32 \<Longrightarrow> js_nth (Arr xs) i = Inr (xs ! i)"
  by (simp add: js_nth_def read_digits_bound nth_or_undef_def)

lemma loop_count_Num [simp]: "loop_count (Num (int n)) = n"
  by (simp add: loop_count_def)

lemma loop_count_none [simp]: "loop_count Undef = 0" "loop_count Null = 0" "loop_count NaN = 0"
  by (simp_all add: loop_count_def)

text \<open>Visiting an array by its index visits its elements in order.\<close>

lemma collect_nth_Arr:
  assumes "length xs < 2 ^ 32"
  shows "collect (\<lambda>i. and_then (js_nth (Arr xs) i) f) [0..<length xs] = collect f xs"
proof -
  have "collect (\<lambda>i. and_then (js_nth (Arr xs) i) f) is = collect (\<lambda>i. f (xs ! i)) is"
    if "set is \<subseteq> {0..<length xs}" for "is"
    using that assms by (induction "is") (auto simp: js_nth_Arr)
  moreover have "collect (\<lambda>i. f (xs ! i)) is = collect f (map ((!) xs) is)" for "is"
    by (induction "is") auto
  ultimately show ?thesis by (simp add: map_nth)
qed

lemma collect_Arr: "length xs < 2 ^ 32 \<Longrightarrow> collect (js_nth (Arr xs)) [0..<length xs] = Inr xs"
  using collect_nth_Arr[of xs Inr] collect_map[of xs Inr "\<lambda>x. x"] by simp

section \<open>Well-formed values\<close>

text \<open>Every object inside a value has its properties in enumeration order.\<close>

fun js_wf :: "jsval \<Rightarrow> bool" where
  "js_wf (Arr xs) = (\<forall>x \<in> set xs. js_wf x)"
| "js_wf (Obj ps) = (prop_ordered ps \<and> (\<forall>p \<in> set ps. js_wf (snd p)))"
| "js_wf _ = True"

end
