(* ===== verification/Json.thy ===== *)
theory Json
  imports JsValue
begin

text \<open>
  \<open>JSON.stringify\<close> and \<open>JSON.parse\<close>, the language's codec that every message of the program goes
  through.  The main result is the round trip: parsing the text of a value gives the value back, up
  to what JSON cannot express (\<open>undefined\<close> members disappear, other \<open>undefined\<close> and NaN become null).
  A number literal with a fraction or an exponent is outside the number type of the model and is
  not parsed.
\<close>

abbreviation dquote :: char where "dquote \<equiv> CHR 0x22"
abbreviation backslash :: char where "backslash \<equiv> CHR 0x5C"

section \<open>Printing\<close>

definition hex_digit :: "nat \<Rightarrow> char" where
  "hex_digit n = (if n < 10 then char_of (48 + n) else char_of (87 + n))"

definition json_escape :: "char \<Rightarrow> string" where
  "json_escape c =
     (if c = dquote then [backslash, dquote]
      else if c = backslash then [backslash, backslash]
      else if code_of c = 8 then [backslash, CHR ''b'']
      else if code_of c = 9 then [backslash, CHR ''t'']
      else if code_of c = 10 then [backslash, CHR ''n'']
      else if code_of c = 12 then [backslash, CHR ''f'']
      else if code_of c = 13 then [backslash, CHR ''r'']
      else if code_of c < 32 then
        backslash # ''u00'' @ [hex_digit (code_of c div 16), hex_digit (code_of c mod 16)]
      else [c])"

definition json_quote :: "string \<Rightarrow> string" where
  "json_quote s = dquote # concat (map json_escape s) @ [dquote]"

text \<open>
  The text of a value; \<open>undefined\<close> and NaN are printed as they are inside an array.  The first
  argument of \<open>stringify_members\<close> is the separator due before the next member.
\<close>

fun stringify :: "jsval \<Rightarrow> string"
  and stringify_items :: "jsval list \<Rightarrow> string"
  and stringify_members :: "string \<Rightarrow> jsval props \<Rightarrow> string" where
  "stringify Undef = ''null''"
| "stringify Null = ''null''"
| "stringify (Bool b) = (if b then ''true'' else ''false'')"
| "stringify (Num n) = show_int n"
| "stringify NaN = ''null''"
| "stringify (Str s) = json_quote s"
| "stringify (Arr xs) = ''['' @ stringify_items xs @ '']''"
| "stringify (Obj ps) = ''{'' @ stringify_members '''' ps @ ''}''"
| "stringify_items [] = ''''"
| "stringify_items [x] = stringify x"
| "stringify_items (x # y # xs) = stringify x @ '','' @ stringify_items (y # xs)"
| "stringify_members sep [] = ''''"
| "stringify_members sep ((k, v) # ps) =
     (if v = Undef then stringify_members sep ps
      else sep @ json_quote k @ '':'' @ stringify v @ stringify_members '','' ps)"

text \<open>What is left of a value after printing.\<close>

fun clean :: "jsval \<Rightarrow> jsval" and clean_members :: "jsval props \<Rightarrow> jsval props" where
  "clean Undef = Null"
| "clean NaN = Null"
| "clean (Arr xs) = Arr (map clean xs)"
| "clean (Obj ps) = Obj (clean_members ps)"
| "clean v = v"
| "clean_members [] = []"
| "clean_members ((k, v) # ps) =
     (if v = Undef then clean_members ps else (k, clean v) # clean_members ps)"

section \<open>Parsing\<close>

definition is_space :: "char \<Rightarrow> bool" where
  "is_space c \<longleftrightarrow> code_of c \<in> {9, 10, 13, 32}"

definition expect :: "char \<Rightarrow> string \<Rightarrow> string option" where
  "expect c s =
     (case dropWhile is_space s of [] \<Rightarrow> None | d # r \<Rightarrow> if d = c then Some r else None)"

definition hex_value :: "char \<Rightarrow> nat option" where
  "hex_value c =
     (if is_digit c then Some (code_of c - 48)
      else if 97 \<le> code_of c \<and> code_of c \<le> 102 then Some (code_of c - 87)
      else if 65 \<le> code_of c \<and> code_of c \<le> 70 then Some (code_of c - 55)
      else None)"

fun hex4 :: "string \<Rightarrow> (nat \<times> string) option" where
  "hex4 (a # b # c # d # r) =
     (case (hex_value a, hex_value b, hex_value c, hex_value d) of
        (Some i, Some j, Some k, Some l) \<Rightarrow> Some (((i * 16 + j) * 16 + k) * 16 + l, r)
      | _ \<Rightarrow> None)"
| "hex4 _ = None"

definition simple_escape :: "char \<Rightarrow> char option" where
  "simple_escape e =
     (if e = dquote \<or> e = backslash \<or> e = CHR ''/'' then Some e
      else if e = CHR ''b'' then Some (char_of (8::nat))
      else if e = CHR ''t'' then Some (char_of (9::nat))
      else if e = CHR ''n'' then Some (char_of (10::nat))
      else if e = CHR ''f'' then Some (char_of (12::nat))
      else if e = CHR ''r'' then Some (char_of (13::nat))
      else None)"

text \<open>A high surrogate joined with the escape of a low surrogate that follows it.\<close>

definition surrogate_pair :: "nat \<Rightarrow> string \<Rightarrow> (nat \<times> string) option" where
  "surrogate_pair u r =
     (if 0xD800 \<le> u \<and> u < 0xDC00 \<and> take 2 r = [backslash, CHR ''u''] then
        (case hex4 (drop 2 r) of None \<Rightarrow> None
         | Some (w, r') \<Rightarrow>
             if 0xDC00 \<le> w \<and> w < 0xE000
             then Some (0x10000 + (u - 0xD800) * 1024 + (w - 0xDC00), r') else None)
      else None)"

text \<open>A unit or a pair of units after \<open>\u\<close>.\<close>

definition unicode_escape :: "string \<Rightarrow> (nat \<times> string) option" where
  "unicode_escape r =
     (case hex4 r of None \<Rightarrow> None
      | Some (u, r') \<Rightarrow> (case surrogate_pair u r' of None \<Rightarrow> Some (u, r') | Some p \<Rightarrow> Some p))"

lemma hex4_length: "hex4 r = Some (u, r') \<Longrightarrow> length r' < length r"
  by (cases r rule: hex4.cases) (auto split: option.splits)

lemma unicode_escape_length: "unicode_escape r = Some (u, r') \<Longrightarrow> length r' < length r"
  by (auto simp: unicode_escape_def surrogate_pair_def dest!: hex4_length
      split: option.splits if_splits)

text \<open>The rest of a string literal after its opening quote.\<close>

function parse_chars :: "string \<Rightarrow> (string \<times> string) option" where
  "parse_chars [] = None"
| "parse_chars (c # cs) =
     (if c = dquote then Some ([], cs)
      else if c = backslash then
        (case cs of [] \<Rightarrow> None
         | e # r \<Rightarrow>
             if e = CHR ''u'' then
               (case unicode_escape r of None \<Rightarrow> None
                | Some (u, r') \<Rightarrow> map_option (apfst ((@) (utf8_char u))) (parse_chars r'))
             else
               (case simple_escape e of None \<Rightarrow> None
                | Some x \<Rightarrow> map_option (apfst ((#) x)) (parse_chars r)))
      else if code_of c < 32 then None
      else map_option (apfst ((#) c)) (parse_chars cs))"
  by pat_completeness auto
termination
  by (relation "measure length") (auto dest: unicode_escape_length)

definition parse_number :: "string \<Rightarrow> (jsval \<times> string) option" where
  "parse_number s =
     (let (sign, r) = (case s of [] \<Rightarrow> (1, s) | c # r \<Rightarrow> if c = CHR ''-'' then (- 1, r) else (1, s));
          ds = takeWhile is_digit r
      in if ds = [] \<or> (hd ds = CHR ''0'' \<and> tl ds \<noteq> []) then None
         else Some (Num (sign * int (read_digits 0 ds)), dropWhile is_digit r))"

definition parse_word :: "string \<Rightarrow> jsval \<Rightarrow> string \<Rightarrow> (jsval \<times> string) option" where
  "parse_word w v s = (if take (length w) s = w then Some (v, drop (length w) s) else None)"

text \<open>
  The recursive descent, with a bound on the nesting of calls: \<open>JSON_parse\<close> below starts it with
  twice the length of its text, which \<open>parse_value_fuel\<close> shows to be enough.
\<close>

fun parse_value :: "nat \<Rightarrow> string \<Rightarrow> (jsval \<times> string) option"
  and parse_items :: "nat \<Rightarrow> string \<Rightarrow> (jsval list \<times> string) option"
  and parse_members :: "nat \<Rightarrow> string \<Rightarrow> (jsval props \<times> string) option" where
  "parse_value 0 s = None"
| "parse_value (Suc f) s =
     (case dropWhile is_space s of [] \<Rightarrow> None
      | c # r \<Rightarrow>
          if c = CHR ''{'' then
            (case expect CHR ''}'' r of Some r' \<Rightarrow> Some (Obj [], r')
             | None \<Rightarrow> map_option (apfst (\<lambda>ps. Obj (prop_literal ps))) (parse_members f r))
          else if c = CHR ''['' then
            (case expect CHR '']'' r of Some r' \<Rightarrow> Some (Arr [], r')
             | None \<Rightarrow> map_option (apfst Arr) (parse_items f r))
          else if c = dquote then map_option (apfst Str) (parse_chars r)
          else if c = CHR ''t'' then parse_word ''true'' (Bool True) (c # r)
          else if c = CHR ''f'' then parse_word ''false'' (Bool False) (c # r)
          else if c = CHR ''n'' then parse_word ''null'' Null (c # r)
          else parse_number (c # r))"
| "parse_items 0 s = None"
| "parse_items (Suc f) s =
     (case parse_value f s of None \<Rightarrow> None
      | Some (v, r) \<Rightarrow>
          (case expect CHR '','' r of
             Some r' \<Rightarrow> map_option (apfst ((#) v)) (parse_items f r')
           | None \<Rightarrow> map_option (\<lambda>r'. ([v], r')) (expect CHR '']'' r)))"
| "parse_members 0 s = None"
| "parse_members (Suc f) s =
     (case Option.bind (expect dquote s) parse_chars of None \<Rightarrow> None
      | Some (k, r) \<Rightarrow>
          (case Option.bind (expect CHR '':'' r) (parse_value f) of None \<Rightarrow> None
           | Some (v, r1) \<Rightarrow>
               (case expect CHR '','' r1 of
                  Some r2 \<Rightarrow> map_option (apfst ((#) (k, v))) (parse_members f r2)
                | None \<Rightarrow> map_option (\<lambda>r2. ([(k, v)], r2)) (expect CHR ''}'' r1))))"

definition JSON_parse :: "string \<Rightarrow> jsval thrown" where
  "JSON_parse s =
     (case parse_value (2 * length s + 1) s of None \<Rightarrow> Inl SyntaxError
      | Some (v, r) \<Rightarrow> if dropWhile is_space r = [] then Inr v else Inl SyntaxError)"

section \<open>Enough fuel\<close>

lemma length_dropWhile_Cons: "dropWhile P s = c # r \<Longrightarrow> length r < length s"
  using length_dropWhile_le[of P s] by simp

lemma expect_length: "expect c s = Some r \<Longrightarrow> length r < length s"
  by (auto simp: expect_def split: list.splits if_splits dest: length_dropWhile_Cons)

lemma parse_chars_length: "parse_chars s = Some (t, r) \<Longrightarrow> length r < length s"
proof (induction s arbitrary: t r rule: parse_chars.induct)
  case (2 c cs)
  then show ?case
    by (fastforce split: if_splits list.splits option.splits dest: unicode_escape_length)
qed simp

lemma parse_number_length:
  assumes "parse_number s = Some (v, r)"
  shows "length r < length s"
proof -
  have *: "length (dropWhile is_digit t) < length t" if "takeWhile is_digit t \<noteq> []" for t
    using that by (cases t) (auto simp: le_imp_less_Suc length_dropWhile_le split: if_splits)
  show ?thesis
    using assms
    by (auto simp: parse_number_def Let_def le_imp_less_Suc length_dropWhile_le
        split: list.splits if_splits dest!: *)
qed

lemma parse_word_length: "parse_word w v s = Some (u, r) \<Longrightarrow> w \<noteq> [] \<Longrightarrow> length r < length s"
  by (cases s) (auto simp: parse_word_def split: if_splits)

lemmas parse_piece_length =
  length_dropWhile_Cons expect_length parse_chars_length parse_number_length parse_word_length

lemma parse_length:
  "parse_value f s = Some (v, r) \<Longrightarrow> length r < length s"
  "parse_items f s = Some (vs, r) \<Longrightarrow> length r < length s"
  "parse_members f s = Some (ps, r) \<Longrightarrow> length r < length s"
proof (induction f s and f s and f s arbitrary: v r and vs r and ps r
    rule: parse_value_parse_items_parse_members.induct)
  case (2 f s)
  then obtain c t where ct: "dropWhile is_space s = c # t"
    by (auto split: list.splits)
  have "length (c # t) \<le> length s"
    using length_dropWhile_le[of is_space s] ct by simp
  moreover have "length r < length (c # t)"
    using 2 ct
    by (fastforce split: if_splits option.splits dest: parse_piece_length)
  ultimately show ?case by simp
next
  case (4 f s)
  then show ?case
    by (fastforce split: option.splits dest: parse_piece_length)
next
  case (6 f s)
  then show ?case
    by (fastforce simp: bind_eq_Some_conv split: option.splits dest: parse_piece_length)
qed auto

declare parse_value.simps(2) [simp del] parse_items.simps(2) [simp del]
  parse_members.simps(2) [simp del]

lemma parse_fuel_step:
  "(\<forall>s. 2 * length s + 1 \<le> f \<longrightarrow> parse_value (Suc f) s = parse_value f s)
   \<and> (\<forall>s. 2 * length s + 2 \<le> f \<longrightarrow> parse_items (Suc f) s = parse_items f s)
   \<and> (\<forall>s. 2 * length s + 2 \<le> f \<longrightarrow> parse_members (Suc f) s = parse_members f s)"
proof (induction f)
  case (Suc f)
  have v: "parse_value (Suc f) t = parse_value f t" if "2 * length t + 1 \<le> f" for t
    using Suc that by blast
  have i: "parse_items (Suc f) t = parse_items f t" if "2 * length t + 2 \<le> f" for t
    using Suc that by blast
  have m: "parse_members (Suc f) t = parse_members f t" if "2 * length t + 2 \<le> f" for t
    using Suc that by blast
  have "parse_value (Suc (Suc f)) s = parse_value (Suc f) s" if "2 * length s + 1 \<le> Suc f" for s
  proof (cases "dropWhile is_space s")
    case (Cons c r)
    then have "2 * length r + 2 \<le> f"
      using that length_dropWhile_Cons[OF Cons] by simp
    then show ?thesis
      unfolding parse_value.simps(2) Cons by (simp only: list.case i m)
  next
    case Nil
    show ?thesis unfolding parse_value.simps(2) Nil by simp
  qed
  moreover have "parse_items (Suc (Suc f)) s = parse_items (Suc f) s"
    if "2 * length s + 2 \<le> Suc f" for s
  proof -
    have "parse_value (Suc f) s = parse_value f s" using that by (simp add: v)
    moreover have "parse_items (Suc f) r' = parse_items f r'"
      if "parse_value f s = Some (x, r)" "expect CHR '','' r = Some r'" for x r r'
      using that \<open>2 * length s + 2 \<le> Suc f\<close> parse_length(1) expect_length i by fastforce
    ultimately show ?thesis
      by (auto simp: parse_items.simps(2)[of "Suc f" s] parse_items.simps(2)[of f s]
          split: option.splits)
  qed
  moreover have "parse_members (Suc (Suc f)) s = parse_members (Suc f) s"
    if "2 * length s + 2 \<le> Suc f" for s
  proof -
    have *: "parse_value (Suc f) r' = parse_value f r' \<and> length r' < length s"
      if "Option.bind (expect dquote s) parse_chars = Some (k, r)" "expect CHR '':'' r = Some r'"
      for k r r'
      using that \<open>2 * length s + 2 \<le> Suc f\<close>
      by (fastforce simp: bind_eq_Some_conv dest: parse_piece_length intro!: v)
    moreover have "parse_members (Suc f) r2 = parse_members f r2"
      if "Option.bind (expect dquote s) parse_chars = Some (k, r)" "expect CHR '':'' r = Some r'"
        "parse_value f r' = Some (x, r1)" "expect CHR '','' r1 = Some r2"
      for k r r' x r1 r2
    proof -
      have "length r2 < length s"
        using *[OF that(1,2)] parse_length(1)[OF that(3)] expect_length[OF that(4)] by simp
      with \<open>2 * length s + 2 \<le> Suc f\<close> show ?thesis by (simp add: m)
    qed
    ultimately show ?thesis
      by (auto simp: parse_members.simps(2)[of "Suc f" s] parse_members.simps(2)[of f s]
          bind_eq_Some_conv split: option.splits bind_split)
  qed
  ultimately show ?case by blast
qed simp

text \<open>Any bound of at least \<open>2 * length s + 1\<close> gives the same result.\<close>

lemma parse_value_fuel: "2 * length s + 1 \<le> f \<Longrightarrow> parse_value f s = parse_value (2 * length s + 1) s"
proof (induction f rule: nat_induct_at_least)
  case (Suc f)
  with parse_fuel_step[of f] show ?case by simp
qed simp

section \<open>The round trip\<close>

lemma hex_value_digit [simp]: "n < 16 \<Longrightarrow> hex_value (hex_digit n) = Some n"
  by (simp add: hex_value_def hex_digit_def is_digit_def)

lemma hex_value_0 [simp]: "hex_value CHR ''0'' = Some 0"
  by (simp add: hex_value_def is_digit_def)

lemma unicode_escape_control:
  assumes "n < 32"
  shows "unicode_escape (CHR ''0'' # CHR ''0'' # hex_digit (n div 16) # hex_digit (n mod 16) # r)
    = Some (n, r)"
  using assms by (simp add: unicode_escape_def surrogate_pair_def)

lemma code_of_eq: "code_of c = n \<Longrightarrow> c = char_of n"
  by auto

lemma parse_escaped_char: "parse_chars (json_escape c @ r) = map_option (apfst ((#) c)) (parse_chars r)"
proof -
  consider "c = dquote" | "c = backslash" | "code_of c \<in> {8, 9, 10, 12, 13}"
    | "c \<noteq> dquote" "c \<noteq> backslash" "code_of c \<notin> {8, 9, 10, 12, 13}"
    by blast
  then show ?thesis
  proof cases
    case 3
    then show ?thesis
      by (auto simp: json_escape_def simple_escape_def dest: code_of_eq)
  next
    case 4
    show ?thesis
    proof (cases "code_of c < 32")
      case True
      with 4 have "json_escape c = backslash # CHR ''u'' # CHR ''0'' # CHR ''0''
          # hex_digit (code_of c div 16) # [hex_digit (code_of c mod 16)]"
        by (simp add: json_escape_def)
      moreover have "(@) [c] = (#) c" by (simp add: fun_eq_iff)
      ultimately show ?thesis
        using True by (simp add: unicode_escape_control utf8_char_ascii)
    next
      case False
      with 4 show ?thesis by (simp add: json_escape_def)
    qed
  qed (simp_all add: json_escape_def simple_escape_def)
qed

lemma parse_quoted: "parse_chars (concat (map json_escape s) @ dquote # r) = Some (s, r)"
  by (induction s) (simp_all add: parse_escaped_char)

lemma takeWhile_dropWhile_show_nat:
  assumes "r = [] \<or> \<not> is_digit (hd r)"
  shows "takeWhile is_digit (show_nat n @ r) = show_nat n"
    and "dropWhile is_digit (show_nat n @ r) = r"
  using assms digits_show_nat[of n] by (cases r; auto)+

lemma parse_shown_int:
  assumes "r = [] \<or> \<not> is_digit (hd r)"
  shows "parse_number (show_int n @ r) = Some (Num n, r)"
proof -
  have canonical: "\<not> (hd (show_nat m) = CHR ''0'' \<and> tl (show_nat m) \<noteq> [])" for m
    using leading_show_nat[of m] by (cases "m = 0") (auto simp: digit_char_0 show_nat.simps[of 0])
  have no_sign: "\<exists>c cs. show_nat m = c # cs \<and> c \<noteq> CHR ''-''" for m
    using digits_show_nat[of m] by (cases "show_nat m") (auto simp: is_digit_def)
  show ?thesis
  proof (cases "n < 0")
    case True
    with assms canonical[of "nat (- n)"] show ?thesis
      by (simp add: parse_number_def show_int_def takeWhile_dropWhile_show_nat Let_def)
  next
    case False
    obtain c cs where "show_nat (nat n) = c # cs" "c \<noteq> CHR ''-''" using no_sign by blast
    with False assms canonical[of "nat n"] takeWhile_dropWhile_show_nat[OF assms, of "nat n"]
    show ?thesis
      using read_show_nat[of "nat n"] by (simp add: parse_number_def show_int_def)
  qed
qed

text \<open>What may follow a value inside a text.\<close>

definition json_end :: "string \<Rightarrow> bool" where
  "json_end r \<longleftrightarrow> r = [] \<or> hd r \<in> {CHR '','', CHR '']'', CHR ''}''}"

lemma json_end_simps [simp]: "json_end []" "json_end (CHR '','' # r)" "json_end (CHR '']'' # r)"
    "json_end (CHR ''}'' # r)"
  by (simp_all add: json_end_def)

lemma json_end_no_digit: "json_end r \<Longrightarrow> r = [] \<or> \<not> is_digit (hd r)"
  by (auto simp: json_end_def is_digit_def)

lemma expect_same [simp]: "\<not> is_space c \<Longrightarrow> expect c (c # r) = Some r"
  by (simp add: expect_def)

lemma expect_other: "\<not> is_space d \<Longrightarrow> c \<noteq> d \<Longrightarrow> expect c (d # r) = None"
  by (simp add: expect_def)

lemma punctuation [simp]:
  "\<not> is_space CHR '',''" "\<not> is_space CHR '']''" "\<not> is_space CHR ''}''" "\<not> is_space CHR '':''"
  "\<not> is_space dquote" "\<not> is_space CHR ''{''" "\<not> is_space CHR ''[''" "\<not> is_space CHR ''t''"
  "\<not> is_space CHR ''f''" "\<not> is_space CHR ''n''" "\<not> is_space CHR ''-''"
  by (simp_all add: is_space_def)

lemma digit_no_space: "is_digit c \<Longrightarrow> \<not> is_space c"
  by (auto simp: is_digit_def is_space_def)

text \<open>The first character of a printed value decides how it is parsed and is no closing bracket.\<close>

lemma show_int_first: "\<exists>c cs. show_int n = c # cs \<and> (is_digit c \<or> c = CHR ''-'')"
  using digits_show_nat[of "nat n"]
  by (cases "show_nat (nat n)") (auto simp: show_int_def)

lemma stringify_first:
  "\<exists>c cs. stringify v = c # cs \<and> \<not> is_space c \<and> c \<notin> {CHR '']'', CHR ''}'', CHR '',''}"
proof (cases v)
  case (Num n)
  then show ?thesis using show_int_first[of n]
    by (auto simp: is_digit_def is_space_def)
qed (auto simp: json_quote_def)

lemma stringify_items_first:
  "xs \<noteq> [] \<Longrightarrow> \<exists>c cs. stringify_items xs = c # cs \<and> \<not> is_space c \<and> c \<noteq> CHR '']''"
  using stringify_first[of "hd xs"] by (cases xs rule: stringify_items.cases) auto

lemma parse_number_dispatch:
  assumes "is_digit c \<or> c = CHR ''-''"
  shows "parse_value (Suc f) (c # r) = parse_number (c # r)"
proof -
  have "\<not> is_space c" "c \<noteq> CHR ''{''" "c \<noteq> CHR ''[''" "c \<noteq> dquote" "c \<noteq> CHR ''t''"
    "c \<noteq> CHR ''f''" "c \<noteq> CHR ''n''"
    using assms by (auto simp: is_digit_def is_space_def)
  then show ?thesis by (simp add: parse_value.simps(2))
qed

lemma clean_members_Nil: "clean_members ps = [] \<longleftrightarrow> (\<forall>p \<in> set ps. snd p = Undef)"
  by (induction ps) (auto split: if_splits)

lemma stringify_members_sep:
  "stringify_members sep ps =
     (if clean_members ps = [] then '''' else sep @ stringify_members '''' ps)"
  by (induction ps) (auto split: if_splits)

lemma stringify_members_first:
  "clean_members ps \<noteq> [] \<Longrightarrow> \<exists>cs. stringify_members '''' ps = dquote # cs"
  by (induction ps) (auto simp: json_quote_def split: if_splits)

lemma keys_clean_members: "set (keys (clean_members ps)) \<subseteq> set (keys ps)"
  by (induction ps) (auto split: if_splits)

lemma prop_ordered_clean: "prop_ordered ps \<Longrightarrow> prop_ordered (clean_members ps)"
proof (induction ps)
  case (Cons p ps)
  then show ?case
    using keys_clean_members[of ps] by (cases p) (auto simp: prop_ordered_Cons)
qed simp

lemma parse_words:
  assumes "0 < f"
  shows "parse_value f (CHR ''n'' # CHR ''u'' # CHR ''l'' # CHR ''l'' # r) = Some (Null, r)"
    and "parse_value f (CHR ''t'' # CHR ''r'' # CHR ''u'' # CHR ''e'' # r) = Some (Bool True, r)"
    and "parse_value f (CHR ''f'' # CHR ''a'' # CHR ''l'' # CHR ''s'' # CHR ''e'' # r)
      = Some (Bool False, r)"
  using assms by (cases f; simp add: parse_value.simps(2) parse_word_def)+

text \<open>One piece of the text of a value: what the descent returns on it and what it leaves.\<close>

lemma parse_stringify_pieces:
  "\<lbrakk>js_wf v; json_end r; 2 * length (stringify v) + 1 \<le> f\<rbrakk>
     \<Longrightarrow> parse_value f (stringify v @ r) = Some (clean v, r)"
  "\<lbrakk>\<forall>v \<in> set vs. js_wf v; vs \<noteq> []; 2 * length (stringify_items vs) + 2 \<le> f\<rbrakk>
     \<Longrightarrow> parse_items f (stringify_items vs @ CHR '']'' # r) = Some (map clean vs, r)"
  "\<lbrakk>\<forall>p \<in> set ps. js_wf (snd p); clean_members ps \<noteq> []; sep = (sep :: string);
    2 * length (stringify_members '''' ps) + 2 \<le> f\<rbrakk>
     \<Longrightarrow> parse_members f (stringify_members '''' ps @ CHR ''}'' # r) = Some (clean_members ps, r)"
proof (induction v and vs and sep ps arbitrary: f r and f r and f r
    rule: stringify_stringify_items_stringify_members.induct)
  case (4 n)
  obtain c cs where c: "show_int n = c # cs" "is_digit c \<or> c = CHR ''-''"
    using show_int_first by blast
  obtain f' where f: "f = Suc f'" using "4.prems"(3) by (cases f) auto
  have "parse_number (show_int n @ r) = Some (Num n, r)"
    using parse_shown_int json_end_no_digit "4.prems"(2) by blast
  with c f show ?case by (simp add: parse_number_dispatch)
next
  case (6 s)
  then obtain f' where f: "f = Suc f'" by (cases f) auto
  show ?case by (simp add: f parse_value.simps(2) json_quote_def parse_quoted)
next
  case (7 vs)
  then obtain f' where f: "f = Suc f'" by (cases f) auto
  show ?case
  proof (cases "vs = []")
    case True
    then show ?thesis by (simp add: f parse_value.simps(2))
  next
    case False
    then obtain c cs where c: "stringify_items vs = c # cs" "\<not> is_space c" "c \<noteq> CHR '']''"
      using stringify_items_first by blast
    then have "expect CHR '']'' (stringify_items vs @ CHR '']'' # r) = None"
      by (simp add: expect_other)
    with 7 False f show ?thesis by (simp add: parse_value.simps(2))
  qed
next
  case (8 ps)
  then obtain f' where f: "f = Suc f'" by (cases f) auto
  show ?case
  proof (cases "clean_members ps = []")
    case True
    then show ?thesis by (simp add: f parse_value.simps(2) stringify_members_sep)
  next
    case False
    then obtain cs where "stringify_members '''' ps = dquote # cs"
      using stringify_members_first by blast
    then have "expect CHR ''}'' (stringify_members '''' ps @ CHR ''}'' # r) = None"
      by (simp add: expect_other)
    moreover have "prop_literal (clean_members ps) = clean_members ps"
      using "8.prems"(1) prop_spread_ordered_id[of "[]" "clean_members ps"]
      by (simp add: prop_literal_def prop_ordered_clean)
    ultimately show ?thesis
      using 8 False f by (simp add: parse_value.simps(2))
  qed
next
  case (10 v)
  then obtain f' where "f = Suc f'" by (cases f) auto
  with 10 show ?case by (simp add: parse_items.simps(2) expect_other)
next
  case (11 v w vs)
  then obtain f' where "f = Suc f'" by (cases f) auto
  with 11 show ?case by (simp add: parse_items.simps(2))
next
  case (13 sep k v ps)
  then obtain f' where f: "f = Suc f'" by (cases f) auto
  show ?case
  proof (cases "v = Undef")
    case True
    with 13 show ?thesis by simp
  next
    case False
    have v: "parse_value f' (stringify v @ r') = Some (clean v, r')" if "json_end r'" for r'
      using that False "13.IH"(2) "13.prems" f by (simp add: json_quote_def)
    show ?thesis
    proof (cases "clean_members ps = []")
      case True
      with False show ?thesis
        by (simp add: f parse_members.simps(2) json_quote_def parse_quoted v expect_other
            stringify_members_sep[of "'',''" ps])
    next
      case nonempty: False
      have "parse_members f' (stringify_members '''' ps @ CHR ''}'' # r) = Some (clean_members ps, r)"
        using False nonempty "13.prems" "13.IH"(3) f
        by (simp add: json_quote_def stringify_members_sep[of "'',''" ps])
      with False nonempty show ?thesis
        by (simp add: f parse_members.simps(2) json_quote_def parse_quoted v
            stringify_members_sep[of "'',''" ps])
    qed
  qed
qed (auto simp: parse_words)

lemma JSON_parse_stringify: "js_wf v \<Longrightarrow> JSON_parse (stringify v) = Inr (clean v)"
  using parse_stringify_pieces(1)[of v "[]" "2 * length (stringify v) + 1"]
  by (simp add: JSON_parse_def)

section \<open>The interface of a message codec\<close>

text \<open>
  What a sender and a receiver of messages rely on: what is encoded is decoded again, up to a
  normal form that encoding and decoding do not change any further.
\<close>

locale codec =
  fixes enc :: "'v \<Rightarrow> 'w"
    and dec :: "'w \<Rightarrow> 'e + 'v"
    and norm :: "'v \<Rightarrow> 'v"
    and ok :: "'v \<Rightarrow> bool"
  assumes dec_enc: "ok v \<Longrightarrow> dec (enc v) = Inr (norm v)"
    and enc_norm: "enc (norm v) = enc v"
    and ok_norm: "ok v \<Longrightarrow> ok (norm v)"
begin

lemma norm_norm: "ok v \<Longrightarrow> norm (norm v) = norm v"
  by (metis dec_enc enc_norm ok_norm sum.inject(2))

lemma enc_eq_iff: "ok v \<Longrightarrow> ok w \<Longrightarrow> enc v = enc w \<longleftrightarrow> norm v = norm w"
  by (metis dec_enc enc_norm sum.inject(2))

text \<open>A message that carries an encoded message: both layers come back.\<close>

lemma nested:
  assumes "ok inner" and "ok (wrap (enc inner))"
    and "norm (wrap (enc inner)) = wrap (enc inner)"
  shows "dec (enc (wrap (enc inner))) = Inr (wrap (enc inner)) \<and> dec (enc inner) = Inr (norm inner)"
  using assms by (simp add: dec_enc)

end

lemma stringify_clean:
  "stringify (clean v) = stringify v"
  "stringify_items (map clean vs) = stringify_items vs"
  "stringify_members sep (clean_members ps) = stringify_members sep ps"
proof (induction v and vs and sep ps rule: stringify_stringify_items_stringify_members.induct)
  case (13 sep k v ps)
  have "clean v \<noteq> Undef" by (cases v) auto
  with 13 show ?case by simp
qed auto

lemma js_wf_clean:
  "js_wf v \<Longrightarrow> js_wf (clean v)"
  "\<forall>p \<in> set ps. js_wf (snd p) \<Longrightarrow> \<forall>p \<in> set (clean_members ps). js_wf (snd p)"
  by (induction v and ps rule: clean_clean_members.induct) (auto simp: prop_ordered_clean)

interpretation json: codec stringify JSON_parse clean js_wf
  by unfold_locales (simp_all add: JSON_parse_stringify stringify_clean js_wf_clean)

section \<open>Parsing gives well-formed values\<close>

lemma js_wf_set:
  assumes "js_wf (Obj ps)" and "js_wf v"
  shows "js_wf (Obj (prop_set k v ps))"
proof -
  have "js_wf (snd q)" if q: "q \<in> set (prop_set k v ps)" for q
  proof -
    have "distinct (map fst (prop_set k v ps))"
      using assms(1) prop_ordered_set[of ps k v] by (simp add: prop_ordered_def keys_def)
    with q have "prop_get (prop_set k v ps) (fst q) = Some (snd q)"
      by (simp add: prop_get_def)
    then have "snd q = v \<or> prop_get ps (fst q) = Some (snd q)"
      by (auto split: if_splits)
    then show ?thesis
      using assms by (auto simp: prop_get_def dest: map_of_SomeD)
  qed
  with assms(1) show ?thesis by simp
qed

lemma js_wf_spread:
  "js_wf (Obj a) \<Longrightarrow> \<forall>p \<in> set b. js_wf (snd p) \<Longrightarrow> js_wf (Obj (prop_spread a b))"
proof (induction b arbitrary: a)
  case (Cons p b)
  obtain k v where p: "p = (k, v)" by (cases p)
  have "js_wf (Obj (prop_set k v a))" using Cons.prems p by (intro js_wf_set) auto
  then have "js_wf (Obj (prop_spread (prop_set k v a) b))"
    using Cons.prems(2) by (intro Cons.IH) auto
  then show ?case by (simp only: p prop_spread.simps)
qed simp

lemma js_wf_literal: "\<forall>p \<in> set ps. js_wf (snd p) \<Longrightarrow> js_wf (Obj (prop_literal ps))"
  unfolding prop_literal_def by (rule js_wf_spread) simp_all

lemma parse_wf:
  "parse_value f s = Some (v, r) \<Longrightarrow> js_wf v"
  "parse_items f s = Some (vs, r) \<Longrightarrow> \<forall>v \<in> set vs. js_wf v"
  "parse_members f s = Some (ps, r) \<Longrightarrow> \<forall>p \<in> set ps. js_wf (snd p)"
proof (induction f s and f s and f s arbitrary: v r and vs r and ps r
    rule: parse_value_parse_items_parse_members.induct)
  case (2 f s)
  then show ?case
    by (auto simp: parse_value.simps(2) parse_word_def parse_number_def Let_def
        simp del: js_wf.simps(2) intro!: js_wf_literal split: list.splits if_splits option.splits)
      (auto split: if_splits)
next
  case (4 f s)
  then show ?case
    by (auto simp: parse_items.simps(2) split: option.splits)
next
  case (6 f s)
  then show ?case
    by (fastforce simp: parse_members.simps(2) bind_eq_Some_conv split: option.splits)
qed auto

lemma JSON_parse_wf: "JSON_parse t = Inr v \<Longrightarrow> js_wf v"
  by (auto simp: JSON_parse_def dest: parse_wf(1) split: option.splits if_splits)

lemma js_wf_get: "js_wf v \<Longrightarrow> js_get v k = Inr w \<Longrightarrow> js_wf w"
  by (cases v)
    (auto simp: or_undef_def nth_or_undef_def prop_get_def split: option.splits if_splits
      dest!: map_of_SomeD)

text \<open>From here on the text of a value is only compared and parsed, never spelled out.\<close>

declare stringify.simps [simp del] stringify_items.simps [simp del] stringify_members.simps [simp del]

end
