(* ===== verification/React.thy ===== *)
theory React
  imports Json
begin

text \<open>
  The environment of a page: the element trees that components render, the effects they have on
  the world, the WebSocket connections they own, and the interface \<open>ws_page\<close> that every page with
  a connection implements.  React itself, antd and the browser are not part of the repository; what
  the pages rely on is the documented behaviour modelled here: a state setter called outside of a
  React event handler takes effect at once, an effect runs after the render in which one of its
  dependencies changed, and \<open>false\<close>, \<open>null\<close> and \<open>undefined\<close> render nothing.
\<close>

section \<open>Element trees\<close>

text \<open>
  \<open>Elem tag props children\<close> is \<open><tag props>children</tag>\<close>.  A property holds a value, the name of
  the function it is bound to, or elements.  \<open>Invalid_child\<close> is what an object as a child gives:
  React raises when it meets one.
\<close>

datatype vnode =
    Elem string "(string \<times> attr) list" "vnode list"
  | Text string
  | Invalid_child
and attr =
    PV jsval
  | PFun string
  | PNodes "vnode list"

abbreviation PS :: "string \<Rightarrow> attr" where "PS s \<equiv> PV (Str s)"

text \<open>\<open>{cond && node}\<close> for a boolean condition.\<close>

definition shown_if :: "bool \<Rightarrow> vnode \<Rightarrow> vnode list" where
  "shown_if b n = (if b then [n] else [])"

text \<open>\<open>{v}\<close> for a value as a child.\<close>

fun child :: "jsval \<Rightarrow> vnode list" where
  "child Undef = []"
| "child Null = []"
| "child (Bool _) = []"
| "child (Num n) = [Text (show_int n)]"
| "child NaN = [Text ''NaN'']"
| "child (Str s) = [Text s]"
| "child (Arr xs) = concat (map child xs)"
| "child (Obj _) = [Invalid_child]"

text \<open>All elements of a tree in document order, those inside properties included.\<close>

fun elems :: "vnode \<Rightarrow> vnode list" and elems_attr :: "attr \<Rightarrow> vnode list" where
  "elems (Elem t ps cs) =
     Elem t ps cs # concat (map (\<lambda>p. elems_attr (snd p)) ps) @ concat (map elems cs)"
| "elems (Text s) = [Text s]"
| "elems Invalid_child = [Invalid_child]"
| "elems_attr (PNodes ns) = concat (map elems ns)"
| "elems_attr (PV v) = []"
| "elems_attr (PFun f) = []"

fun has_tag :: "string \<Rightarrow> vnode \<Rightarrow> bool" where
  "has_tag t (Elem t' ps cs) = (t = t')"
| "has_tag t _ = False"

definition with_tag :: "string \<Rightarrow> vnode \<Rightarrow> vnode list" where
  "with_tag t n = filter (has_tag t) (elems n)"

fun attr_of :: "string \<Rightarrow> vnode \<Rightarrow> attr option" where
  "attr_of k (Elem t ps cs) = map_of ps k"
| "attr_of k _ = None"

definition valid_tree :: "vnode \<Rightarrow> bool" where
  "valid_tree n \<longleftrightarrow> Invalid_child \<notin> set (elems n)"

definition valid_attr :: "attr \<Rightarrow> bool" where
  "valid_attr a \<longleftrightarrow> Invalid_child \<notin> set (elems_attr a)"

lemma valid_tree_simps [simp]:
  "valid_tree (Elem t ps cs) \<longleftrightarrow> (\<forall>p \<in> set ps. valid_attr (snd p)) \<and> (\<forall>c \<in> set cs. valid_tree c)"
  "valid_tree (Text s)" "\<not> valid_tree Invalid_child"
  "valid_attr (PV v)" "valid_attr (PFun f)" "valid_attr (PNodes ns) \<longleftrightarrow> (\<forall>n \<in> set ns. valid_tree n)"
  by (auto simp: valid_tree_def valid_attr_def)

section \<open>Effects\<close>

text \<open>What a page does besides changing its state, in the order in which it happens.\<close>

datatype effect =
    Connect string                  \<comment> \<open>\<open>new WebSocket(url)\<close>\<close>
  | Frame nat string                \<comment> \<open>a text sent on the connection with this number\<close>
  | Toast string jsval              \<comment> \<open>\<open>message.error\<close>, \<open>message.info\<close>, ...\<close>
  | ConfirmBox "jsval props"        \<comment> \<open>\<open>Modal.confirm\<close>\<close>
  | ReloadList                      \<comment> \<open>\<open>listActionRef.current?.reloadAndRest?.()\<close>\<close>
  | Scroll string                   \<comment> \<open>scrolling the element with this id to its end\<close>

section \<open>Connections\<close>

datatype ready = CONNECTING | OPEN | CLOSED

text \<open>The life of a connection only moves forward; its states are ordered accordingly.\<close>

fun ready_rank :: "ready \<Rightarrow> nat" where
  "ready_rank CONNECTING = 0"
| "ready_rank OPEN = 1"
| "ready_rank CLOSED = 3"

lemma ready_rank_inject: "ready_rank a = ready_rank b \<longleftrightarrow> a = b"
  by (cases a; cases b) auto

instantiation ready :: linorder
begin

definition less_eq_ready :: "ready \<Rightarrow> ready \<Rightarrow> bool" where
  "less_eq_ready a b \<longleftrightarrow> ready_rank a \<le> ready_rank b"

definition less_ready :: "ready \<Rightarrow> ready \<Rightarrow> bool" where
  "less_ready a b \<longleftrightarrow> ready_rank a < ready_rank b"

instance
  by standard (auto simp: less_eq_ready_def less_ready_def ready_rank_inject)

end

lemma ready_order [simp]: "CONNECTING \<le> r" "r \<le> CLOSED" "OPEN \<le> OPEN"
  by (cases r; simp add: less_eq_ready_def)+

text \<open>The connections a page has made, numbered from 0, and the log of its effects.\<close>

record net =
  socks :: "ready list"
  log :: "effect list"

definition net0 :: net where
  "net0 = \<lparr>socks = [], log = []\<rparr>"

definition emit :: "effect \<Rightarrow> net \<Rightarrow> net" where
  "emit e n = n\<lparr>log := log n @ [e]\<rparr>"

definition connect :: "string \<Rightarrow> net \<Rightarrow> net" where
  "connect url n = n\<lparr>socks := socks n @ [CONNECTING], log := log n @ [Connect url]\<rparr>"

definition mark :: "nat \<Rightarrow> ready \<Rightarrow> net \<Rightarrow> net" where
  "mark i r n = n\<lparr>socks := (socks n)[i := r]\<rparr>"

definition ready_of :: "net \<Rightarrow> nat \<Rightarrow> ready" where
  "ready_of n i = (if i < length (socks n) then socks n ! i else CLOSED)"

text \<open>\<open>send\<close>: an exception before the connection is open, nothing after it is closed.\<close>

definition send :: "nat \<Rightarrow> string \<Rightarrow> net \<Rightarrow> net thrown" where
  "send i text n =
     (case ready_of n i of CONNECTING \<Rightarrow> Inl InvalidStateError
      | OPEN \<Rightarrow> Inr (emit (Frame i text) n)
      | CLOSED \<Rightarrow> Inr n)"

text \<open>A call whose exception nobody handles: the caller's state is as before the call.\<close>

definition or_keep :: "'s \<Rightarrow> 's thrown \<Rightarrow> 's" where
  "or_keep s r = (case r of Inl e \<Rightarrow> s | Inr s' \<Rightarrow> s')"

lemma or_keep_simps [simp]: "or_keep s (Inl e) = s" "or_keep s (Inr s') = s'"
  by (simp_all add: or_keep_def)

lemma net_simps [simp]:
  "socks (emit e n) = socks n" "log (emit e n) = log n @ [e]"
  "socks (connect url n) = socks n @ [CONNECTING]" "log (connect url n) = log n @ [Connect url]"
  "socks (mark i r n) = (socks n)[i := r]" "log (mark i r n) = log n"
  "socks net0 = []" "log net0 = []"
  by (simp_all add: emit_def connect_def mark_def net0_def)

lemma ready_of_emit [simp]: "ready_of (emit e n) i = ready_of n i"
  by (simp add: ready_of_def)

lemma send_socks: "send i text n = Inr n' \<Longrightarrow> socks n' = socks n"
  by (auto simp: send_def split: ready.splits)

lemma socks_or_keep_send [simp]: "socks (or_keep n (send i text n)) = socks n"
  by (auto simp: send_def split: ready.splits)

lemma send_open: "ready_of n i = OPEN \<Longrightarrow> send i text n = Inr (emit (Frame i text) n)"
  by (simp add: send_def)

text \<open>The texts sent so far on a connection, and all of them.\<close>

definition frames :: "net \<Rightarrow> (nat \<times> string) list" where
  "frames n = concat (map (\<lambda>e. case e of Frame i t \<Rightarrow> [(i, t)] | _ \<Rightarrow> []) (log n))"

lemma frames_simps [simp]:
  "frames (emit (Frame i t) n) = frames n @ [(i, t)]"
  "frames (emit (Toast l v) n) = frames n" "frames (emit (ConfirmBox b) n) = frames n"
  "frames (emit ReloadList n) = frames n" "frames (emit (Scroll x) n) = frames n"
  "frames (mark i r n) = frames n" "frames (connect url n) = frames n" "frames net0 = []"
  by (simp_all add: frames_def)

section \<open>The interface of a page with a connection\<close>

text \<open>
  The steps of a page \<open>'s\<close>: the browser opens or closes one of its connections, or something else
  happens (a message, a click).  \<open>opn\<close>, \<open>cls\<close> and \<open>act\<close> are the page's handlers.
\<close>

inductive ws_step ::
  "('s \<Rightarrow> net) \<Rightarrow> (nat \<Rightarrow> 's \<Rightarrow> 's) \<Rightarrow> (nat \<Rightarrow> 's \<Rightarrow> 's) \<Rightarrow> ('a \<Rightarrow> 's \<Rightarrow> 's) \<Rightarrow> 's \<Rightarrow> 's \<Rightarrow> bool"
  for nets :: "'s \<Rightarrow> net" and opn cls :: "nat \<Rightarrow> 's \<Rightarrow> 's" and act :: "'a \<Rightarrow> 's \<Rightarrow> 's" where
  opened: "ready_of (nets s) i = CONNECTING \<Longrightarrow> ws_step nets opn cls act s (opn i s)"
| closed: "ready_of (nets s) i \<noteq> CLOSED \<Longrightarrow> ws_step nets opn cls act s (cls i s)"
| acted: "ws_step nets opn cls act s (act a s)"

inductive ws_reach ::
  "('s \<Rightarrow> net) \<Rightarrow> (nat \<Rightarrow> 's \<Rightarrow> 's) \<Rightarrow> (nat \<Rightarrow> 's \<Rightarrow> 's) \<Rightarrow> ('a \<Rightarrow> 's \<Rightarrow> 's) \<Rightarrow> 's \<Rightarrow> 's \<Rightarrow> bool"
  for nets :: "'s \<Rightarrow> net" and opn cls :: "nat \<Rightarrow> 's \<Rightarrow> 's" and act :: "'a \<Rightarrow> 's \<Rightarrow> 's" and s0 :: 's
  where
  start: "ws_reach nets opn cls act s0 s0"
| step: "ws_reach nets opn cls act s0 s \<Longrightarrow> ws_step nets opn cls act s t
    \<Longrightarrow> ws_reach nets opn cls act s0 t"

inductive_cases ws_stepE: "ws_step nets opn cls act s t"

text \<open>
  What every page promises of its handlers: opening a connection makes it the client, closing one
  clears the client, and neither these nor any other action touches the state of another connection
  (new ones may be made, which start out connecting).
\<close>

locale ws_page =
  fixes nets :: "'s \<Rightarrow> net"
    and client :: "'s \<Rightarrow> nat option"
    and opn :: "nat \<Rightarrow> 's \<Rightarrow> 's"
    and cls :: "nat \<Rightarrow> 's \<Rightarrow> 's"
    and act :: "'a \<Rightarrow> 's \<Rightarrow> 's"
    and s0 :: 's
  assumes opn_client: "client (opn i s) = Some i"
    and opn_socks: "socks (nets (opn i s)) = (socks (nets s))[i := OPEN]"
    and cls_client: "client (cls i s) = None"
    and cls_socks: "\<exists>k. socks (nets (cls i s)) = (socks (nets s))[i := CLOSED] @ replicate k CONNECTING"
    and act_client: "client (act a s) = client s"
    and act_socks: "\<exists>k. socks (nets (act a s)) = socks (nets s) @ replicate k CONNECTING"
    and s0_client: "client s0 = None"
begin

abbreviation "page_step \<equiv> ws_step nets opn cls act"
abbreviation "page_reach \<equiv> ws_reach nets opn cls act s0"

lemma client_open:
  assumes "page_reach s"
  shows "client s = Some i \<Longrightarrow> ready_of (nets s) i = OPEN"
  using assms
proof (induction arbitrary: i rule: ws_reach.induct)
  case start
  then show ?case by (simp add: s0_client)
next
  case (step s t)
  from step.hyps(2) show ?case
  proof (cases rule: ws_step.cases)
    case (opened j)
    then have "j < length (socks (nets s))" by (auto simp: ready_of_def split: if_splits)
    with opened step.prems show ?thesis by (auto simp: opn_client opn_socks ready_of_def)
  next
    case (closed j)
    with step.prems show ?thesis by (simp add: cls_client)
  next
    case (acted a)
    then have "ready_of (nets s) i = OPEN" using step by (simp add: act_client)
    then show ?thesis
      using acted act_socks[of a s] by (auto simp: ready_of_def nth_append split: if_splits)
  qed
qed

text \<open>No connection ever goes back.\<close>

lemma step_progress: "page_step s t \<Longrightarrow> i < length (socks (nets s)) \<Longrightarrow>
    ready_of (nets s) i \<le> ready_of (nets t) i"
proof (cases rule: ws_step.cases)
  fix j
  assume "t = opn j s" "ready_of (nets s) j = CONNECTING" "i < length (socks (nets s))"
  then show ?thesis by (auto simp: opn_socks ready_of_def nth_list_update split: if_splits)
next
  fix j
  assume a: "t = cls j s" "i < length (socks (nets s))"
  obtain k where "socks (nets (cls j s)) = (socks (nets s))[j := CLOSED] @ replicate k CONNECTING"
    using cls_socks by blast
  with a show ?thesis by (cases "i = j") (auto simp: ready_of_def nth_append)
next
  fix a
  assume a: "t = act a s" "i < length (socks (nets s))"
  obtain k where "socks (nets (act a s)) = socks (nets s) @ replicate k CONNECTING"
    using act_socks by blast
  with a show ?thesis by (simp add: ready_of_def nth_append)
qed

end

text \<open>A page that opens a new connection whenever one closes, and at no other time.\<close>

locale ws_reconnecting_page = ws_page nets client opn cls act s0
  for nets :: "'s \<Rightarrow> net"
    and client :: "'s \<Rightarrow> nat option"
    and opn :: "nat \<Rightarrow> 's \<Rightarrow> 's"
    and cls :: "nat \<Rightarrow> 's \<Rightarrow> 's"
    and act :: "'a \<Rightarrow> 's \<Rightarrow> 's"
    and s0 :: 's +
  assumes cls_new: "socks (nets (cls i s)) = (socks (nets s))[i := CLOSED] @ [CONNECTING]"
    and act_no_new: "socks (nets (act a s)) = socks (nets s)"
    and s0_socks: "socks (nets s0) = [CONNECTING]"
begin

definition one_live :: "'s \<Rightarrow> bool" where
  "one_live s \<longleftrightarrow> socks (nets s) \<noteq> [] \<and>
     (\<forall>i < length (socks (nets s)). socks (nets s) ! i \<noteq> CLOSED \<longleftrightarrow> Suc i = length (socks (nets s)))"

lemma reach_one_live: "page_reach s \<Longrightarrow> one_live s"
proof (induction rule: ws_reach.induct)
  case start
  then show ?case by (simp add: one_live_def s0_socks)
next
  case (step s t)
  from step.hyps(2) show ?case
  proof (cases rule: ws_step.cases)
    case (opened i)
    then have "i < length (socks (nets s)) \<and> socks (nets s) ! i \<noteq> CLOSED"
      by (auto simp: ready_of_def split: if_splits)
    with opened step.IH show ?thesis
      by (auto simp: one_live_def opn_socks nth_list_update)
  next
    case (closed i)
    then have "i < length (socks (nets s)) \<and> socks (nets s) ! i \<noteq> CLOSED"
      by (auto simp: ready_of_def split: if_splits)
    with closed step.IH show ?thesis
      by (auto simp: one_live_def cls_new nth_append nth_list_update less_Suc_eq) (metis nat.inject)
  next
    case (acted a)
    with step.IH show ?thesis by (simp add: one_live_def act_no_new)
  qed
qed

text \<open>The only connection that is open is the client.\<close>

lemma open_is_client:
  assumes "page_reach s"
  shows "ready_of (nets s) i = OPEN \<Longrightarrow> client s = Some i"
  using assms
proof (induction arbitrary: i rule: ws_reach.induct)
  case start
  then show ?case by (auto simp: s0_socks ready_of_def split: if_splits)
next
  case (step s t)
  have live: "one_live t"
    by (rule reach_one_live, rule ws_reach.step[OF step.hyps])
  from step.hyps(2) show ?case
  proof (cases rule: ws_step.cases)
    case (opened j)
    then have "j < length (socks (nets t)) \<and> socks (nets t) ! j \<noteq> CLOSED"
      by (auto simp: opn_socks ready_of_def split: if_splits)
    moreover have "i < length (socks (nets t)) \<and> socks (nets t) ! i \<noteq> CLOSED"
      using step.prems by (auto simp: ready_of_def split: if_splits)
    ultimately have "i = j" using live unfolding one_live_def by (metis nat.inject)
    with opened show ?thesis by (simp add: opn_client)
  next
    case (closed j)
    have "i < length (socks (nets t)) \<and> socks (nets t) ! i \<noteq> CLOSED"
      using step.prems by (auto simp: ready_of_def split: if_splits)
    then have "Suc i = length (socks (nets t))" using live unfolding one_live_def by blast
    then have "ready_of (nets t) i = CONNECTING"
      using closed by (simp add: cls_new ready_of_def nth_append)
    with step.prems show ?thesis by simp
  next
    case (acted a)
    then have "ready_of (nets s) i = OPEN"
      using step.prems act_no_new[of a s] by (simp add: ready_of_def split: if_splits)
    with acted step.IH show ?thesis by (simp add: act_client)
  qed
qed

lemma client_iff_open: "page_reach s \<Longrightarrow> client s = Some i \<longleftrightarrow> ready_of (nets s) i = OPEN"
  using client_open open_is_client by blast

text \<open>The client is the newest connection, and no other connection is alive.\<close>

lemma client_newest:
  assumes "page_reach s" and "client s = Some i"
  shows "Suc i = length (socks (nets s))"
proof -
  have "ready_of (nets s) i = OPEN" using assms by (rule client_open)
  then have "i < length (socks (nets s)) \<and> socks (nets s) ! i \<noteq> CLOSED"
    by (auto simp: ready_of_def split: if_splits)
  with reach_one_live[OF assms(1)] show ?thesis unfolding one_live_def by blast
qed

end

text \<open>
  Two pages whose handlers correspond under a map of their states: what one reaches is the image of
  what the other reaches.
\<close>

locale ws_morphism =
  fixes nets :: "'s \<Rightarrow> net" and opn cls :: "nat \<Rightarrow> 's \<Rightarrow> 's" and act :: "'a \<Rightarrow> 's \<Rightarrow> 's" and s0 :: 's
    and nets' :: "'t \<Rightarrow> net" and opn' cls' :: "nat \<Rightarrow> 't \<Rightarrow> 't" and act' :: "'a \<Rightarrow> 't \<Rightarrow> 't" and s0' :: 't
    and h :: "'s \<Rightarrow> 't"
  assumes h_start: "s0' = h s0"
    and h_opn: "opn' i (h s) = h (opn i s)"
    and h_cls: "cls' i (h s) = h (cls i s)"
    and h_act: "act' a (h s) = h (act a s)"
    and h_ready: "ready_of (nets' (h s)) i = ready_of (nets s) i"
begin

lemma step_image: "ws_step nets' opn' cls' act' (h s) t' \<longleftrightarrow> (\<exists>t. ws_step nets opn cls act s t \<and> t' = h t)"
  by (auto simp: h_opn h_cls h_act h_ready elim!: ws_step.cases intro: ws_step.intros)
    (metis h_act h_cls h_opn h_ready ws_step.simps)+

lemma image_reach: "ws_reach nets opn cls act s0 s \<Longrightarrow> ws_reach nets' opn' cls' act' s0' (h s)"
proof (induction rule: ws_reach.induct)
  case start
  show ?case by (simp add: h_start[symmetric] ws_reach.start)
next
  case (step s t)
  then show ?case by (meson step_image ws_reach.step)
qed

lemma reach_image:
  "ws_reach nets' opn' cls' act' s0' s' \<longleftrightarrow> (\<exists>s. ws_reach nets opn cls act s0 s \<and> s' = h s)"
proof
  assume "ws_reach nets' opn' cls' act' s0' s'"
  then show "\<exists>s. ws_reach nets opn cls act s0 s \<and> s' = h s"
  proof (induction rule: ws_reach.induct)
    case start
    show ?case by (intro exI[of _ s0]) (simp add: h_start ws_reach.start)
  next
    case (step s t)
    then show ?case using step_image ws_reach.step by metis
  qed
qed (use image_reach in blast)

end

end
