(* ===== verification/DebugConsole.thy ===== *)
theory DebugConsole
  imports React
begin

text \<open>
  The console of one server process, \<open>tools/web/src/src/pages/console/debug_console.tsx\<close>: its
  state, its handlers, its effect on a new response, and what it renders.  A handler returns the
  new state and what it calls: the list's reload action and the functions it got as properties.
\<close>

section \<open>State\<close>

text \<open>An element of \<open>showData\<close>: the time, the tag with its colour, and the text inside \<open><pre>\<close>.\<close>

record entry =
  title :: string
  tag :: string
  color :: string
  content :: jsval

record response =
  name :: jsval
  data :: jsval

text \<open>
  \<open>fieldValue\<close> is the value of the form's text area while the form is on the page; without the
  form, \<open>formRef.current\<close> is empty.
\<close>

record debug_console =
  inputValue :: jsval
  multiMode :: bool
  showData :: "entry list"
  fieldValue :: "jsval option"

definition debug_console0 :: debug_console where
  "debug_console0 = \<lparr>inputValue = Undef, multiMode = False, showData = [], fieldValue = None\<rparr>"

datatype console_call =
    Reload
  | CommandSend jsval jsval
  | Hotfix

type_synonym console_result = "debug_console \<times> console_call list"

section \<open>Handlers\<close>

text \<open>\<open>now\<close> is \<open>moment().format("YYYY-MM-DD HH:mm:ss")\<close>.\<close>

definition addNewContent :: "string \<Rightarrow> string \<Rightarrow> jsval \<Rightarrow> debug_console \<Rightarrow> console_result" where
  "addNewContent now action val s =
     (if strict_eq val Undef then (s, [])
      else if strict_eq val (Str '''') \<and> action = ''SEND'' then (s, [])
      else
        let colr = (if action = ''SEND'' then ''#5BD8A6'' else ''green'');
            info = [\<lparr>title = now, tag = action, color = colr, content = val\<rparr>]
        in (s\<lparr>showData := info @ showData s\<rparr>, [Reload]))"

text \<open>The form comes to the page with its initial value when the box is checked, and leaves it
  when it is unchecked.\<close>

definition onMultiModeChange :: "bool \<Rightarrow> debug_console \<Rightarrow> console_result" where
  "onMultiModeChange checked s =
     (s\<lparr>multiMode := checked,
        fieldValue := (if \<not> checked then None
                       else if multiMode s then fieldValue s else Some (Str ''''))\<rparr>, [])"

definition onInputContentChange :: "jsval \<Rightarrow> debug_console \<Rightarrow> console_result" where
  "onInputContentChange v s = (s\<lparr>inputValue := v\<rparr>, [])"

definition onSubmitMultiCommand :: "jsval \<Rightarrow> string \<Rightarrow> debug_console \<Rightarrow> console_result" where
  "onSubmitMultiCommand nm now s =
     (let val = or_undef (fieldValue s)
      in if strict_eq val Undef \<or> strict_eq val (Str '''') then (s, [])
         else
           let (s1, calls) = addNewContent now ''SEND'' val s;
               s2 = s1\<lparr>fieldValue := map_option (\<lambda>_. Str '''') (fieldValue s1)\<rparr>
           in (s2, calls @ [CommandSend nm val]))"

text \<open>\<open>val\<close> is \<open>e.target.value\<close>, which stays the same until the handler has returned.\<close>

definition onSubmitSingleCommand :: "jsval \<Rightarrow> string \<Rightarrow> jsval \<Rightarrow> debug_console \<Rightarrow> console_result" where
  "onSubmitSingleCommand nm now val s =
     (if strict_eq val Undef \<or> strict_eq val (Str '''') then (s, [])
      else
        let (s1, calls) = addNewContent now ''SEND'' val s;
            s2 = s1\<lparr>inputValue := Str ''''\<rparr>
        in (s2, calls @ [CommandSend nm val]))"

definition onClickClearListButton :: "debug_console \<Rightarrow> console_result" where
  "onClickClearListButton s = (s\<lparr>showData := []\<rparr>, [Reload])"

definition onClickHotfix :: "debug_console \<Rightarrow> console_result" where
  "onClickHotfix s = (s, [Hotfix])"

text \<open>The effect that runs when \<open>props.response\<close> is a new object, and after mounting.\<close>

definition responseEffect ::
  "jsval \<Rightarrow> string \<Rightarrow> response option \<Rightarrow> debug_console \<Rightarrow> console_result" where
  "responseEffect nm now resp s =
     (case resp of None \<Rightarrow> (s, [])
      | Some r \<Rightarrow>
          if loose_eq (name r) nm then addNewContent now ''RECV'' (data r) s else (s, []))"

text \<open>What the user can do in the console.\<close>

datatype console_event =
    CheckMulti bool
  | EditInput string
  | EditField string              \<comment> \<open>typing into the form's text area\<close>
  | SubmitMulti string            \<comment> \<open>the button, at a time\<close>
  | SubmitSingle string string    \<comment> \<open>Enter in the input, at a time, with the input's value\<close>
  | ClickClear
  | ClickHotfix

fun console_step :: "jsval \<Rightarrow> console_event \<Rightarrow> debug_console \<Rightarrow> console_result" where
  "console_step nm (CheckMulti b) s = onMultiModeChange b s"
| "console_step nm (EditInput t) s = onInputContentChange (Str t) s"
| "console_step nm (EditField t) s =
     (s\<lparr>fieldValue := map_option (\<lambda>_. Str t) (fieldValue s)\<rparr>, [])"
| "console_step nm (SubmitMulti now) s = onSubmitMultiCommand nm now s"
| "console_step nm (SubmitSingle now t) s = onSubmitSingleCommand nm now (Str t) s"
| "console_step nm ClickClear s = onClickClearListButton s"
| "console_step nm ClickHotfix s = onClickHotfix s"

section \<open>Rendering\<close>

definition entry_props :: "entry \<Rightarrow> jsval" where
  "entry_props e = Obj
     [(''title'', Str (title e)),
      (''subTitle'', Arr [Str ''Tag'', Str (color e), Str (tag e)]),
      (''content'', Arr [Str ''pre'', content e])]"

text \<open>\<open>slot\<close> is the part of a list entry that shows the content: the one difference between the front ends.\<close>

definition render_console_with :: "string \<Rightarrow> jsval \<Rightarrow> debug_console \<Rightarrow> vnode" where
  "render_console_with slot nm s =
     Elem ''Space'' [(''direction'', PS ''vertical''), (''style'', PV (Obj [(''width'', Str ''100%'')]))]
      [Elem ''Space'' [(''direction'', PS ''horizontal''), (''size'', PV (Num 20))]
        ([Elem ''Button'' [(''type'', PS ''primary''), (''onClick'', PFun ''onClickHotfix'')]
            [Text (utf8 [0x70ED, 0x66F4])],
          Elem ''Alert'' [(''message'', PS ((utf8 [0x5F53, 0x524D, 0x8FDB, 0x7A0B] @ '': '') @ js_string nm)), (''type'', PS ''success'')] [],
          Elem ''Checkbox'' [(''name'', PV nm), (''onChange'', PFun ''onMultiModeChange'')]
            [Text (utf8 [0x591A, 0x884C, 0x6A21, 0x5F0F])],
          Elem ''Button'' [(''type'', PS ''primary''), (''onClick'', PFun ''onClickClearListButton'')]
            [Text (utf8 [0x6E05, 0x7A7A, 0x5386, 0x53F2, 0x8BB0, 0x5F55])]]
         @ shown_if (multiMode s)
            (Elem ''Button'' [(''type'', PS ''primary''), (''onClick'', PFun ''onSubmitMultiCommand'')]
              [Text (utf8 [0x63D0, 0x4EA4])])),
       (if \<not> multiMode s then
          Elem ''Input''
            [(''allowClear'', PV (Bool True)),
             (''placeholder'', PS (utf8 [0x8F93, 0x5165, 0x547D, 0x4EE4, 0x540E, 0x56DE, 0x8F66, 0x63D0, 0x4EA4, 0x547D, 0x4EE4])),
             (''onPressEnter'', PFun ''onSubmitSingleCommand''),
             (''value'', PV (inputValue s)),
             (''onChange'', PFun ''onInputContentChange'')] []
        else
          Elem ''ProForm'' [(''formRef'', PFun ''formRef''), (''submitter'', PNodes [])]
            [Elem ''ProFormTextArea''
              [(''initialValue'', PS ''''), (''allowClear'', PV (Bool True)),
               (''fieldProps'', PV (Obj [(''rows'', Num 5)])),
               (''placeholder'', PS (utf8 [0x8F93, 0x5165, 0x547D, 0x4EE4, 0x540E, 0x70B9, 0x51FB, 0x63D0, 0x4EA4, 0x6309, 0x94AE, 0x63D0, 0x4EA4, 0x547D, 0x4EE4])),
               (''name'', PV nm)] []]),
       Elem ''div'' []
        [Elem ''div''
          [(''id'', PS ''historyScrollDiv''),
           (''style'', PV (Obj [(''height'', Num 600), (''overflow'', Str ''auto''),
                               (''padding'', Str ''0 0'')]))]
          [Elem ''InfiniteScroll''
            [(''next'', PFun ''''), (''hasMore'', PV (Bool False)),
             (''loader'', PNodes [Elem ''Skeleton''
                [(''avatar'', PV (Bool True)), (''paragraph'', PV (Obj [(''rows'', Num 1)])),
                 (''active'', PV (Bool True))] []]),
             (''dataLength'', PV (Num (int (length (showData s))))),
             (''scrollableTarget'', PS ''historyScrollDiv'')]
            [Elem ''ProList''
              [(''style'', PV (Obj [(''height'', Str ''auto'')])),
               (''dataSource'', PV (Arr (map entry_props (showData s)))),
               (''actionRef'', PFun ''listActionRef''),
               (''grid'', PV (Obj [(''gutter'', Num 16), (''column'', Num 1)])),
               (''metas'', PV (Obj
                 [(''title'', Obj [(''dataIndex'', Str ''title'')]),
                  (''subTitle'', Obj [(''dataIndex'', Str ''subTitle'')]),
                  (slot, Obj [(''dataIndex'', Str ''content'')])]))] []]]]]"

definition render_console :: "jsval \<Rightarrow> debug_console \<Rightarrow> vnode" where
  "render_console = render_console_with ''content''"

section \<open>Properties of the handlers\<close>

lemmas console_handlers = onMultiModeChange_def onInputContentChange_def onSubmitMultiCommand_def
  onSubmitSingleCommand_def onClickClearListButton_def onClickHotfix_def

lemma addNewContent_SEND:
  "val \<noteq> Undef \<Longrightarrow> val \<noteq> Str '''' \<Longrightarrow> addNewContent now ''SEND'' val s =
     (s\<lparr>showData := \<lparr>title = now, tag = ''SEND'', color = ''#5BD8A6'', content = val\<rparr> # showData s\<rparr>,
      [Reload])"
  by (simp add: addNewContent_def)

lemma addNewContent_RECV:
  "val \<noteq> Undef \<Longrightarrow> addNewContent now ''RECV'' val s =
     (s\<lparr>showData := \<lparr>title = now, tag = ''RECV'', color = ''green'', content = val\<rparr> # showData s\<rparr>,
      [Reload])"
  by (simp add: addNewContent_def)

lemma addNewContent_ignored: "addNewContent now act Undef s = (s, [])"
    "addNewContent now ''SEND'' (Str '''') s = (s, [])"
  by (simp_all add: addNewContent_def)

text \<open>The form is on the page exactly in multi line mode.\<close>

definition form_ok :: "debug_console \<Rightarrow> bool" where
  "form_ok s \<longleftrightarrow> (fieldValue s \<noteq> None \<longleftrightarrow> multiMode s)"

lemma form_ok0 [simp]: "form_ok debug_console0"
  by (simp add: form_ok_def debug_console0_def)

lemma addNewContent_fields:
  "addNewContent now act val s = (t, calls) \<Longrightarrow>
     fieldValue t = fieldValue s \<and> multiMode t = multiMode s \<and> inputValue t = inputValue s"
  by (auto simp: addNewContent_def Let_def split: if_splits)

lemma form_ok_step: "form_ok s \<Longrightarrow> form_ok (fst (console_step nm ev s))"
  by (cases ev)
    (auto simp: form_ok_def console_handlers addNewContent_SEND Let_def split: option.splits)

lemma form_ok_response: "form_ok s \<Longrightarrow> form_ok (fst (responseEffect nm now r s))"
  by (auto simp: form_ok_def responseEffect_def addNewContent_def Let_def split: option.splits)

text \<open>The history grows at its head, or is cleared.\<close>

lemma history_step:
  "\<exists>new. showData (fst (console_step nm ev s)) = new @ showData s \<or> ev = ClickClear \<and>
     showData (fst (console_step nm ev s)) = []"
  by (cases ev) (auto simp: console_handlers addNewContent_SEND Let_def)

text \<open>A command goes out with the entry that shows it, and only with it.\<close>

lemma send_with_entry:
  "console_step nm ev s = (t, calls) \<Longrightarrow> CommandSend tg val \<in> set calls \<Longrightarrow>
     tg = nm \<and> val \<noteq> Undef \<and> val \<noteq> Str '''' \<and>
     (\<exists>now. showData t =
        \<lparr>title = now, tag = ''SEND'', color = ''#5BD8A6'', content = val\<rparr> # showData s)"
  by (cases ev)
    (auto simp: console_handlers addNewContent_SEND Let_def split: if_splits)

lemma response_calls: "set (snd (responseEffect nm now r s)) \<subseteq> {Reload}"
  by (auto simp: responseEffect_def addNewContent_def Let_def split: option.splits if_splits)

lemma response_no_command [simp]: "CommandSend tg val \<notin> set (snd (responseEffect nm now r s))"
  using response_calls[of nm now r s] by auto

lemma console_step_target:
  "CommandSend tg val \<in> set (snd (console_step nm ev s)) \<Longrightarrow>
     tg = nm \<and> val \<noteq> Undef \<and> val \<noteq> Str ''''"
  using send_with_entry[of nm ev s] by (metis prod.collapse)

text \<open>What the form holds is text, so a command that is sent is a text that is not empty.\<close>

definition string_field :: "debug_console \<Rightarrow> bool" where
  "string_field s \<longleftrightarrow> (\<forall>v. fieldValue s = Some v \<longrightarrow> (\<exists>u. v = Str u))"

definition calls_ok :: "jsval \<Rightarrow> console_call list \<Rightarrow> bool" where
  "calls_ok nm calls \<longleftrightarrow>
     (\<forall>tg val. CommandSend tg val \<in> set calls \<longrightarrow> tg = nm \<and> (\<exists>u. val = Str u \<and> u \<noteq> ''''))"

lemma string_field0 [simp]: "string_field debug_console0"
  by (simp add: string_field_def debug_console0_def)

lemma string_field_step: "string_field s \<Longrightarrow> string_field (fst (console_step nm ev s))"
  by (cases ev)
    (auto simp: string_field_def console_handlers addNewContent_SEND Let_def split: if_splits)

lemma string_field_response: "string_field s \<Longrightarrow> string_field (fst (responseEffect nm now r s))"
  by (auto simp: string_field_def responseEffect_def addNewContent_def Let_def split: option.splits)

lemma calls_ok_step: "string_field s \<Longrightarrow> calls_ok nm (snd (console_step nm ev s))"
  by (cases ev; cases "fieldValue s")
    (auto simp: calls_ok_def string_field_def console_handlers addNewContent_SEND Let_def)

lemma calls_ok_response: "calls_ok nm (snd (responseEffect nm' now r s))"
  using response_calls[of nm' now r s] by (auto simp: calls_ok_def)

end
