(* ===== verification/Consoles.thy ===== *)
theory Consoles
  imports DebugConsole
begin

text \<open>
  The page of the debug consoles, \<open>tools/web/src/src/pages/console/consoles.tsx\<close>: one connection to
  the admin process, the list of server processes, and one \<open>DebugConsole\<close> per process.  The page is
  a \<open>ws_reconnecting_page\<close>.
\<close>

section \<open>State\<close>

text \<open>
  \<open>mounted\<close> are the consoles that are on the page, by their React key: antd puts the content of a
  tab on the page when the tab is first shown.  \<open>confirms\<close> are the open confirmation dialogs of the
  hotfix button, each with the client that its callback captured.
\<close>

record consoles =
  console_net :: net
  console_client :: "nat option"
  serverPanes :: "jsval list"
  consoleResponse :: "response option"
  mounted :: "(string \<times> debug_console) list"
  confirms :: "nat option list"

definition telnet_url :: string where
  "telnet_url = ''ws://localhost:9000/telnet''"

section \<open>Handlers\<close>

definition startWebSocket :: "consoles \<Rightarrow> consoles" where
  "startWebSocket s = s\<lparr>console_net := connect telnet_url (console_net s)\<rparr>"

definition consoles0 :: consoles where
  "consoles0 = startWebSocket
     \<lparr>console_net = net0, console_client = None, serverPanes = [], consoleResponse = None,
      mounted = [], confirms = []\<rparr>"

text \<open>The effect that runs when the client has changed.\<close>

definition clientEffect :: "consoles \<Rightarrow> consoles" where
  "clientEffect s =
     (case console_client s of None \<Rightarrow> s
      | Some c \<Rightarrow> s\<lparr>console_net := or_keep (console_net s)
          (send c (stringify (Obj [(''type'', Str ''servers'')])) (console_net s))\<rparr>)"

definition onopen :: "nat \<Rightarrow> consoles \<Rightarrow> consoles" where
  "onopen c s = clientEffect (s\<lparr>console_net := mark c OPEN (console_net s), console_client := Some c\<rparr>)"

definition onclose :: "nat \<Rightarrow> consoles \<Rightarrow> consoles" where
  "onclose c s = startWebSocket
     (s\<lparr>console_net := mark c CLOSED (console_net s), console_client := None\<rparr>)"

definition onConsoleCommand :: "jsval \<Rightarrow> jsval \<Rightarrow> consoles \<Rightarrow> consoles" where
  "onConsoleCommand target dat s =
     (case console_client s of
        None \<Rightarrow> s\<lparr>console_net := emit (Toast ''warn'' (Str (utf8 [0x8FDE, 0x63A5, 0x5DF2, 0x65AD, 0x5F00, 0xFF0C, 0x8BF7, 0x5237, 0x65B0, 0x9875, 0x9762, 0x91CD, 0x8BD5]))) (console_net s)\<rparr>
      | Some c \<Rightarrow>
          let msg = Obj [(''type'', Str ''message''), (''target'', target), (''data'', dat)]
          in s\<lparr>console_net := or_keep (console_net s) (send c (stringify msg) (console_net s))\<rparr>)"

definition onHotfix :: "consoles \<Rightarrow> consoles" where
  "onHotfix s = s\<lparr>console_net := emit (ConfirmBox [(''title'', Str (utf8 [0x70ED, 0x66F4, 0x786E, 0x8BA4]))]) (console_net s),
     confirms := confirms s @ [console_client s]\<rparr>"

text \<open>\<open>onOk\<close> of a dialog: the client is the one of the render in which the dialog was opened.\<close>

definition onOk :: "nat option \<Rightarrow> consoles \<Rightarrow> consoles" where
  "onOk captured s =
     (case captured of None \<Rightarrow> s
      | Some c \<Rightarrow> s\<lparr>console_net := or_keep (console_net s)
          (send c (stringify (Obj [(''type'', Str ''reload'')])) (console_net s))\<rparr>)"

fun console_calls :: "console_call list \<Rightarrow> consoles \<Rightarrow> consoles" where
  "console_calls [] s = s"
| "console_calls (Reload # cs) s =
     console_calls cs (s\<lparr>console_net := emit ReloadList (console_net s)\<rparr>)"
| "console_calls (CommandSend t d # cs) s = console_calls cs (onConsoleCommand t d s)"
| "console_calls (Hotfix # cs) s = console_calls cs (onHotfix s)"

text \<open>The name that a console gets as its property.\<close>

definition pane_name :: "string \<Rightarrow> consoles \<Rightarrow> jsval" where
  "pane_name k s = or_undef (find (\<lambda>n. js_string n = k) (serverPanes s))"

definition pane_keys :: "consoles \<Rightarrow> string list" where
  "pane_keys s = map js_string (serverPanes s)"

text \<open>\<open>setServerPanes\<close>: the consoles whose key is gone leave the page.\<close>

definition setServerPanes :: "jsval list \<Rightarrow> consoles \<Rightarrow> consoles" where
  "setServerPanes panes s = s\<lparr>serverPanes := panes,
     mounted := filter (\<lambda>p. fst p \<in> set (map js_string panes)) (mounted s)\<rparr>"

text \<open>\<open>setConsoleResponse\<close> with a new object: every console on the page runs its effect.\<close>

definition setConsoleResponse :: "string \<Rightarrow> response \<Rightarrow> consoles \<Rightarrow> consoles" where
  "setConsoleResponse now r s =
     (let results = map (\<lambda>(k, d). (k, responseEffect (pane_name k s) now (Some r) d)) (mounted s)
      in console_calls (concat (map (\<lambda>(k, d, calls). calls) results))
           (s\<lparr>consoleResponse := Some r, mounted := map (\<lambda>(k, d, calls). (k, d)) results\<rparr>))"

definition onWebSocketMessage :: "string \<Rightarrow> string \<Rightarrow> consoles \<Rightarrow> consoles thrown" where
  "onWebSocketMessage now text s =
     and_then (JSON_parse text) (\<lambda>msg.
     and_then (js_get msg ''type'') (\<lambda>ty.
     and_then (js_get msg ''data'') (\<lambda>dat.
     and_then (js_get msg ''target'') (\<lambda>target.
       if loose_eq ty (Str ''servers'') then
         and_then (js_get dat ''length'') (\<lambda>n.
         and_then (collect (js_nth dat) [0..<loop_count n]) (\<lambda>panes.
           Inr (setServerPanes panes s)))
       else if loose_eq ty (Str ''message'') then
         Inr (setConsoleResponse now \<lparr>name = target, data = dat\<rparr> s)
       else if loose_eq ty (Str ''error'') then
         Inr (s\<lparr>console_net := emit (Toast ''error'' dat) (console_net s)\<rparr>)
       else if loose_eq ty (Str ''reload'') then
         Inr (setConsoleResponse now \<lparr>name = target, data = dat\<rparr> s)
       else Inr s))))"

section \<open>Events\<close>

text \<open>\<open>ShowTab\<close> is the user's first visit of a tab; the new console runs its effect once.\<close>

definition showTab :: "string \<Rightarrow> string \<Rightarrow> consoles \<Rightarrow> consoles" where
  "showTab now k s =
     (if k \<in> set (pane_keys s) \<and> k \<notin> fst ` set (mounted s) then
        let (d, calls) = responseEffect (pane_name k s) now (consoleResponse s) debug_console0
        in console_calls calls (s\<lparr>mounted := mounted s @ [(k, d)]\<rparr>)
      else s)"

definition inPane :: "string \<Rightarrow> console_event \<Rightarrow> consoles \<Rightarrow> consoles" where
  "inPane k ev s =
     (case map_of (mounted s) k of None \<Rightarrow> s
      | Some d \<Rightarrow>
          let (d', calls) = console_step (pane_name k s) ev d
          in console_calls calls (s\<lparr>mounted := AList.update k d' (mounted s)\<rparr>))"

datatype page_event =
    Receive string string     \<comment> \<open>a text from the server, at a time\<close>
  | ShowTab string string
  | InPane string console_event
  | ConfirmHotfix nat

fun consoles_act :: "page_event \<Rightarrow> consoles \<Rightarrow> consoles" where
  "consoles_act (Receive now text) s = or_keep s (onWebSocketMessage now text s)"
| "consoles_act (ShowTab now k) s = showTab now k s"
| "consoles_act (InPane k ev) s = inPane k ev s"
| "consoles_act (ConfirmHotfix i) s =
     (if i < length (confirms s) then onOk (confirms s ! i) s else s)"

section \<open>Rendering\<close>

definition render_consoles :: "consoles \<Rightarrow> vnode" where
  "render_consoles s =
     Elem ''Tabs''
      [(''type'', PS ''card''), (''tabPosition'', PS ''left''), (''tabBarGutter'', PV (Num 10)),
       (''tabBarStyle'', PV (Obj [(''width'', Str ''15%'')]))]
      (if length (serverPanes s) > 0 then
         map (\<lambda>pane. Elem ''TabPane'' [(''tab'', PV pane), (''key'', PS (js_string pane))]
           [Elem ''DebugConsole''
             [(''name'', PV pane), (''response'', PFun ''consoleResponse''),
              (''onCommandSend'', PFun ''onConsoleCommand''), (''onHotfix'', PFun ''onHotfix'')] []])
          (serverPanes s)
       else
         [Elem ''TabPane'' [(''tab'', PS (utf8 [0x65E0])), (''key'', PS ''empty'')]
           [Elem ''Result''
             [(''status'', PS ''404''), (''title'', PS ''404''),
              (''subTitle'', PS (utf8 [0x672A, 0x83B7, 0x53D6, 0x5230, 0x670D, 0x52A1, 0x5668, 0x5217, 0x8868]))] []]])"

section \<open>The connection\<close>

lemma console_calls_frame [simp]:
  "console_client (console_calls cs s) = console_client s"
  "serverPanes (console_calls cs s) = serverPanes s"
  "consoleResponse (console_calls cs s) = consoleResponse s"
  "mounted (console_calls cs s) = mounted s"
  "socks (console_net (console_calls cs s)) = socks (console_net s)"
  by (induction cs s rule: console_calls.induct)
    (auto simp: onConsoleCommand_def onHotfix_def Let_def split: option.splits)

lemma setConsoleResponse_frame [simp]:
  "console_client (setConsoleResponse now r s) = console_client s"
  "serverPanes (setConsoleResponse now r s) = serverPanes s"
  "socks (console_net (setConsoleResponse now r s)) = socks (console_net s)"
  by (simp_all add: setConsoleResponse_def Let_def)

lemma onWebSocketMessage_frame:
  assumes "onWebSocketMessage now text s = Inr t"
  shows "console_client t = console_client s \<and> socks (console_net t) = socks (console_net s)"
  using assms
  by (auto simp: onWebSocketMessage_def and_then_Inr setServerPanes_def split: if_splits)

lemma consoles_act_frame:
  "console_client (consoles_act a s) = console_client s \<and>
   socks (console_net (consoles_act a s)) = socks (console_net s)"
proof (cases a)
  case (Receive now t)
  then show ?thesis
    using onWebSocketMessage_frame[of now t s]
    by (cases "onWebSocketMessage now t s") auto
qed (auto simp: showTab_def inPane_def onOk_def split: option.splits prod.splits)

interpretation console_page: ws_reconnecting_page console_net console_client onopen onclose
    consoles_act consoles0
proof unfold_locales
  fix a s
  show "\<exists>k. socks (console_net (consoles_act a s)) = socks (console_net s) @ replicate k CONNECTING"
    using consoles_act_frame[of a s] by (intro exI[of _ 0]) simp
  fix i
  show "\<exists>k. socks (console_net (onclose i s)) =
      (socks (console_net s))[i := CLOSED] @ replicate k CONNECTING"
    by (intro exI[of _ 1]) (simp add: onclose_def startWebSocket_def)
qed (auto simp: onopen_def onclose_def startWebSocket_def clientEffect_def consoles0_def
      consoles_act_frame)

section \<open>The frames the page sends\<close>

text \<open>
  What the admin process relies on in a request: a JSON object with one of the three types, and with
  a string that is not empty as the data of a console command.
\<close>

definition console_request :: "string \<Rightarrow> bool" where
  "console_request t =
     (case JSON_parse t of Inl _ \<Rightarrow> False
      | Inr v \<Rightarrow>
          (case (js_get v ''type'', js_get v ''data'') of
             (Inr (Str ty), Inr dat) \<Rightarrow>
               ty = ''servers'' \<or> ty = ''reload''
               \<or> ty = ''message'' \<and> (case dat of Str d \<Rightarrow> d \<noteq> '''' | _ \<Rightarrow> False)
           | _ \<Rightarrow> False))"

lemma names [simp]: "array_index ''type'' = None" "array_index ''target'' = None"
    "array_index ''data'' = None" "array_index ''command'' = None"
  by (simp_all add: array_index_name is_digit_def)

lemma request_plain:
  "ty \<in> {''servers'', ''reload''} \<Longrightarrow> console_request (stringify (Obj [(''type'', Str ty)]))"
  using JSON_parse_stringify[of "Obj [(''type'', Str ty)]"]
  by (auto simp: console_request_def prop_get_Cons prop_ordered_names)

lemma request_message:
  assumes "js_wf target" and "d \<noteq> ''''"
  shows "console_request
    (stringify (Obj [(''type'', Str ''message''), (''target'', target), (''data'', Str d)]))"
proof -
  let ?m = "Obj [(''type'', Str ''message''), (''target'', target), (''data'', Str d)]"
  have "js_wf ?m" using assms by (simp add: prop_ordered_names)
  then have "JSON_parse (stringify ?m) = Inr (clean ?m)" by (rule JSON_parse_stringify)
  with assms(2) show ?thesis
    by (auto simp: console_request_def prop_get_Cons)
qed

definition console_inv :: "consoles \<Rightarrow> bool" where
  "console_inv s \<longleftrightarrow>
     (\<forall>n \<in> set (serverPanes s). js_wf n)
     \<and> (\<forall>p \<in> set (mounted s). string_field (snd p))
     \<and> (\<forall>p \<in> set (frames (console_net s)). console_request (snd p))"

lemma js_wf_pane_name: "\<forall>n \<in> set (serverPanes s). js_wf n \<Longrightarrow> js_wf (pane_name k s)"
  by (auto simp: pane_name_def or_undef_def split: option.splits dest: find_in_set)

lemma frames_or_keep_send:
  "set (frames (or_keep n (send c t n))) \<subseteq> insert (c, t) (set (frames n))"
  by (auto simp: send_def split: ready.splits)

lemma console_calls_inv:
  assumes "console_inv s" and "\<And>t d. CommandSend t d \<in> set cs \<Longrightarrow> js_wf t \<and> (\<exists>u. d = Str u \<and> u \<noteq> '''')"
  shows "console_inv (console_calls cs s)"
  using assms
proof (induction cs s rule: console_calls.induct)
  case (3 t d cs s)
  obtain u where u: "js_wf t" "d = Str u" "u \<noteq> ''''" using "3.prems"(2) by fastforce
  have "console_inv (onConsoleCommand t d s)"
    using "3.prems"(1) request_message[OF u(1,3)] u(2)
      frames_or_keep_send[of "console_net s"]
    by (fastforce simp: onConsoleCommand_def console_inv_def Let_def split: option.splits)
  then have "console_inv (console_calls cs (onConsoleCommand t d s))"
    by (rule "3.IH") (use "3.prems"(2) in \<open>meson list.set_intros(2)\<close>)
  then show ?case by simp
qed (simp_all add: console_inv_def onHotfix_def)

lemma setConsoleResponse_inv:
  assumes "console_inv s"
  shows "console_inv (setConsoleResponse now r s)"
proof -
  have "console_inv (s\<lparr>consoleResponse := Some r,
      mounted := map (\<lambda>(k, d). (k, fst (responseEffect (pane_name k s) now (Some r) d))) (mounted s)\<rparr>)"
    using assms by (auto simp: console_inv_def string_field_response)
  then show ?thesis
    unfolding setConsoleResponse_def Let_def map_map
    by (simp add: comp_def case_prod_beta') (rule console_calls_inv, auto)
qed

lemma onWebSocketMessage_inv:
  assumes "console_inv s" and "onWebSocketMessage now t s = Inr s'"
  shows "console_inv s'"
proof -
  obtain msg ty dat target where m: "JSON_parse t = Inr msg" "js_get msg ''type'' = Inr ty"
    "js_get msg ''data'' = Inr dat" "js_get msg ''target'' = Inr target"
    using assms(2) by (auto simp: onWebSocketMessage_def and_then_Inr)
  have wf: "js_wf dat" using m JSON_parse_wf js_wf_get by blast
  have panes: "\<forall>p \<in> set panes. js_wf p" if "collect (js_nth dat) is = Inr panes" for "is" panes
    using that wf
    by (induction "is" arbitrary: panes) (auto simp: and_then_Inr js_nth_def dest: js_wf_get)
  have "console_inv (setServerPanes panes s)" if "\<forall>p \<in> set panes. js_wf p" for panes
    using assms(1) that by (auto simp: console_inv_def setServerPanes_def)
  moreover have "console_inv (s\<lparr>console_net := emit (Toast l v) (console_net s)\<rparr>)" for l v
    using assms(1) by (simp add: console_inv_def)
  ultimately show ?thesis
    using assms(2) m panes setConsoleResponse_inv[OF assms(1)] assms(1)
    by (auto simp: onWebSocketMessage_def and_then_Inr split: if_splits)
qed

lemma consoles_act_inv:
  assumes "console_inv s"
  shows "console_inv (consoles_act a s)"
proof (cases a)
  case (Receive now t)
  with assms onWebSocketMessage_inv[OF assms] show ?thesis
    by (cases "onWebSocketMessage now t s") auto
next
  case (ShowTab now k)
  have "console_inv (s\<lparr>mounted := mounted s @ [(k, fst (responseEffect (pane_name k s) now
      (consoleResponse s) debug_console0))]\<rparr>)"
    using assms by (auto simp: console_inv_def string_field_response)
  with assms ShowTab show ?thesis
    by (auto simp: showTab_def case_prod_beta' Let_def intro!: console_calls_inv)
next
  case (InPane k ev)
  show ?thesis
  proof (cases "map_of (mounted s) k")
    case (Some d)
    then have d: "string_field d"
      using assms by (auto simp: console_inv_def dest!: map_of_SomeD)
    have "console_inv (s\<lparr>mounted := AList.update k (fst (console_step (pane_name k s) ev d)) (mounted s)\<rparr>)"
      using assms string_field_step[OF d] set_AList_update[of k _ "mounted s"]
      by (fastforce simp: console_inv_def)
    moreover have "calls_ok (pane_name k s) (snd (console_step (pane_name k s) ev d))"
      using d by (rule calls_ok_step)
    moreover have "js_wf (pane_name k s)"
      using assms by (simp add: console_inv_def js_wf_pane_name)
    ultimately show ?thesis
      using Some InPane
      by (auto simp: inPane_def case_prod_beta' Let_def calls_ok_def intro!: console_calls_inv)
  qed (use assms InPane in \<open>simp add: inPane_def\<close>)
next
  case (ConfirmHotfix i)
  then show ?thesis
    using assms frames_or_keep_send[of "console_net s"] request_plain[of "''reload''"]
    by (fastforce simp: onOk_def console_inv_def split: option.splits)
qed

lemma console_inv_reach:
  "ws_reach console_net onopen onclose consoles_act consoles0 s \<Longrightarrow> console_inv s"
proof (induction rule: ws_reach.induct)
  case start
  show ?case by (simp add: consoles0_def startWebSocket_def console_inv_def)
next
  case (step s t)
  from step.hyps(2) show ?case
  proof (cases rule: ws_step.cases)
    case (opened i)
    then show ?thesis
      using step.IH request_plain[of "''servers''"]
        frames_or_keep_send[of "mark i OPEN (console_net s)"]
      by (fastforce simp: onopen_def clientEffect_def console_inv_def)
  next
    case (closed i)
    then show ?thesis
      using step.IH by (simp add: onclose_def startWebSocket_def console_inv_def)
  next
    case (acted a)
    with step.IH show ?thesis by (simp add: consoles_act_inv)
  qed
qed

section \<open>Properties of the page\<close>

text \<open>
  C1.  In every reachable state of the debug page exactly one connection is alive (connecting or
  open), it is the newest one, and the page's client is set exactly while that connection is open,
  to that connection.
\<close>

theorem consoles_connection:
  assumes "ws_reach console_net onopen onclose consoles_act consoles0 s"
  shows "(\<forall>i < length (socks (console_net s)).
            socks (console_net s) ! i \<noteq> CLOSED \<longleftrightarrow> Suc i = length (socks (console_net s)))
         \<and> (\<forall>i. console_client s = Some i \<longleftrightarrow> ready_of (console_net s) i = OPEN)"
  using console_page.reach_one_live[OF assms] console_page.client_iff_open[OF assms]
  by (simp add: console_page.one_live_def)

text \<open>A run of the page: it connects, loses the connection, and connects again.\<close>

definition console_run :: consoles where
  "console_run = onopen 1 (onclose 0 (onopen 0 consoles0))"

lemma console_run_reach: "ws_reach console_net onopen onclose consoles_act consoles0 console_run"
proof -
  note d = onopen_def onclose_def startWebSocket_def clientEffect_def consoles0_def ready_of_def
  have "ws_reach console_net onopen onclose consoles_act consoles0 (onopen 0 consoles0)"
    by (rule ws_reach.step[OF ws_reach.start], rule ws_step.opened) (simp add: d)
  then have "ws_reach console_net onopen onclose consoles_act consoles0 (onclose 0 (onopen 0 consoles0))"
    by (rule ws_reach.step, intro ws_step.closed) (simp add: d)
  then show ?thesis
    unfolding console_run_def by (rule ws_reach.step, intro ws_step.opened) (simp add: d)
qed

lemma console_run_socks: "socks (console_net console_run) = [CLOSED, OPEN]"
    "console_client console_run = Some 1"
  by (simp_all add: console_run_def onopen_def onclose_def startWebSocket_def clientEffect_def
      consoles0_def)

theorem consoles_connection_witness:
  "ready_of (console_net console_run) 1 = OPEN \<and> console_client console_run = Some 1"
  using consoles_connection[OF console_run_reach] console_run_socks by blast

text \<open>
  Every text that the debug page ever sends is a request the admin process understands: a JSON
  object of type servers, reload or message, and a console command carries a string that is not
  empty (the admin process converts the data of a console command to a string without a check).
\<close>

theorem consoles_frames:
  assumes "ws_reach console_net onopen onclose consoles_act consoles0 s"
    and "(c, t) \<in> set (frames (console_net s))"
  shows "console_request t"
  using console_inv_reach[OF assms(1)] assms(2) by (auto simp: console_inv_def)

theorem consoles_frames_witness:
  "console_request (stringify (Obj [(''type'', Str ''servers'')]))"
proof -
  have "(1, stringify (Obj [(''type'', Str ''servers'')])) \<in> set (frames (console_net console_run))"
    by (simp add: console_run_def onopen_def onclose_def startWebSocket_def clientEffect_def
        consoles0_def send_def ready_of_def)
  then show ?thesis by (rule consoles_frames[OF console_run_reach])
qed

section \<open>Messages from the server\<close>

lemma shown_tabs:
  "map (attr_of ''key'') (with_tag ''TabPane'' (render_consoles s)) =
     (if serverPanes s = [] then [Some (PS ''empty'')]
      else map (\<lambda>n. Some (PS (js_string n))) (serverPanes s))"
  unfolding with_tag_def render_consoles_def
  by (auto simp: filter_concat comp_def)

lemma receive_servers:
  assumes "JSON_parse t = Inr (Obj ps)" and "prop_get ps ''type'' = Some (Str ''servers'')"
    and "prop_get ps ''data'' = Some (Arr xs)" and "length xs < 2 ^ 32"
  shows "onWebSocketMessage now t s = Inr (setServerPanes xs s)"
  using assms by (simp add: onWebSocketMessage_def collect_Arr)

text \<open>
  When the admin process answers the request for the server list with a list of names, the page
  shows one tab per name, in the order of the answer (and the placeholder for an empty list); the
  consoles of servers that are still listed keep their state, the others are dropped.
\<close>

theorem consoles_servers:
  assumes "JSON_parse t = Inr (Obj ps)" and "prop_get ps ''type'' = Some (Str ''servers'')"
    and "prop_get ps ''data'' = Some (Arr xs)" and "length xs < 2 ^ 32"
  shows "let s' = consoles_act (Receive now t) s in
    serverPanes s' = xs
    \<and> map (attr_of ''key'') (with_tag ''TabPane'' (render_consoles s')) =
        (if xs = [] then [Some (PS ''empty'')] else map (\<lambda>n. Some (PS (js_string n))) xs)
    \<and> mounted s' = filter (\<lambda>p. fst p \<in> js_string ` set xs) (mounted s)
    \<and> frames (console_net s') = frames (console_net s)"
  by (simp add: receive_servers[OF assms] shown_tabs setServerPanes_def)

text \<open>The answer of the example: two servers.\<close>

definition servers_message :: string where
  "servers_message = stringify (Obj [(''type'', Str ''servers''),
     (''data'', Arr [Str ''game.1.1'', Str ''game.1.2''])])"

lemma servers_message_parse: "JSON_parse servers_message =
    Inr (Obj [(''type'', Str ''servers''), (''data'', Arr [Str ''game.1.1'', Str ''game.1.2''])])"
  using JSON_parse_stringify[of "Obj [(''type'', Str ''servers''),
     (''data'', Arr [Str ''game.1.1'', Str ''game.1.2''])]"]
  by (simp add: servers_message_def prop_ordered_names)

theorem consoles_servers_witness:
  "serverPanes (consoles_act (Receive '''' servers_message) console_run)
     = [Str ''game.1.1'', Str ''game.1.2'']"
  using consoles_servers[OF servers_message_parse, of "[Str ''game.1.1'', Str ''game.1.2'']" "''''"
      console_run]
  by (simp add: prop_get_Cons Let_def)

lemma response_effect_data:
  "dat \<noteq> Undef \<Longrightarrow> responseEffect nm now (Some \<lparr>name = n, data = dat\<rparr>) d =
     (if loose_eq n nm
      then (d\<lparr>showData := \<lparr>title = now, tag = ''RECV'', color = ''green'', content = dat\<rparr> # showData d\<rparr>,
            [Reload])
      else (d, []))"
  by (simp add: responseEffect_def addNewContent_RECV)

lemma receive_response:
  assumes "JSON_parse t = Inr (Obj ps)" and "prop_get ps ''type'' = Some (Str ty)"
    and "ty = ''message'' \<or> ty = ''reload''"
  shows "onWebSocketMessage now t s = Inr (setConsoleResponse now
    \<lparr>name = or_undef (prop_get ps ''target''), data = or_undef (prop_get ps ''data'')\<rparr> s)"
  using assms by (auto simp: onWebSocketMessage_def)


definition two_consoles :: consoles where
  "two_consoles = consoles_act (ShowTab '''' ''game.1.2'') (consoles_act (ShowTab '''' ''game.1.1'')
     (consoles_act (Receive '''' servers_message) console_run))"

definition reply :: string where
  "reply = stringify (Obj [(''type'', Str ''message''), (''target'', Str ''game.1.2''),
     (''data'', Str ''42'')])"

lemma reply_parse: "JSON_parse reply = Inr (Obj [(''type'', Str ''message''),
    (''target'', Str ''game.1.2''), (''data'', Str ''42'')])"
  using JSON_parse_stringify[of "Obj [(''type'', Str ''message''), (''target'', Str ''game.1.2''),
     (''data'', Str ''42'')]"]
  by (simp add: reply_def prop_ordered_names)

lemma two_consoles_state:
  "serverPanes two_consoles = [Str ''game.1.1'', Str ''game.1.2'']"
  "mounted two_consoles = [(''game.1.1'', debug_console0), (''game.1.2'', debug_console0)]"
  "console_client two_consoles = Some 1" "ready_of (console_net two_consoles) 1 = OPEN"
proof -
  note d = two_consoles_def receive_servers[OF servers_message_parse,
      of "[Str ''game.1.1'', Str ''game.1.2'']"] showTab_def pane_keys_def setServerPanes_def
  have run: "mounted console_run = []" "consoleResponse console_run = None"
    by (simp_all add: console_run_def onopen_def onclose_def startWebSocket_def clientEffect_def
        consoles0_def)
  show "serverPanes two_consoles = [Str ''game.1.1'', Str ''game.1.2'']"
    "mounted two_consoles = [(''game.1.1'', debug_console0), (''game.1.2'', debug_console0)]"
    "console_client two_consoles = Some 1" "ready_of (console_net two_consoles) 1 = OPEN"
    using run console_run_socks
    by (simp_all add: d prop_get_Cons responseEffect_def ready_of_def)
qed


section \<open>Commands\<close>

definition sent_entry :: "string \<Rightarrow> string \<Rightarrow> entry" where
  "sent_entry now cmd = \<lparr>title = now, tag = ''SEND'', color = ''#5BD8A6'', content = Str cmd\<rparr>"

lemma inPane_submit:
  assumes "map_of (mounted s) k = Some d" and "cmd \<noteq> ''''"
  shows "inPane k (SubmitSingle now cmd) s =
    onConsoleCommand (pane_name k s) (Str cmd)
      (s\<lparr>mounted := AList.update k
           (d\<lparr>showData := sent_entry now cmd # showData d, inputValue := Str ''''\<rparr>) (mounted s),
         console_net := emit ReloadList (console_net s)\<rparr>)"
  using assms
  by (simp add: inPane_def onSubmitSingleCommand_def addNewContent_SEND sent_entry_def)

text \<open>
  C3.  Submitting a command on the open connection puts it at the head of the console's history,
  empties the input, and sends exactly one frame, from which the admin process reads back the name
  of the console's server and the command, whatever characters the command contains.
\<close>

theorem consoles_command:
  assumes "map_of (mounted s) k = Some d" and "cmd \<noteq> ''''" and "pane_name k s = Str srv"
    and "console_client s = Some c" and "ready_of (console_net s) c = OPEN"
  shows "let s' = consoles_act (InPane k (SubmitSingle now cmd)) s in
    map_of (mounted s') k =
        Some (d\<lparr>showData := sent_entry now cmd # showData d, inputValue := Str ''''\<rparr>)
    \<and> (\<exists>text. frames (console_net s') = frames (console_net s) @ [(c, text)]
        \<and> JSON_parse text = Inr (Obj [(''type'', Str ''message''), (''target'', Str srv),
             (''data'', Str cmd)]))"
proof -
  have "JSON_parse (stringify (Obj [(''type'', Str ''message''), (''target'', Str srv),
       (''data'', Str cmd)]))
     = Inr (Obj [(''type'', Str ''message''), (''target'', Str srv), (''data'', Str cmd)])"
    by (subst JSON_parse_stringify) (simp_all add: prop_ordered_names)
  with assms show ?thesis
    by (simp add: inPane_submit onConsoleCommand_def send_open update_conv Let_def)
qed

theorem consoles_command_witness:
  "map_of (mounted (consoles_act (InPane ''game.1.1'' (SubmitSingle ''t'' ''print(1)'')) two_consoles))
     ''game.1.1'' = Some (debug_console0\<lparr>showData := [sent_entry ''t'' ''print(1)''],
       inputValue := Str ''''\<rparr>)"
  using consoles_command[of two_consoles "''game.1.1''" debug_console0 "''print(1)''" "''game.1.1''"
      1 "''t''"]
  by (simp add: two_consoles_state pane_name_def debug_console0_def Let_def del: One_nat_def)

text \<open>
  C39.  Without a connection the same command is not sent and the user is warned, but the command is
  already in the history and gone from the input.
\<close>

theorem consoles_command_disconnected:
  assumes "map_of (mounted s) k = Some d" and "cmd \<noteq> ''''" and "console_client s = None"
  shows "let s' = consoles_act (InPane k (SubmitSingle now cmd)) s in
    map_of (mounted s') k =
        Some (d\<lparr>showData := sent_entry now cmd # showData d, inputValue := Str ''''\<rparr>)
    \<and> frames (console_net s') = frames (console_net s)
    \<and> (\<exists>w. log (console_net s') = log (console_net s) @ [ReloadList, Toast ''warn'' w])"
  using assms
  by (simp add: inPane_submit onConsoleCommand_def update_conv Let_def)

theorem consoles_command_disconnected_witness:
  "frames (console_net (consoles_act (InPane ''game.1.1'' (SubmitSingle ''t'' ''print(1)''))
     (two_consoles\<lparr>console_client := None\<rparr>))) = frames (console_net two_consoles)"
  using consoles_command_disconnected[of "two_consoles\<lparr>console_client := None\<rparr>" "''game.1.1''"
      debug_console0 "''print(1)''" "''t''"]
  by (simp add: two_consoles_state Let_def)

section \<open>The hotfix dialog\<close>

text \<open>What a dialog captured was the open client, and connections never go back.\<close>

lemma captured_not_connecting:
  "ws_reach console_net onopen onclose consoles_act consoles0 s \<Longrightarrow>
     Some c \<in> set (confirms s) \<Longrightarrow> c < length (socks (console_net s)) \<and>
       ready_of (console_net s) c \<noteq> CONNECTING"
proof (induction rule: ws_reach.induct)
  case start
  then show ?case by (simp add: consoles0_def startWebSocket_def)
next
  case (step s t)
  have calls: "Some c \<in> set (confirms (console_calls cs u)) \<Longrightarrow>
      Some c \<in> set (confirms u) \<or> console_client u = Some c" for cs u
    by (induction cs u rule: console_calls.induct)
      (auto simp: onConsoleCommand_def onHotfix_def Let_def split: option.splits)
  have fresh: "Some c \<in> set (confirms s) \<or> console_client s = Some c"
    using step.hyps(2) step.prems
  proof (cases rule: ws_step.cases)
    case (acted a)
    show ?thesis
    proof (cases a)
      case (Receive now m)
      with acted step.prems show ?thesis
        by (cases "onWebSocketMessage now m s")
          (auto simp: onWebSocketMessage_def and_then_Inr setServerPanes_def setConsoleResponse_def
            Let_def split: if_splits dest!: calls)
    qed (use acted step.prems in \<open>auto simp: showTab_def inPane_def onOk_def case_prod_beta'
        Let_def split: option.splits if_splits dest!: calls\<close>)
  qed (auto simp: onopen_def onclose_def clientEffect_def startWebSocket_def)
  have old: "c < length (socks (console_net s)) \<and> ready_of (console_net s) c \<noteq> CONNECTING"
    using fresh step.IH console_page.client_open[OF step.hyps(1), of c]
    by (auto simp: ready_of_def split: if_splits)
  have "ready_of (console_net s) c \<le> ready_of (console_net t) c"
    using old by (intro console_page.step_progress[OF step.hyps(2)]) simp
  moreover have "length (socks (console_net s)) \<le> length (socks (console_net t))"
    using step.hyps(2)
    by (cases rule: ws_step.cases)
      (auto simp: consoles_act_frame onopen_def onclose_def clientEffect_def startWebSocket_def
        split: option.splits)
  ultimately show ?case
    using old by (auto simp: less_eq_ready_def ready_rank_inject split: ready.splits)
       (metis le_zero_eq ready_rank.simps(1) ready_rank_inject)
qed

text \<open>
  C38.  A hotfix dialog sends its request on the connection that was the client when the dialog was
  opened.  Once that connection has been replaced, confirming the dialog does nothing at all, even
  while the page is connected again: the confirmed hotfix is lost without a message.
\<close>

theorem consoles_stale_hotfix:
  assumes "ws_reach console_net onopen onclose consoles_act consoles0 s"
    and "i < length (confirms s)" and "confirms s ! i = Some c" and "console_client s \<noteq> Some c"
  shows "consoles_act (ConfirmHotfix i) s = s"
proof -
  have "Some c \<in> set (confirms s)" using assms(2,3) by (metis nth_mem)
  then have "ready_of (console_net s) c \<noteq> CONNECTING"
    using captured_not_connecting[OF assms(1)] by blast
  moreover have "ready_of (console_net s) c \<noteq> OPEN"
    using console_page.client_iff_open[OF assms(1)] assms(4) by blast
  ultimately have "send c t (console_net s) = Inr (console_net s)" for t
    by (auto simp: send_def split: ready.splits)
  with assms(2,3) show ?thesis by (simp add: onOk_def)
qed

definition stale_run :: consoles where
  "stale_run = onopen 1 (onclose 0 (consoles_act (InPane ''game.1.1'' ClickHotfix)
     (consoles_act (ShowTab '''' ''game.1.1'')
     (consoles_act (Receive '''' servers_message) (onopen 0 consoles0)))))"

lemma stale_run_reach: "ws_reach console_net onopen onclose consoles_act consoles0 stale_run"
proof -
  note d = onopen_def onclose_def startWebSocket_def clientEffect_def consoles0_def ready_of_def
    consoles_act_frame
  note acted = ws_step.acted[of console_net onopen onclose consoles_act]
  let ?a = "consoles_act (InPane ''game.1.1'' ClickHotfix) (consoles_act (ShowTab '''' ''game.1.1'')
     (consoles_act (Receive '''' servers_message) (onopen 0 consoles0)))"
  have "ws_reach console_net onopen onclose consoles_act consoles0 (onopen 0 consoles0)"
    by (rule ws_reach.step[OF ws_reach.start], rule ws_step.opened) (simp add: d)
  then have a: "ws_reach console_net onopen onclose consoles_act consoles0 ?a"
    by (blast intro: ws_reach.step acted)
  have socks: "socks (console_net ?a) = [OPEN]"
    unfolding consoles_act_frame[THEN conjunct2] by (simp add: d)
  have "ws_reach console_net onopen onclose consoles_act consoles0 (onclose 0 ?a)"
    by (rule ws_reach.step[OF a], rule ws_step.closed)
      (simp add: ready_of_def socks del: consoles_act.simps)
  then show ?thesis
    unfolding stale_run_def
    by (rule ws_reach.step, intro ws_step.opened)
      (simp add: ready_of_def onclose_def startWebSocket_def socks del: consoles_act.simps)
qed

lemma stale_run_state: "confirms stale_run = [Some 0]" "console_client stale_run = Some 1"
proof -
  note d = stale_run_def receive_servers[OF servers_message_parse,
      of "[Str ''game.1.1'', Str ''game.1.2'']"] showTab_def pane_keys_def setServerPanes_def
      onopen_def onclose_def startWebSocket_def clientEffect_def consoles0_def inPane_def
      onClickHotfix_def onHotfix_def responseEffect_def
  show "confirms stale_run = [Some 0]" "console_client stale_run = Some 1"
    by (simp_all add: d prop_get_Cons)
qed

theorem consoles_stale_hotfix_witness:
  "console_client stale_run = Some 1 \<and> consoles_act (ConfirmHotfix 0) stale_run = stale_run"
  using consoles_stale_hotfix[OF stale_run_reach, of 0 0] stale_run_state by simp

section \<open>Messages that cannot be handled\<close>

lemma collect_error: "(\<exists>e. collect f xs = Inl e) \<longleftrightarrow> (\<exists>x \<in> set xs. \<exists>e. f x = Inl e)"
proof (induction xs)
  case (Cons x xs)
  then show ?case by (cases "f x"; cases "collect f xs") auto
qed simp

lemma js_get_error: "(\<exists>e. js_get v k = Inl e) \<longleftrightarrow> v = Undef \<or> v = Null"
  by (cases v) auto


lemma no_json: "JSON_parse ''timeout'' = Inl SyntaxError"
  by code_simp


end
