(* ===== verification/ConsoleSpec.thy ===== *)
theory ConsoleSpec
  imports Consoles
begin

text \<open>
  What the debug page is for, without its connections, dialogs, forms and times: a conversation per
  server process.  The page of \<open>Consoles\<close> refines it, step by step.
\<close>

section \<open>The specification\<close>

datatype utterance = Said jsval | Heard jsval

text \<open>
  The processes that are listed, the last answer of the admin process (whom it is from, and what it
  says), and the conversations that are on the page, oldest utterance first.
\<close>

record debug_spec =
  sp_panes :: "jsval list"
  sp_last :: "(jsval \<times> jsval) option"
  sp_conv :: "string \<Rightarrow> utterance list option"

definition spec0 :: debug_spec where
  "spec0 = \<lparr>sp_panes = [], sp_last = None, sp_conv = (\<lambda>_. None)\<rparr>"

text \<open>The name behind the key of a conversation, and what an answer adds to it.\<close>

definition spec_name :: "string \<Rightarrow> debug_spec \<Rightarrow> jsval" where
  "spec_name k p = or_undef (find (\<lambda>n. js_string n = k) (sp_panes p))"

definition heard :: "jsval \<Rightarrow> jsval \<times> jsval \<Rightarrow> utterance list" where
  "heard nm a = (if loose_eq (fst a) nm \<and> snd a \<noteq> Undef then [Heard (snd a)] else [])"

datatype spec_event =
    SpecServers "jsval list"
  | SpecAnswer jsval jsval
  | SpecShow string
  | SpecSay string jsval
  | SpecClear string
  | SpecNothing

definition spec_extend :: "string \<Rightarrow> utterance list \<Rightarrow> debug_spec \<Rightarrow> debug_spec" where
  "spec_extend k us p =
     (case sp_conv p k of None \<Rightarrow> p | Some c \<Rightarrow> p\<lparr>sp_conv := (sp_conv p)(k \<mapsto> c @ us)\<rparr>)"

fun spec_step :: "spec_event \<Rightarrow> debug_spec \<Rightarrow> debug_spec" where
  "spec_step (SpecServers panes) p = p\<lparr>sp_panes := panes,
     sp_conv := (\<lambda>k. if k \<in> js_string ` set panes then sp_conv p k else None)\<rparr>"
| "spec_step (SpecAnswer from dat) p = p\<lparr>sp_last := Some (from, dat),
     sp_conv := (\<lambda>k. map_option (\<lambda>c. c @ heard (spec_name k p) (from, dat)) (sp_conv p k))\<rparr>"
| "spec_step (SpecShow k) p =
     (if k \<in> js_string ` set (sp_panes p) \<and> sp_conv p k = None then
        p\<lparr>sp_conv := (sp_conv p)(k \<mapsto>
           (case sp_last p of None \<Rightarrow> [] | Some a \<Rightarrow> heard (spec_name k p) a))\<rparr>
      else p)"
| "spec_step (SpecSay k v) p = spec_extend k [Said v] p"
| "spec_step (SpecClear k) p =
     (case sp_conv p k of None \<Rightarrow> p | Some c \<Rightarrow> p\<lparr>sp_conv := (sp_conv p)(k \<mapsto> [])\<rparr>)"
| "spec_step SpecNothing p = p"

section \<open>The abstraction\<close>

definition utterance_of :: "entry \<Rightarrow> utterance" where
  "utterance_of e = (if tag e = ''SEND'' then Said (content e) else Heard (content e))"

definition conversation :: "debug_console \<Rightarrow> utterance list" where
  "conversation d = rev (map utterance_of (showData d))"

definition abs_debug :: "consoles \<Rightarrow> debug_spec" where
  "abs_debug s = \<lparr>sp_panes = serverPanes s,
     sp_last = map_option (\<lambda>r. (name r, data r)) (consoleResponse s),
     sp_conv = (\<lambda>k. map_option conversation (map_of (mounted s) k))\<rparr>"

text \<open>What a text of the server means.\<close>

definition observe_text :: "string \<Rightarrow> spec_event" where
  "observe_text t =
     or_keep SpecNothing
       (and_then (JSON_parse t) (\<lambda>msg.
        and_then (js_get msg ''type'') (\<lambda>ty.
        and_then (js_get msg ''data'') (\<lambda>dat.
        and_then (js_get msg ''target'') (\<lambda>target.
          if loose_eq ty (Str ''servers'') then
            and_then (js_get dat ''length'') (\<lambda>n.
            and_then (collect (js_nth dat) [0..<loop_count n]) (\<lambda>panes. Inr (SpecServers panes)))
          else if loose_eq ty (Str ''message'') \<or> loose_eq ty (Str ''reload'')
               \<and> \<not> loose_eq ty (Str ''error'') then Inr (SpecAnswer target dat)
          else Inr SpecNothing)))))"

text \<open>What an event of the page means: only a text that is not empty is said.\<close>

fun observe_pane :: "string \<Rightarrow> debug_console \<Rightarrow> console_event \<Rightarrow> spec_event" where
  "observe_pane k d (SubmitSingle now t) = (if t = '''' then SpecNothing else SpecSay k (Str t))"
| "observe_pane k d (SubmitMulti now) =
     (let v = or_undef (fieldValue d) in
      if v = Undef \<or> v = Str '''' then SpecNothing else SpecSay k v)"
| "observe_pane k d ClickClear = SpecClear k"
| "observe_pane k d _ = SpecNothing"

fun observe :: "consoles \<Rightarrow> page_event \<Rightarrow> spec_event" where
  "observe s (Receive now t) = observe_text t"
| "observe s (ShowTab now k) = SpecShow k"
| "observe s (InPane k ev) =
     (case map_of (mounted s) k of None \<Rightarrow> SpecNothing | Some d \<Rightarrow> observe_pane k d ev)"
| "observe s (ConfirmHotfix i) = SpecNothing"

section \<open>The refinement\<close>

lemma spec_name_abs [simp]: "spec_name k (abs_debug s) = pane_name k s"
  by (simp add: spec_name_def abs_debug_def pane_name_def)

lemma abs_debug_calls [simp]: "abs_debug (console_calls cs s) = abs_debug s"
  by (simp add: abs_debug_def)

lemma conversation_response:
  "conversation (fst (responseEffect nm now r d)) =
     conversation d @ (case r of None \<Rightarrow> [] | Some a \<Rightarrow> heard nm (name a, data a))"
  by (auto simp: responseEffect_def addNewContent_def conversation_def utterance_of_def heard_def
      strict_eq_def Let_def split: option.splits)

lemma map_of_map_values:
  "map_of (map (\<lambda>p. (fst p, f (fst p) (snd p))) ps) k = map_option (f k) (map_of ps k)"
  by (induction ps) auto

lemma map_of_filter_keys:
  "map_of (filter (\<lambda>p. fst p \<in> K) ps) k = (if k \<in> K then map_of ps k else None)"
  by (induction ps) auto

lemma abs_response:
  "abs_debug (setConsoleResponse now r s) = spec_step (SpecAnswer (name r) (data r)) (abs_debug s)"
proof -
  have "map_of (mounted (setConsoleResponse now r s)) k =
      map_option (\<lambda>d. fst (responseEffect (pane_name k s) now (Some r) d)) (map_of (mounted s) k)" for k
    using map_of_map_values[of "\<lambda>k d. fst (responseEffect (pane_name k s) now (Some r) d)"]
    by (simp add: setConsoleResponse_def Let_def comp_def case_prod_beta')
  moreover have "consoleResponse (setConsoleResponse now r s) = Some r"
    by (simp add: setConsoleResponse_def Let_def)
  ultimately show ?thesis
    by (simp add: abs_debug_def option.map_comp comp_def conversation_response spec_name_def pane_name_def)
qed

lemma abs_servers: "abs_debug (setServerPanes panes s) = spec_step (SpecServers panes) (abs_debug s)"
  by (auto simp: abs_debug_def setServerPanes_def map_of_filter_keys)

lemma abs_show: "abs_debug (showTab now k s) = spec_step (SpecShow k) (abs_debug s)"
proof -
  have c: "conversation debug_console0 = []" by (simp add: conversation_def debug_console0_def)
  have m: "k \<in> fst ` set (mounted s) \<longleftrightarrow> map_of (mounted s) k \<noteq> None"
    by (metis map_of_eq_None_iff)
  have "map_of (mounted s @ [(k, d)]) j =
      (if j = k \<and> map_of (mounted s) k = None then Some d else map_of (mounted s) j)" for d j
    by (simp add: map_add_def split: option.splits)
  then show ?thesis
    unfolding showTab_def m
    by (auto simp: abs_debug_def case_prod_beta' Let_def pane_keys_def conversation_response c
        spec_name_def pane_name_def fun_eq_iff split: option.splits)
qed

text \<open>Submitting, clearing, typing: what the console does is what the specification does.\<close>

lemma conversation_step:
  "conversation (fst (console_step nm ev d)) =
     (case observe_pane k d ev of SpecSay _ v \<Rightarrow> conversation d @ [Said v] | SpecClear _ \<Rightarrow> []
      | _ \<Rightarrow> conversation d)"
  by (cases ev)
    (auto simp: console_handlers addNewContent_SEND conversation_def utterance_of_def strict_eq_def Let_def)

lemma observe_pane_cases: "observe_pane k d ev \<in> {SpecNothing, SpecClear k} \<union> range (SpecSay k)"
  by (cases ev) (auto simp: Let_def)

lemma abs_in_pane: "abs_debug (inPane k ev s) = spec_step (observe s (InPane k ev)) (abs_debug s)"
proof (cases "map_of (mounted s) k")
  case (Some d)
  let ?d = "fst (console_step (pane_name k s) ev d)"
  have "abs_debug (inPane k ev s) =
      (abs_debug s)\<lparr>sp_conv := (sp_conv (abs_debug s))(k \<mapsto> conversation ?d)\<rparr>"
    using Some by (simp add: inPane_def case_prod_beta' Let_def) (simp add: abs_debug_def update_conv fun_eq_iff)
  then show ?thesis
    using Some observe_pane_cases[of k d ev] conversation_step[of "pane_name k s" ev d k]
    by (auto simp: abs_debug_def spec_extend_def fun_eq_iff)
qed (simp add: inPane_def)

lemma abs_receive: "abs_debug (or_keep s (onWebSocketMessage now t s)) = spec_step (observe_text t) (abs_debug s)"
proof -
  have keep: "or_keep s m = s" if "m = Inl e" for m :: "consoles thrown" and e using that by simp
  have toast: "abs_debug (s\<lparr>console_net := n\<rparr>) = abs_debug s" for n by (simp add: abs_debug_def)
  show ?thesis
  proof (cases "JSON_parse t")
    case (Inr msg)
    show ?thesis
    proof (cases "msg = Undef \<or> msg = Null")
      case False
      then obtain ty dat tg where g: "js_get msg ''type'' = Inr ty" "js_get msg ''data'' = Inr dat"
        "js_get msg ''target'' = Inr tg"
        by (metis js_get_error sum.exhaust)
      have "abs_debug (or_keep s (and_then m (\<lambda>panes. Inr (setServerPanes panes s)))) =
          spec_step (or_keep SpecNothing (and_then m (\<lambda>panes. Inr (SpecServers panes)))) (abs_debug s)"
        for m by (cases m) (simp_all add: abs_servers del: spec_step.simps(1))
      moreover have "and_then (and_then m f) h = and_then m (\<lambda>x. and_then (f x) h)"
        for m :: "'a thrown" and f :: "'a \<Rightarrow> 'b thrown" and h :: "'b \<Rightarrow> 'c thrown"
        by (rule and_then_assoc)
      ultimately show ?thesis
        using Inr g
        by (auto simp: onWebSocketMessage_def observe_text_def abs_response toast and_then_assoc[symmetric]
            simp del: spec_step.simps(1,2))
    qed (use Inr in \<open>auto simp: onWebSocketMessage_def observe_text_def\<close>)
  qed (simp add: onWebSocketMessage_def observe_text_def)
qed

lemma abs_connection: "abs_debug consoles0 = spec0" "abs_debug (onopen i s) = abs_debug s"
    "abs_debug (onclose i s) = abs_debug s"
  by (simp_all add: abs_debug_def consoles0_def startWebSocket_def spec0_def onopen_def onclose_def
      clientEffect_def split: option.splits)

lemma abs_act: "abs_debug (consoles_act ev s) = spec_step (observe s ev) (abs_debug s)"
proof (cases ev)
  case (ConfirmHotfix i)
  then show ?thesis by (simp add: onOk_def abs_debug_def split: option.splits)
qed (simp_all only: consoles_act.simps abs_receive abs_show abs_in_pane observe.simps(1,2))

text \<open>
  C9.  The debug page implements conversations with server processes: it starts with none; opening
  and losing connections never changes them; and every other event of the page has on them exactly
  the effect of the event of the specification that it stands for.
\<close>

theorem consoles_refine_spec:
  "abs_debug consoles0 = spec0
   \<and> abs_debug (onopen i s) = abs_debug s \<and> abs_debug (onclose i s) = abs_debug s
   \<and> abs_debug (consoles_act ev s) = spec_step (observe s ev) (abs_debug s)"
  using abs_connection abs_act by blast

text \<open>A conversation only grows, at its end, until it is cleared or its process is no longer listed.\<close>

lemma spec_grows:
  assumes "sp_conv p k = Some c" and "sp_conv (spec_step e p) k = Some c'" and "e \<noteq> SpecClear k"
  shows "\<exists>us. c' = c @ us"
  using assms
  by (cases e) (auto simp: spec_extend_def split: if_splits option.splits)

end
