(* ===== verification/ExportTable.thy ===== *)
theory ExportTable
  imports React
begin

text \<open>
  The page of the table exporter, \<open>tools/web/src/src/pages/exportTable.tsx\<close>: one connection to the
  process that runs the exporter, the configuration form, the export log and the sheet search.  The
  page is a \<open>ws_reconnecting_page\<close>.
\<close>

section \<open>State\<close>

record exportTableConfig =
  export_cmd :: jsval
  excel_path :: jsval
  export_client_path :: jsval
  export_server_path :: jsval

record log_line =
  line_title :: string
  line_content :: jsval

text \<open>\<open>tempMsg\<close> is a variable of the module: it outlives the component.\<close>

record export_page =
  table_net :: net
  table_client :: "nat option"
  configVisible :: bool
  exportConfig :: "exportTableConfig option"
  resultData :: "log_line list"
  tempMsg :: "log_line list"

definition exportCmdName :: string where "exportCmdName = ''export_cmd''"
definition excelPathName :: string where "excelPathName = ''excel_path''"
definition exportClientPathName :: string where "exportClientPathName = ''export_client_path''"
definition exportServerPathName :: string where "exportServerPathName = ''export_server_path''"

definition cmdSetTableConfig :: string where "cmdSetTableConfig = ''setTableConfig''"
definition cmdGetTableConfig :: string where "cmdGetTableConfig = ''tableConfig''"
definition cmdExportTable :: string where "cmdExportTable = ''exportTable''"
definition cmdError :: string where "cmdError = ''error''"
definition cmdFindSheet :: string where "cmdFindSheet = ''findSheet''"

lemmas cmd_names = cmdSetTableConfig_def cmdGetTableConfig_def cmdExportTable_def cmdError_def
  cmdFindSheet_def exportCmdName_def excelPathName_def exportClientPathName_def
  exportServerPathName_def

section \<open>Handlers\<close>

definition export_url :: string where
  "export_url = ''ws://localhost:9000/exportTable''"

definition startExportSocket :: "export_page \<Rightarrow> export_page" where
  "startExportSocket s = s\<lparr>table_net := connect export_url (table_net s)\<rparr>"

text \<open>What the component starts with when it comes to the page, given the module's variable.\<close>

definition mountExport :: "net \<Rightarrow> log_line list \<Rightarrow> export_page" where
  "mountExport n tmp = startExportSocket
     \<lparr>table_net = n, table_client = None, configVisible = False, exportConfig = None,
      resultData = [], tempMsg = tmp\<rparr>"

definition export0 :: export_page where
  "export0 = mountExport net0 []"

text \<open>\<open>client?.send(text)\<close>.\<close>

definition tableSend :: "string \<Rightarrow> export_page \<Rightarrow> export_page" where
  "tableSend t s =
     (case table_client s of None \<Rightarrow> s
      | Some c \<Rightarrow> s\<lparr>table_net := or_keep (table_net s) (send c t (table_net s))\<rparr>)"

definition tableClientEffect :: "export_page \<Rightarrow> export_page" where
  "tableClientEffect s =
     (case table_client s of None \<Rightarrow> s
      | Some c \<Rightarrow> s\<lparr>table_net := or_keep (table_net s)
          (send c (stringify (Obj [(''type'', Str cmdGetTableConfig)])) (table_net s))\<rparr>)"

definition onopenExport :: "nat \<Rightarrow> export_page \<Rightarrow> export_page" where
  "onopenExport c s =
     tableClientEffect (s\<lparr>table_net := mark c OPEN (table_net s), table_client := Some c\<rparr>)"

definition oncloseExport :: "nat \<Rightarrow> export_page \<Rightarrow> export_page" where
  "oncloseExport c s =
     startExportSocket (s\<lparr>table_net := mark c CLOSED (table_net s), table_client := None\<rparr>)"

text \<open>\<open>r.k || ""\<close>.\<close>

definition config_field :: "jsval \<Rightarrow> string \<Rightarrow> jsval thrown" where
  "config_field r k = and_then (js_get r k) (\<lambda>v. Inr (js_or v (Str '''')))"

definition onExportMessage :: "string \<Rightarrow> string \<Rightarrow> export_page \<Rightarrow> export_page thrown" where
  "onExportMessage now t s =
     and_then (JSON_parse t) (\<lambda>msg.
     and_then (js_get msg ''type'') (\<lambda>ty.
     and_then (js_get msg ''data'') (\<lambda>dat.
       if loose_eq ty (Str cmdGetTableConfig) then
         and_then (JSON_parse (js_string dat)) (\<lambda>r.
         and_then (config_field r ''export_cmd'') (\<lambda>a.
         and_then (config_field r ''excel_path'') (\<lambda>b.
         and_then (config_field r ''export_client_path'') (\<lambda>c.
         and_then (config_field r ''export_server_path'') (\<lambda>d.
           Inr (s\<lparr>exportConfig := Some \<lparr>export_cmd = a, excel_path = b, export_client_path = c,
             export_server_path = d\<rparr>\<rparr>))))))
       else if loose_eq ty (Str cmdSetTableConfig) then
         Inr (s\<lparr>configVisible := False\<rparr>)
       else if loose_eq ty (Str cmdError) then
         Inr (s\<lparr>table_net := emit (Toast ''error'' dat) (table_net s)\<rparr>)
       else if loose_eq ty (Str cmdExportTable) then
         (if strict_eq dat Undef \<or> strict_eq dat (Str '''') then Inr s
          else
            let r = tempMsg s @ [\<lparr>line_title = now, line_content = dat\<rparr>]
            in Inr (s\<lparr>tempMsg := r, resultData := r,
                 table_net := emit (Scroll ''historyScrollDiv'') (emit ReloadList (table_net s))\<rparr>))
       else if loose_eq ty (Str cmdFindSheet) then
         Inr (s\<lparr>table_net := emit (ConfirmBox [(''width'', Num 700), (''title'', dat),
            (''autoFocusButton'', Str ''ok'')]) (table_net s)\<rparr>)
       else Inr s)))"

definition onSubmitConfig :: "jsval \<Rightarrow> export_page \<Rightarrow> export_page" where
  "onSubmitConfig values s =
     (let msg = Obj [(''type'', Str cmdSetTableConfig), (''data'', Str (stringify values))]
      in tableSend (stringify msg) s)"

definition doExportTable :: "export_page \<Rightarrow> export_page" where
  "doExportTable s =
     tableSend (stringify (Obj [(''type'', Str cmdExportTable)])) (s\<lparr>tempMsg := [], resultData := []\<rparr>)"

definition doFindSheet :: "string \<Rightarrow> export_page \<Rightarrow> export_page" where
  "doFindSheet value s =
     (if value = '''' then
        s\<lparr>table_net := emit (Toast ''info'' (Str (utf8 [0x8BF7, 0x8F93, 0x5165, 0x8868, 0x683C, 0x540D, 0x79F0]))) (table_net s)\<rparr>
      else tableSend (stringify (Obj [(''type'', Str cmdFindSheet), (''data'', Str value)])) s)"

datatype export_event =
    ReceiveExport string string
  | ToggleConfig                      \<comment> \<open>the button that shows or hides the form\<close>
  | ConfigVisible bool                \<comment> \<open>\<open>onVisibleChange\<close> of the form\<close>
  | SubmitConfig jsval
  | ClickExport
  | SearchSheet string

fun export_act :: "export_event \<Rightarrow> export_page \<Rightarrow> export_page" where
  "export_act (ReceiveExport now t) s = or_keep s (onExportMessage now t s)"
| "export_act ToggleConfig s = s\<lparr>configVisible := \<not> configVisible s\<rparr>"
| "export_act (ConfigVisible b) s = s\<lparr>configVisible := b\<rparr>"
| "export_act (SubmitConfig values) s = onSubmitConfig values s"
| "export_act ClickExport s = doExportTable s"
| "export_act (SearchSheet v) s = doFindSheet v s"

section \<open>Rendering\<close>

definition config_text :: "string \<Rightarrow> string \<Rightarrow> jsval \<Rightarrow> vnode" where
  "config_text label nm v =
     Elem ''ProFormText'' [(''label'', PS label), (''name'', PS nm), (''initialValue'', PV v)] []"

text \<open>\<open>exportConfig?.field\<close>.\<close>

definition config_value :: "(exportTableConfig \<Rightarrow> jsval) \<Rightarrow> export_page \<Rightarrow> jsval" where
  "config_value field s = or_undef (map_option field (exportConfig s))"

definition line_props :: "log_line \<Rightarrow> jsval" where
  "line_props l = Obj [(''title'', Str (line_title l)), (''content'', line_content l)]"

definition render_card :: vnode where
  "render_card =
     Elem ''Card''
       [(''title'', PS (utf8 [0x5BFC, 0x8868])), (''key'', PS ''card''),
        (''extra'', PNodes
          [Elem ''Space'' [(''key'', PS ''space''), (''direction'', PS ''horizontal'')]
            [Elem ''Search''
              [(''placeholder'', PS (utf8 [0x8BF7, 0x8F93, 0x5165, 0x8981, 0x67E5, 0x8BE2, 0x7684, 0x8868, 0x683C, 0x540D, 0x79F0])), (''onSearch'', PFun ''doFindSheet''),
               (''style'', PV (Obj [(''width'', Num 300)])), (''enterButton'', PS (utf8 [0x67E5, 0x8BE2]))] [],
             Elem ''Button''
              [(''key'', PS ''config''), (''type'', PS ''primary''), (''onClick'', PFun ''toggleConfig'')]
              [Text (utf8 [0x914D, 0x7F6E])],
             Elem ''Button''
              [(''key'', PS ''export''), (''type'', PS ''primary''), (''onClick'', PFun ''doExportTable'')]
              [Text (utf8 [0x5BFC, 0x8868])]]])] []"

definition render_log :: "export_page \<Rightarrow> vnode" where
  "render_log s =
     Elem ''div''
       [(''id'', PS ''historyScrollDiv''),
        (''style'', PV (Obj [(''height'', Num 700), (''overflow'', Str ''auto''),
           (''padding'', Str ''0 0''), (''marginLeft'', Str ''20%''), (''marginRight'', Str ''20%'')]))]
       [Elem ''InfiniteScroll''
         [(''next'', PFun ''''), (''hasMore'', PV (Bool False)),
          (''loader'', PNodes [Elem ''Skeleton''
             [(''avatar'', PV (Bool True)), (''paragraph'', PV (Obj [(''rows'', Num 1)])),
              (''active'', PV (Bool True))] []]),
          (''dataLength'', PV (Num (int (length (resultData s))))),
          (''scrollableTarget'', PS ''historyScrollDiv'')]
         [Elem ''ProList''
           [(''headerTitle'', PS (utf8 [0x5BFC, 0x8868, 0x7ED3, 0x679C])), (''style'', PV (Obj [(''height'', Str ''auto'')])),
            (''dataSource'', PV (Arr (map line_props (resultData s)))),
            (''actionRef'', PFun ''listActionRef''),
            (''metas'', PV (Obj [(''description'', Obj [(''dataIndex'', Str ''content'')])]))] []]]"

definition render_config :: "export_page \<Rightarrow> vnode" where
  "render_config s =
     Elem ''ModalForm''
       [(''visible'', PV (Bool (configVisible s))), (''onVisibleChange'', PFun ''setConfigVisible''),
        (''onFinish'', PFun ''onSubmitConfig''), (''name'', PS (utf8 [0x5BFC, 0x8868, 0x914D, 0x7F6E]))]
       [config_text (utf8 [0x5BFC, 0x8868, 0x547D, 0x4EE4]) exportCmdName (config_value export_cmd s),
        config_text (''excel'' @ utf8 [0x8DEF, 0x5F84]) excelPathName (config_value excel_path s),
        config_text (utf8 [0x5BA2, 0x6237, 0x7AEF, 0x8868, 0x683C, 0x8F93, 0x51FA, 0x8DEF, 0x5F84]) exportClientPathName (config_value export_client_path s),
        config_text (utf8 [0x670D, 0x52A1, 0x7AEF, 0x8868, 0x683C, 0x8F93, 0x51FA, 0x8DEF, 0x5F84]) exportServerPathName (config_value export_server_path s)]"

definition render_export :: "export_page \<Rightarrow> vnode" where
  "render_export s =
     Elem ''Space'' [(''direction'', PS ''vertical''), (''style'', PV (Obj [(''width'', Str ''100%'')]))]
      [if exportConfig s \<noteq> None then
         Elem ''Space'' [(''direction'', PS ''vertical''), (''style'', PV (Obj [(''width'', Str ''100%'')]))]
          [render_card, render_log s]
       else
         Elem ''Result''
          [(''status'', PS ''404''), (''title'', PS ''404''),
           (''subTitle'', PS (utf8 [0x8FDE, 0x63A5, 0x8C03, 0x8BD5, 0x540E, 0x53F0, 0x5931, 0x8D25] @ '','' @ utf8 [0x65E0, 0x6CD5, 0x83B7, 0x53D6, 0x914D, 0x7F6E, 0x8868, 0x4FE1, 0x606F]))] [],
       render_config s]"

section \<open>The connection\<close>

lemma tableSend_frame [simp]:
  "table_client (tableSend t s) = table_client s" "exportConfig (tableSend t s) = exportConfig s"
  "resultData (tableSend t s) = resultData s" "tempMsg (tableSend t s) = tempMsg s"
  "configVisible (tableSend t s) = configVisible s"
  "socks (table_net (tableSend t s)) = socks (table_net s)"
  by (simp_all add: tableSend_def split: option.splits)

lemma onExportMessage_frame:
  "onExportMessage now t s = Inr s' \<Longrightarrow>
     table_client s' = table_client s \<and> socks (table_net s') = socks (table_net s)"
  by (auto simp: onExportMessage_def and_then_Inr Let_def split: if_splits)

lemma export_act_frame:
  "table_client (export_act a s) = table_client s \<and>
   socks (table_net (export_act a s)) = socks (table_net s)"
proof (cases a)
  case (ReceiveExport now t)
  then show ?thesis
    using onExportMessage_frame[of now t s] by (cases "onExportMessage now t s") auto
qed (auto simp: onSubmitConfig_def doExportTable_def doFindSheet_def)

interpretation table_page: ws_reconnecting_page table_net table_client onopenExport oncloseExport
    export_act export0
proof unfold_locales
  fix a s
  show "\<exists>k. socks (table_net (export_act a s)) = socks (table_net s) @ replicate k CONNECTING"
    using export_act_frame[of a s] by (intro exI[of _ 0]) simp
  fix i
  show "\<exists>k. socks (table_net (oncloseExport i s)) =
      (socks (table_net s))[i := CLOSED] @ replicate k CONNECTING"
    by (intro exI[of _ 1]) (simp add: oncloseExport_def startExportSocket_def)
qed (auto simp: onopenExport_def oncloseExport_def startExportSocket_def tableClientEffect_def
      export0_def mountExport_def export_act_frame)

section \<open>Properties of the page\<close>

lemma names_export [simp]: "array_index ''export_cmd'' = None" "array_index ''excel_path'' = None"
    "array_index ''export_client_path'' = None" "array_index ''export_server_path'' = None"
  by (simp_all add: array_index_name is_digit_def)

lemma onExportMessage_history:
  "onExportMessage now t s = Inr s' \<Longrightarrow> resultData s = tempMsg s \<Longrightarrow> resultData s' = tempMsg s'"
  by (auto simp: onExportMessage_def and_then_Inr Let_def split: if_splits)

lemma export_history_reach:
  "ws_reach table_net onopenExport oncloseExport export_act export0 s \<Longrightarrow> resultData s = tempMsg s"
proof (induction rule: ws_reach.induct)
  case start
  show ?case by (simp add: export0_def mountExport_def startExportSocket_def)
next
  case (step s t)
  from step.hyps(2) show ?case
  proof (cases rule: ws_step.cases)
    case (acted a)
    show ?thesis
    proof (cases a)
      case (ReceiveExport now m)
      with acted step.IH onExportMessage_history[of now m s] show ?thesis
        by (cases "onExportMessage now m s") auto
    qed (use acted step.IH in \<open>auto simp: onSubmitConfig_def doExportTable_def doFindSheet_def\<close>)
  qed (use step.IH in \<open>simp_all add: onopenExport_def tableClientEffect_def oncloseExport_def
      startExportSocket_def split: option.splits\<close>)
qed


definition export_open :: export_page where
  "export_open = onopenExport 0 export0"

lemma export_open_state: "table_client export_open = Some 0" "ready_of (table_net export_open) 0 = OPEN"
    "ws_reach table_net onopenExport oncloseExport export_act export0 export_open"
proof -
  note d = export_open_def onopenExport_def tableClientEffect_def export0_def mountExport_def
    startExportSocket_def ready_of_def
  show "table_client export_open = Some 0" "ready_of (table_net export_open) 0 = OPEN"
    by (simp_all add: d)
  show "ws_reach table_net onopenExport oncloseExport export_act export0 export_open"
    unfolding export_open_def
    by (rule ws_reach.step[OF ws_reach.start], rule ws_step.opened) (simp add: d)
qed


definition config_values :: "string \<Rightarrow> string \<Rightarrow> string \<Rightarrow> string \<Rightarrow> jsval" where
  "config_values a b c d = Obj [(exportCmdName, Str a), (excelPathName, Str b),
     (exportClientPathName, Str c), (exportServerPathName, Str d)]"

lemma config_values_wf [simp]: "js_wf (config_values a b c d)"
    "clean (config_values a b c d) = config_values a b c d"
  by (simp_all add: config_values_def cmd_names prop_ordered_names)

definition set_message :: "string \<Rightarrow> jsval" where
  "set_message inner = Obj [(''type'', Str ''setTableConfig''), (''data'', Str inner)]"

lemma names_message [simp]: "array_index ''type'' = None" "array_index ''data'' = None"
  by (simp_all add: array_index_name is_digit_def)

lemma set_message_wf: "js_wf (set_message t)" "clean (set_message t) = set_message t"
  by (simp_all add: set_message_def prop_ordered_names)

text \<open>
  C21.  The configuration survives the round trip through the server.  Submitting the form sends one
  frame on the open connection; the server reads from it a text and from that text the four values
  the user entered; and when the server answers a later request with that text, the page shows
  exactly these values, whatever characters they contain.
\<close>

theorem export_config_roundtrip:
  assumes "table_client s = Some c" and "ready_of (table_net s) c = OPEN"
  shows "\<exists>text inner.
    frames (table_net (export_act (SubmitConfig (config_values p q r u)) s))
      = frames (table_net s) @ [(c, text)]
    \<and> JSON_parse text = Inr (set_message inner)
    \<and> JSON_parse inner = Inr (config_values p q r u)
    \<and> (\<forall>now m s2. JSON_parse m = Inr (Obj [(''type'', Str ''tableConfig''), (''data'', Str inner)])
         \<longrightarrow> exportConfig (export_act (ReceiveExport now m) s2) =
               Some \<lparr>export_cmd = Str p, excel_path = Str q, export_client_path = Str r,
                     export_server_path = Str u\<rparr>)"
proof (intro exI conjI)
  let ?inner = "stringify (config_values p q r u)"
  let ?text = "stringify (set_message ?inner)"
  show "frames (table_net (export_act (SubmitConfig (config_values p q r u)) s))
      = frames (table_net s) @ [(c, ?text)]"
    using assms by (simp add: onSubmitConfig_def tableSend_def send_open set_message_def cmd_names Let_def)
  show "JSON_parse ?text = Inr (set_message ?inner)" and in_values: "JSON_parse ?inner = Inr (config_values p q r u)"
    using json.nested[of "config_values p q r u" set_message] set_message_wf by simp_all
  show "\<forall>now m s2. JSON_parse m = Inr (Obj [(''type'', Str ''tableConfig''), (''data'', Str ?inner)])
         \<longrightarrow> exportConfig (export_act (ReceiveExport now m) s2) =
               Some \<lparr>export_cmd = Str p, excel_path = Str q, export_client_path = Str r,
                     export_server_path = Str u\<rparr>"
    using in_values
    by (simp add: onExportMessage_def prop_get_Cons cmd_names config_field_def config_values_def
        js_or_def)
qed

theorem export_config_roundtrip_witness:
  "\<exists>text. frames (table_net (export_act (SubmitConfig (config_values ''c'' ''e'' ''x'' ''y'')) export_open))
     = frames (table_net export_open) @ [(0, text)]"
  using export_config_roundtrip[OF export_open_state(1,2), of "''c''" "''e''" "''x''" "''y''"] by blast

section \<open>The export log\<close>

text \<open>A text of the server that carries one piece of output of the exporter.\<close>

definition output_message :: "string \<Rightarrow> jsval \<Rightarrow> bool" where
  "output_message t d \<longleftrightarrow>
     (\<exists>ps. JSON_parse t = Inr (Obj ps) \<and> prop_get ps ''type'' = Some (Str ''exportTable'')
         \<and> or_undef (prop_get ps ''data'') = d)"

definition has_output :: "jsval \<Rightarrow> bool" where
  "has_output d \<longleftrightarrow> d \<noteq> Undef \<and> d \<noteq> Str ''''"

lemma receive_output:
  assumes "output_message t d"
  shows "tempMsg (export_act (ReceiveExport now t) s) =
      tempMsg s @ (if has_output d then [\<lparr>line_title = now, line_content = d\<rparr>] else [])"
    and "resultData (export_act (ReceiveExport now t) s) =
      (if has_output d then tempMsg s @ [\<lparr>line_title = now, line_content = d\<rparr>] else resultData s)"
  using assms
  by (auto simp: output_message_def has_output_def onExportMessage_def cmd_names Let_def)

definition receive_all :: "(string \<times> string) list \<Rightarrow> export_page \<Rightarrow> export_page" where
  "receive_all ms s = fold (\<lambda>(now, t). export_act (ReceiveExport now t)) ms s"

lemma receive_all_log:
  assumes "list_all2 (\<lambda>m d. output_message (snd m) d) ms ds" and "resultData s = tempMsg s"
  shows "map line_content (resultData (receive_all ms s)) =
      map line_content (resultData s) @ filter has_output ds"
  using assms
proof (induction ms ds arbitrary: s rule: list_all2_induct)
  case (Cons m ms d ds)
  obtain now t where m: "m = (now, t)" by (cases m)
  let ?s = "export_act (ReceiveExport now t) s"
  have "resultData ?s = tempMsg ?s"
    using receive_output[of t d now s] Cons.hyps(1) Cons.prems m by simp
  then have "map line_content (resultData (receive_all ms ?s)) =
      map line_content (resultData ?s) @ filter has_output ds"
    by (rule Cons.IH)
  moreover have "map line_content (resultData ?s) =
      map line_content (resultData s) @ (if has_output d then [d] else [])"
    using receive_output[of t d now s] Cons.hyps(1) Cons.prems m by simp
  ultimately show ?case
    by (simp add: receive_all_def m del: export_act.simps)
qed (simp add: receive_all_def)

text \<open>
  C25.  After the export button has been pressed, the log on the page is the exporter's output in the
  order in which it arrived: the old lines are gone, every piece of output gives one line, and the
  final empty message of the server gives none.
\<close>

theorem export_log:
  assumes "list_all2 (\<lambda>m d. output_message (snd m) d) ms ds"
  shows "map line_content (resultData (receive_all ms (export_act ClickExport s))) =
      filter has_output ds"
  using receive_all_log[OF assms, of "export_act ClickExport s"] by (simp add: doExportTable_def)

definition output_text :: "string \<Rightarrow> string" where
  "output_text d = stringify (Obj [(''type'', Str ''exportTable''), (''data'', Str d)])"

lemma output_text: "output_message (output_text d) (Str d)"
  using JSON_parse_stringify[of "Obj [(''type'', Str ''exportTable''), (''data'', Str d)]"]
  by (simp add: output_text_def output_message_def prop_ordered_names prop_get_Cons)

theorem export_log_witness:
  "map line_content (resultData (receive_all
      [(''1'', output_text ''a.xls''), (''2'', output_text ''b.xls''), (''3'', output_text '''')]
      (export_act ClickExport export_open))) = [Str ''a.xls'', Str ''b.xls'']"
proof -
  have "list_all2 (\<lambda>m d. output_message (snd m) d)
      [(''1'', output_text ''a.xls''), (''2'', output_text ''b.xls''), (''3'', output_text '''')]
      [Str ''a.xls'', Str ''b.xls'', Str '''']"
    by (simp add: output_text)
  from export_log[OF this, of export_open] show ?thesis by (simp add: has_output_def)
qed

text \<open>
  The log outlives the component although the component's own list does not: when the page is
  left and visited again its log is empty, and the first piece of output that arrives then brings
  back all lines of the earlier visit.
\<close>

theorem export_log_after_remount:
  assumes "output_message t d" and "has_output d"
  shows "resultData (mountExport (table_net s) (tempMsg s)) = []
    \<and> resultData (export_act (ReceiveExport now t) (mountExport (table_net s) (tempMsg s))) =
        tempMsg s @ [\<lparr>line_title = now, line_content = d\<rparr>]"
  using receive_output(2)[OF assms(1), of now "mountExport (table_net s) (tempMsg s)"] assms(2)
  by (simp add: mountExport_def startExportSocket_def del: export_act.simps)

theorem export_log_after_remount_witness:
  "map line_content (resultData (export_act (ReceiveExport ''2'' (output_text ''b.xls''))
     (mountExport net0 [\<lparr>line_title = ''1'', line_content = Str ''a.xls''\<rparr>]))) =
     [Str ''a.xls'', Str ''b.xls'']"
  using export_log_after_remount[OF output_text, of "''b.xls''"
      "export0\<lparr>table_net := net0, tempMsg := [\<lparr>line_title = ''1'', line_content = Str ''a.xls''\<rparr>]\<rparr>" "''2''"]
  by (simp add: has_output_def del: export_act.simps)

section \<open>The sheet search\<close>

text \<open>
  A sheet search sends nothing for an empty name and shows a hint; otherwise, on an open
  connection, it sends one frame from which the server reads the name; without a connection it does
  nothing and says nothing.
\<close>

theorem export_find_sheet:
  "frames (table_net (export_act (SearchSheet '''') s)) = frames (table_net s)
   \<and> (\<exists>hint. log (table_net (export_act (SearchSheet '''') s)) = log (table_net s) @ [Toast ''info'' hint])
   \<and> (v \<noteq> '''' \<longrightarrow> table_client s = None \<longrightarrow> export_act (SearchSheet v) s = s)
   \<and> (v \<noteq> '''' \<longrightarrow> table_client s = Some c \<longrightarrow> ready_of (table_net s) c = OPEN \<longrightarrow>
        (\<exists>text. frames (table_net (export_act (SearchSheet v) s)) = frames (table_net s) @ [(c, text)]
           \<and> JSON_parse text = Inr (Obj [(''type'', Str ''findSheet''), (''data'', Str v)])))"
proof -
  have "JSON_parse (stringify (Obj [(''type'', Str ''findSheet''), (''data'', Str v)])) =
      Inr (Obj [(''type'', Str ''findSheet''), (''data'', Str v)])"
    by (subst JSON_parse_stringify) (simp_all add: prop_ordered_names)
  then show ?thesis
    by (simp add: doFindSheet_def tableSend_def send_open cmd_names)
qed

theorem export_find_sheet_witness:
  "\<exists>text. frames (table_net (export_act (SearchSheet ''item'') export_open)) =
     frames (table_net export_open) @ [(0, text)]"
  using export_find_sheet[of export_open "''item''" 0] export_open_state(1,2) by auto

end
