(* ===== verification/AdminMessage.thy ===== *)
theory AdminMessage
  imports Json
begin

text \<open>
  The messages of the admin process (\<open>engine/admin/websocket.go\<close>), which the pages talk to.  It is a
  Go program: a JSON text is decoded into a structure whose absent members keep their zero values, a
  member of another type is an error, and the text \<open>null\<close> leaves the pointer to the structure nil.
  Member names are compared exactly, as all frames of the pages spell them (Go would also accept
  other cases of the letters), and the decoder and encoder of Go agree with \<open>JSON_parse\<close> and
  \<open>stringify\<close> on the values they stand for.
\<close>

section \<open>Messages\<close>

record web_message =
  wm_type :: string
  wm_target :: string
  wm_command :: string
  wm_data :: jsval                  \<comment> \<open>\<open>interface{}\<close>, \<open>Null\<close> for nil\<close>

definition web_message0 :: web_message where
  "web_message0 = \<lparr>wm_type = '''', wm_target = '''', wm_command = '''', wm_data = Null\<rparr>"

text \<open>A member that is a string.\<close>

definition go_string :: "jsval props \<Rightarrow> string \<Rightarrow> string option" where
  "go_string ps k =
     (case prop_get ps k of None \<Rightarrow> Some '''' | Some Null \<Rightarrow> Some '''' | Some (Str s) \<Rightarrow> Some s | _ \<Rightarrow> None)"

definition go_any :: "jsval props \<Rightarrow> string \<Rightarrow> jsval" where
  "go_any ps k = (case prop_get ps k of None \<Rightarrow> Null | Some v \<Rightarrow> v)"

text \<open>What reading one text gives: an error, the nil pointer, or a message.\<close>

datatype decoded = Undecodable | NilMessage | Decoded web_message

definition decode_message :: "string \<Rightarrow> decoded" where
  "decode_message t =
     (case JSON_parse t of
        Inr Null \<Rightarrow> NilMessage
      | Inr (Obj ps) \<Rightarrow>
          (case (go_string ps ''type'', go_string ps ''target'', go_string ps ''command'') of
             (Some ty, Some tg, Some c) \<Rightarrow>
               Decoded \<lparr>wm_type = ty, wm_target = tg, wm_command = c, wm_data = go_any ps ''data''\<rparr>
           | _ \<Rightarrow> Undecodable)
      | _ \<Rightarrow> Undecodable)"

text \<open>What \<open>WriteJSON\<close> sends.\<close>

definition message_value :: "web_message \<Rightarrow> jsval" where
  "message_value m = Obj [(''type'', Str (wm_type m)), (''target'', Str (wm_target m)),
     (''command'', Str (wm_command m)), (''data'', wm_data m)]"

definition message_text :: "web_message \<Rightarrow> string" where
  "message_text m = stringify (message_value m)"

text \<open>Any text from which this message is read.\<close>

definition carries :: "string \<Rightarrow> web_message \<Rightarrow> bool" where
  "carries t m \<longleftrightarrow> JSON_parse t = Inr (message_value m)"

definition error_message :: "string \<Rightarrow> web_message" where
  "error_message e = web_message0\<lparr>wm_type := ''error'', wm_data := Str e\<rparr>"

section \<open>What a handler does\<close>

text \<open>
  A handler returns a message, an error, or nothing; or it panics; or it calls
  \<open>sendCommandToTarget\<close> (type, target, command) and goes on with the response, as the continuation
  says: to answer a request, or to report on one server and go on with the next ones.
\<close>

datatype cont =
    ForConsole web_message
  | ForGmList web_message
  | ForGmCommand web_message
  | ForReload web_message string "string list"

datatype outcome =
    Reply web_message
  | Failed string
  | Quiet
  | Panics
  | Command nat string string cont

text \<open>What the loop of a connection sends for it.\<close>

definition outcome_messages :: "outcome \<Rightarrow> web_message list" where
  "outcome_messages r = (case r of Reply m \<Rightarrow> [m] | Failed e \<Rightarrow> [error_message e] | _ \<Rightarrow> [])"

section \<open>Encoding and decoding\<close>

lemma admin_names [simp]: "array_index ''type'' = None" "array_index ''target'' = None"
    "array_index ''command'' = None" "array_index ''data'' = None"
  by (simp_all add: array_index_name is_digit_def)

lemma message_value_wf: "js_wf (wm_data m) \<Longrightarrow> js_wf (message_value m)"
  by (simp add: message_value_def prop_ordered_names)

lemma message_text_parse:
  assumes "js_wf (wm_data m)" and "wm_data m \<noteq> Undef"
  shows "JSON_parse (message_text m) = Inr (Obj [(''type'', Str (wm_type m)),
     (''target'', Str (wm_target m)), (''command'', Str (wm_command m)), (''data'', clean (wm_data m))])"
  using JSON_parse_stringify[OF message_value_wf[OF assms(1)]] assms(2)
  by (simp add: message_text_def message_value_def)

text \<open>The text of a page's request, decoded.\<close>

lemma decode_object:
  assumes "JSON_parse t = Inr (Obj ps)" and "prop_get ps ''type'' = Some (Str ty)"
    and "go_string ps ''target'' = Some tg" and "go_string ps ''command'' = Some c"
  shows "decode_message t =
    Decoded \<lparr>wm_type = ty, wm_target = tg, wm_command = c, wm_data = go_any ps ''data''\<rparr>"
  using assms by (simp add: decode_message_def go_string_def)

end
