(* ===== verification/AdminTable.thy ===== *)
theory AdminTable
  imports AdminMessage
begin

text \<open>
  The admin process as the back end of the export page: its configuration file and the handlers that
  read and write it and run the exporter (\<open>engine/admin/message.go\<close>).  The file system, the shell and
  the texts of the errors of Go's library are a parameter.
\<close>

section \<open>Environment\<close>

datatype path_stat = Missing | StatError | Directory | NoDirectory

text \<open>What running a command gives: an error to start it, or the bytes of its two outputs.\<close>

datatype run = StartError string | Output string string

text \<open>
  \<open>te_open\<close> and \<open>te_write\<close>: the error of opening the configuration file and of writing it (the file is
  opened without a write flag, which Windows allows to be written and Linux does not); \<open>te_order\<close>: the
  order in which a loop visits a map, which Go leaves open; \<open>te_merge\<close>: the order in which the lines of
  the two outputs arrive; \<open>te_decode\<close>: the decoder of GB18030; \<open>te_format\<close>: \<open>%s\<close> of what is no string.
\<close>

record table_env =
  te_open :: "string option"
  te_write :: "string option"
  te_stat :: "string \<Rightarrow> path_stat"
  te_unmarshal_error :: "string \<Rightarrow> string"
  te_order :: "(string \<times> string) list \<Rightarrow> (string \<times> string) list"
  te_run :: "string \<Rightarrow> run"
  te_combined :: "string \<Rightarrow> string + string"
  te_merge :: "string list \<Rightarrow> string list \<Rightarrow> string list"
  te_decode :: "string \<Rightarrow> string"
  te_format :: "jsval \<Rightarrow> string"

section \<open>The configuration\<close>

definition read_size :: nat where "read_size = 2048"

text \<open>The bytes that one \<open>Read\<close> gets of the file.\<close>

definition read_config :: "string \<Rightarrow> string" where
  "read_config file = take read_size file"

text \<open>\<open>json.Unmarshal\<close> into \<open>map[string]interface{}\<close> succeeds, and into \<open>map[string]string\<close>.\<close>

definition go_is_map :: "string \<Rightarrow> bool" where
  "go_is_map t = (case JSON_parse t of Inr Null \<Rightarrow> True | Inr (Obj _) \<Rightarrow> True | _ \<Rightarrow> False)"

fun go_strings :: "jsval props \<Rightarrow> (string \<times> string) list option" where
  "go_strings [] = Some []"
| "go_strings ((k, Str s) # ps) = map_option ((#) (k, s)) (go_strings ps)"
| "go_strings ((k, Null) # ps) = map_option ((#) (k, '''')) (go_strings ps)"
| "go_strings (p # ps) = None"

definition go_string_map :: "string \<Rightarrow> (string \<times> string) list option" where
  "go_string_map t =
     (case JSON_parse t of Inr Null \<Rightarrow> Some [] | Inr (Obj ps) \<Rightarrow> go_strings ps | _ \<Rightarrow> None)"

definition map_value :: "(string \<times> string) list \<Rightarrow> string \<Rightarrow> string" where
  "map_value r k = (case map_of r k of None \<Rightarrow> '''' | Some s \<Rightarrow> s)"

definition exportTableKeyName :: "string \<Rightarrow> string" where
  "exportTableKeyName k =
     (if k = ''export_cmd'' then (utf8 [0x5BFC, 0x8868, 0x547D, 0x4EE4])
      else if k = ''excel_path'' then (''excel'' @ utf8 [0x8DEF, 0x5F84])
      else if k = ''export_client_path'' then (utf8 [0x5BA2, 0x6237, 0x7AEF, 0x8868, 0x683C, 0x8F93, 0x51FA, 0x8DEF, 0x5F84])
      else if k = ''export_server_path'' then (utf8 [0x670D, 0x52A1, 0x7AEF, 0x8868, 0x683C, 0x8F93, 0x51FA, 0x8DEF, 0x5F84])
      else k)"

definition checkPath :: "table_env \<Rightarrow> string \<Rightarrow> string \<Rightarrow> string option" where
  "checkPath e nm path =
     (case te_stat e path of
        Missing \<Rightarrow> Some (exportTableKeyName nm @ '': '' @ path @ ('' '' @ utf8 [0x4E0D, 0x5B58, 0x5728] @ '','' @ utf8 [0x8BF7, 0x68C0, 0x67E5, 0x914D, 0x7F6E]))
      | StatError \<Rightarrow> None
      | Directory \<Rightarrow> None
      | NoDirectory \<Rightarrow> Some (exportTableKeyName nm @ '': '' @ path @ ('' '' @ utf8 [0x4E0D, 0x662F, 0x76EE, 0x5F55] @ '','' @ utf8 [0x8BF7, 0x68C0, 0x67E5, 0x914D, 0x7F6E])))"

text \<open>The loop over the entries stops at the first error.\<close>

fun check_paths :: "table_env \<Rightarrow> (string \<times> string) list \<Rightarrow> string option" where
  "check_paths e [] = None"
| "check_paths e ((k, path) # r) =
     (case checkPath e k path of None \<Rightarrow> check_paths e r | Some err \<Rightarrow> Some err)"

section \<open>Handlers\<close>

text \<open>
  A handler gets the file (\<open>None\<close> when there is none; opening creates it) and returns it with the
  messages it sends itself and its outcome.
\<close>

type_synonym table_result = "string option \<times> web_message list \<times> outcome"

definition opened_file :: "string option \<Rightarrow> string" where
  "opened_file f = (case f of None \<Rightarrow> '''' | Some t \<Rightarrow> t)"

definition onGetExportTableConfig :: "table_env \<Rightarrow> web_message \<Rightarrow> string option \<Rightarrow> table_result" where
  "onGetExportTableConfig e req f =
     (case te_open e of Some err \<Rightarrow> (f, [], Failed err)
      | None \<Rightarrow>
          let b = read_config (opened_file f);
              response = (if b \<noteq> [] \<and> go_is_map b then b else stringify (Obj []))
          in (Some (opened_file f), [],
              Reply \<lparr>wm_type = wm_type req, wm_target = wm_target req, wm_command = '''',
                wm_data = Str response\<rparr>))"

definition set_config :: "table_env \<Rightarrow> web_message \<Rightarrow> string option \<Rightarrow> table_result" where
  "set_config e req f =
     (case te_open e of Some err \<Rightarrow> (f, [], Failed err)
      | None \<Rightarrow>
          let f1 = (case te_write e of None \<Rightarrow> '''' | Some _ \<Rightarrow> opened_file f) in
          (case wm_data req of
             Str s \<Rightarrow>
               (case te_write e of Some err \<Rightarrow> (Some f1, [], Failed err)
                | None \<Rightarrow> (Some s, [],
                    Reply (web_message0\<lparr>wm_type := wm_type req, wm_target := wm_target req\<rparr>)))
           | _ \<Rightarrow> (Some f1, [], Panics)))"

definition onSetExportTableConfig :: "table_env \<Rightarrow> web_message \<Rightarrow> string option \<Rightarrow> table_result" where
  "onSetExportTableConfig e req f =
     (case wm_data req of
        Str s \<Rightarrow>
          (case go_string_map s of None \<Rightarrow> (f, [], Failed (te_unmarshal_error e s))
           | Some r \<Rightarrow>
               (case check_paths e (te_order e r) of Some err \<Rightarrow> (f, [], Failed err)
                | None \<Rightarrow> set_config e req f))
      | _ \<Rightarrow> set_config e req f)"

text \<open>The lines of an output, each with its line feed; what follows the last line feed is dropped.\<close>

fun full_lines :: "string \<Rightarrow> string list" where
  "full_lines [] = []"
| "full_lines (c # cs) =
     (if c = CHR 0x0A then [c] # full_lines cs
      else (case full_lines cs of [] \<Rightarrow> [] | l # ls \<Rightarrow> (c # l) # ls))"

definition slashes :: "string \<Rightarrow> string" where
  "slashes s = map (\<lambda>c. if c = backslash then CHR ''/'' else c) s"

definition export_command :: "(string \<times> string) list \<Rightarrow> string" where
  "export_command r = slashes (map_value r ''export_cmd'')
     @ '' --excel_path='' @ slashes (map_value r ''excel_path'')
     @ '' --client_output='' @ slashes (map_value r ''export_client_path'')
     @ '' --server_output='' @ slashes (map_value r ''export_server_path'')"

definition run_export :: "table_env \<Rightarrow> web_message \<Rightarrow> (string \<times> string) list \<Rightarrow> web_message list \<times> outcome" where
  "run_export e req r =
     (case te_run e (export_command r) of
        StartError err \<Rightarrow> ([], Failed err)
      | Output out err \<Rightarrow>
          (map (\<lambda>l. web_message0\<lparr>wm_type := wm_type req, wm_data := Str (te_decode e l)\<rparr>)
             (te_merge e (full_lines out) (full_lines err)),
           Reply (web_message0\<lparr>wm_type := wm_type req, wm_data := Str ''''\<rparr>)))"

definition onExportTable :: "table_env \<Rightarrow> web_message \<Rightarrow> string option \<Rightarrow> table_result" where
  "onExportTable e req f =
     (case te_open e of Some err \<Rightarrow> (f, [], Failed ((utf8 [0x5BFC, 0x8868, 0x914D, 0x7F6E, 0x6587, 0x4EF6, 0x6253, 0x5F00, 0x5931, 0x8D25] @ '':'') @ err))
      | None \<Rightarrow>
          let b = read_config (opened_file f) in
          (Some (opened_file f),
           if b = [] then ([], Failed (utf8 [0x8BF7, 0x5148, 0x8FDB, 0x884C, 0x5BFC, 0x8868, 0x914D, 0x7F6E]))
           else
             (case go_string_map b of None \<Rightarrow> ([], Failed (utf8 [0x5BFC, 0x8868, 0x914D, 0x7F6E, 0x6570, 0x636E, 0x8BFB, 0x53D6, 0x5931, 0x8D25]))
              | Some r \<Rightarrow>
                  if map_value r ''export_cmd'' = '''' then ([], Failed (utf8 [0x5BFC, 0x8868, 0x547D, 0x4EE4, 0x9519, 0x8BEF] @ '','' @ utf8 [0x8BF7, 0x68C0, 0x67E5, 0x914D, 0x7F6E]))
                  else
                    (case checkPath e ''excel_path'' (map_value r ''excel_path'') of
                       Some err \<Rightarrow> ([], Failed err)
                     | None \<Rightarrow>
                         if map_value r ''export_client_path'' = '''' then
                           ([], Failed (exportTableKeyName ''export_client_path'' @ (utf8 [0x4E0D, 0x5B58, 0x5728])))
                         else if map_value r ''export_server_path'' = '''' then
                           ([], Failed (exportTableKeyName ''export_server_path'' @ (utf8 [0x4E0D, 0x5B58, 0x5728])))
                         else run_export e req r))))"

definition find_command :: "table_env \<Rightarrow> (string \<times> string) list \<Rightarrow> jsval \<Rightarrow> string" where
  "find_command e r d = slashes (map_value r ''export_cmd'')
     @ '' --excel_path='' @ slashes (map_value r ''excel_path'')
     @ '' --find_sheet='' @ (case d of Str s \<Rightarrow> s | _ \<Rightarrow> te_format e d)"

definition onFindSheet :: "table_env \<Rightarrow> web_message \<Rightarrow> string option \<Rightarrow> table_result" where
  "onFindSheet e req f =
     (case te_open e of Some err \<Rightarrow> (f, [], Failed ((utf8 [0x5BFC, 0x8868, 0x914D, 0x7F6E, 0x6587, 0x4EF6, 0x6253, 0x5F00, 0x5931, 0x8D25] @ '':'') @ err))
      | None \<Rightarrow>
          let b = read_config (opened_file f) in
          (Some (opened_file f), [],
           if b = [] then Failed (utf8 [0x8BF7, 0x5148, 0x8FDB, 0x884C, 0x5BFC, 0x8868, 0x914D, 0x7F6E])
           else
             (case go_string_map b of None \<Rightarrow> Failed (utf8 [0x5BFC, 0x8868, 0x914D, 0x7F6E, 0x6570, 0x636E, 0x8BFB, 0x53D6, 0x5931, 0x8D25])
              | Some r \<Rightarrow>
                  if map_value r ''export_cmd'' = '''' then Failed (utf8 [0x5BFC, 0x8868, 0x547D, 0x4EE4, 0x9519, 0x8BEF] @ '','' @ utf8 [0x8BF7, 0x68C0, 0x67E5, 0x914D, 0x7F6E])
                  else
                    (case checkPath e ''excel_path'' (map_value r ''excel_path'') of
                       Some err \<Rightarrow> Failed err
                     | None \<Rightarrow>
                         (case te_combined e (find_command e r (wm_data req)) of
                            Inl err \<Rightarrow> Failed err
                          | Inr output \<Rightarrow> Reply (web_message0\<lparr>wm_type := wm_type req,
                              wm_data := Str (te_decode e output)\<rparr>))))))"

section \<open>The lines of an output\<close>

lemma full_lines_none: "full_lines t = [] \<longleftrightarrow> CHR 0x0A \<notin> set t"
  by (induction t) (auto split: list.splits)

text \<open>All the bytes up to the last line feed, in order, and nothing else.\<close>

lemma full_lines_prefix: "\<exists>rest. t = concat (full_lines t) @ rest \<and> CHR 0x0A \<notin> set rest"
proof (induction t)
  case (Cons c cs)
  then obtain rest where r: "cs = concat (full_lines cs) @ rest" "CHR 0x0A \<notin> set rest" by blast
  show ?case
  proof (cases "full_lines cs")
    case Nil
    then have "CHR 0x0A \<notin> set cs" by (simp add: full_lines_none)
    with Nil r show ?thesis by (cases "c = CHR 0x0A") auto
  next
    case (Cons l ls)
    with r show ?thesis by (cases "c = CHR 0x0A") auto
  qed
qed simp

lemma full_lines_nonempty: "l \<in> set (full_lines t) \<Longrightarrow> l \<noteq> []"
proof (induction t arbitrary: l)
  case (Cons c cs)
  then show ?case by (cases "full_lines cs") (auto split: if_splits)
qed simp

lemma full_lines_line: "CHR 0x0A \<notin> set l \<Longrightarrow> full_lines (l @ CHR 0x0A # t) = (l @ [CHR 0x0A]) # full_lines t"
  by (induction l) auto

section \<open>The configuration file\<close>

lemma go_strings_all: "(\<forall>p \<in> set ps. \<exists>s. snd p = Str s) \<Longrightarrow>
    go_strings ps = Some (map (\<lambda>p. (fst p, case snd p of Str s \<Rightarrow> s | _ \<Rightarrow> '''')) ps)"
proof (induction ps)
  case (Cons p ps)
  then show ?case by (cases p) auto
qed simp

lemma check_paths_None: "check_paths e r = None \<longleftrightarrow> (\<forall>p \<in> set r. checkPath e (fst p) (snd p) = None)"
  by (induction e r rule: check_paths.induct) (auto split: option.splits)

lemma checkPath_None: "checkPath e k path = None \<longleftrightarrow> te_stat e path \<in> {Directory, StatError}"
  by (auto simp: checkPath_def split: path_stat.splits)

lemma json_prefix_short: "read_config t = t \<longleftrightarrow> length t \<le> read_size"
  by (auto simp: read_config_def dest: arg_cong[of _ _ length])

end
