(* ===== verification/Admin.thy ===== *)
theory Admin
  imports AdminTable "HOL-Library.List_Lexorder" "HOL-Library.Char_ord"
begin

text \<open>
  The admin process (\<open>engine/admin\<close>): the connections of the pages, the dispatch of their requests, and
  the commands it passes on to the game servers.  etcd, redis, the configuration of the servers and
  the servers themselves are the environment.  All commands of all connections wait for their
  response on one channel, and one goroutine (\<open>tick\<close>) both hands the responses over and writes the
  commands out.
\<close>

section \<open>Environment and state\<close>

text \<open>
  At one moment: the keys of the game servers and the values of the stubs in etcd, the value of an
  entity in redis, the error of writing to a server's buffer, and what the table handlers see.
\<close>

record admin_env =
  en_servers :: "string list"
  en_stubs :: "jsval props list"
  en_entity :: "int \<Rightarrow> jsval props option"
  en_write :: "string option"
  en_table :: table_env

text \<open>
  The goroutine of a connection is idle, waits for a response, or has one: \<open>sendCommandToTarget\<close> has
  returned it.
\<close>

datatype call_state = Idle | Waiting cont | Answered cont string

record ws_conn =
  ws_open :: bool
  ws_queue :: "web_message option list"     \<comment> \<open>\<open>inChan\<close>, \<open>None\<close> for the nil pointer\<close>
  ws_call :: call_state
  ws_out :: "web_message list"              \<comment> \<open>\<open>outChan\<close> and what has been written\<close>

definition ws_conn0 :: ws_conn where
  "ws_conn0 = \<lparr>ws_open = True, ws_queue = [], ws_call = Idle, ws_out = []\<rparr>"

text \<open>
  \<open>outBuffer\<close> and \<open>wire\<close>: the commands that wait for the next tick, and those written to the servers.
  \<open>tick_hand\<close>: the response with which the tick goroutine is blocked on the channel.
\<close>

record admin =
  serverConn :: "string list"
  outBuffer :: "(string \<times> string) list"
  wire :: "(string \<times> string) list"
  tick_hand :: "string option"
  ws_conns :: "ws_conn list"
  config_file :: "string option"
  admin_crashed :: bool

definition admin0 :: "string option \<Rightarrow> admin" where
  "admin0 f = \<lparr>serverConn = [], outBuffer = [], wire = [], tick_hand = None, ws_conns = [],
     config_file = f, admin_crashed = False\<rparr>"

section \<open>Handlers\<close>

definition onQueryServerList :: "admin_env \<Rightarrow> web_message \<Rightarrow> outcome" where
  "onQueryServerList e req =
     Reply (web_message0\<lparr>wm_type := wm_type req, wm_data := Arr (map Str (en_servers e))\<rparr>)"

definition onConsoleMessage :: "web_message \<Rightarrow> outcome" where
  "onConsoleMessage req =
     (case wm_data req of Str d \<Rightarrow> Command 1 (wm_target req) d (ForConsole req) | _ \<Rightarrow> Panics)"

text \<open>The loop over the stubs: it ends at the first one of the name GMStub.\<close>

fun stub_target :: "jsval props list \<Rightarrow> string option" where
  "stub_target [] = None"
| "stub_target (v # vs) =
     (if prop_get v ''name'' = Some (Str ''GMStub'') then
        (case prop_get v ''server'' of Some (Str t) \<Rightarrow> Some t | _ \<Rightarrow> None)
      else stub_target vs)"

definition text_reply :: "web_message \<Rightarrow> string \<Rightarrow> web_message" where
  "text_reply req r = \<lparr>wm_type = wm_type req, wm_target = wm_target req, wm_command = '''', wm_data = Str r\<rparr>"

definition onGetGMList :: "admin_env \<Rightarrow> web_message \<Rightarrow> outcome" where
  "onGetGMList e req =
     (case stub_target (en_stubs e) of None \<Rightarrow> Reply (text_reply req ''{}'')
      | Some t \<Rightarrow> Command 2 t '''' (ForGmList req))"

text \<open>\<open>strconv.ParseInt(s, 10, 64)\<close>, with 0 for an error, and \<open>InterfaceToInt\<close>.\<close>

definition parse_int64 :: "string \<Rightarrow> int" where
  "parse_int64 s =
     (let (sign, ds) = (case s of [] \<Rightarrow> (1, []) | c # cs \<Rightarrow>
            if c = CHR ''-'' then (- 1, cs) else if c = CHR ''+'' then (1, cs) else (1, s));
          n = sign * int (read_digits 0 ds)
      in if ds \<noteq> [] \<and> (\<forall>c \<in> set ds. is_digit c) \<and> - (2 ^ 63) \<le> n \<and> n < 2 ^ 63 then n else 0)"

fun InterfaceToInt :: "jsval option \<Rightarrow> int" where
  "InterfaceToInt (Some (Num n)) = n"
| "InterfaceToInt (Some (Str s)) = parse_int64 s"
| "InterfaceToInt _ = 0"

text \<open>\<open>json.Marshal\<close> prints the members of a map in the order of their names.\<close>

fun go_value :: "jsval \<Rightarrow> jsval" where
  "go_value (Arr xs) = Arr (map go_value xs)"
| "go_value (Obj ps) = Obj (sort_key fst (map (\<lambda>p. (fst p, go_value (snd p))) ps))"
| "go_value v = v"

definition gm_target :: "admin_env \<Rightarrow> jsval \<Rightarrow> string" where
  "gm_target e d =
     (case d of
        Obj ps \<Rightarrow>
          (let entityId = InterfaceToInt (prop_get ps ''entity_id'') in
           if entityId > 0 then
             (case en_entity e entityId of None \<Rightarrow> ''''
              | Some v \<Rightarrow> (case prop_get v ''server'' of Some (Str t) \<Rightarrow> t | _ \<Rightarrow> ''''))
           else (case stub_target (en_stubs e) of None \<Rightarrow> '''' | Some t \<Rightarrow> t))
      | _ \<Rightarrow> '''')"

definition gm_reply :: "web_message \<Rightarrow> string \<Rightarrow> web_message" where
  "gm_reply req r = (text_reply req r)\<lparr>wm_command := wm_command req\<rparr>"

definition onGMCommand :: "admin_env \<Rightarrow> web_message \<Rightarrow> outcome" where
  "onGMCommand e req =
     (let t = gm_target e (wm_data req) in
      if t \<noteq> '''' then Command 3 t (stringify (go_value (wm_data req))) (ForGmCommand req)
      else Reply (gm_reply req ''target not found''))"

fun reload_next :: "web_message \<Rightarrow> string list \<Rightarrow> outcome" where
  "reload_next req [] = Quiet"
| "reload_next req (t # ts) = Command 4 t '''' (ForReload req t ts)"

definition onReloadCommand :: "admin_env \<Rightarrow> web_message \<Rightarrow> outcome" where
  "onReloadCommand e req = reload_next req (en_servers e)"

text \<open>What a handler does with the response to its command.\<close>

fun resume :: "cont \<Rightarrow> string \<Rightarrow> web_message list \<times> outcome" where
  "resume (ForConsole req) r = ([], Reply (text_reply req r))"
| "resume (ForGmList req) r = ([], Reply (text_reply req r))"
| "resume (ForGmCommand req) r = ([], Reply (gm_reply req r))"
| "resume (ForReload req t ts) r =
     ([web_message0\<lparr>wm_type := wm_type req, wm_target := t, wm_data := Str ((utf8 [0x70ED, 0x66F4, 0x7ED3, 0x679C] @ '': '') @ r)\<rparr>],
      reload_next req ts)"

definition dispatcher :: "admin_env \<Rightarrow> web_message \<Rightarrow> string option \<Rightarrow> table_result" where
  "dispatcher e req f =
     (if wm_type req = ''servers'' then (f, [], onQueryServerList e req)
      else if wm_type req = ''message'' then (f, [], onConsoleMessage req)
      else if wm_type req = ''gmList'' then (f, [], onGetGMList e req)
      else if wm_type req = ''gmCommand'' then (f, [], onGMCommand e req)
      else if wm_type req = ''reload'' then (f, [], onReloadCommand e req)
      else if wm_type req = ''tableConfig'' then onGetExportTableConfig (en_table e) req f
      else if wm_type req = ''setTableConfig'' then onSetExportTableConfig (en_table e) req f
      else if wm_type req = ''exportTable'' then onExportTable (en_table e) req f
      else if wm_type req = ''findSheet'' then onFindSheet (en_table e) req f
      else (f, [], Failed ''unknown message type''))"

section \<open>Commands to the game servers\<close>

fun split_dots :: "string \<Rightarrow> string list" where
  "split_dots [] = [[]]"
| "split_dots (c # cs) =
     (if c = CHR ''.'' then [] # split_dots cs
      else (case split_dots cs of [] \<Rightarrow> [[c]] | x # xs \<Rightarrow> (c # x) # xs))"

text \<open>\<open>telnet\<close>: whether the configuration has a telnet address for this name.\<close>

definition known_target :: "(string \<Rightarrow> bool) \<Rightarrow> string \<Rightarrow> bool" where
  "known_target telnet target =
     (let info = split_dots target in 3 \<le> length info \<and> telnet (info ! 0 @ ''_'' @ info ! 2))"

text \<open>\<open>connectTarget\<close> panics on a target that has no connection and no address.\<close>

definition connectTarget :: "(string \<Rightarrow> bool) \<Rightarrow> string \<Rightarrow> admin \<Rightarrow> admin option" where
  "connectTarget telnet target a =
     (if target \<in> set (serverConn a) then Some a
      else if known_target telnet target then Some (a\<lparr>serverConn := serverConn a @ [target]\<rparr>)
      else None)"

definition telnet_text :: "nat \<Rightarrow> string \<Rightarrow> string" where
  "telnet_text ty command = stringify (Obj [(''type'', Num (int ty)),
     (''data'', Str (map (\<lambda>c. if c = CHR 0x0A then CHR 0x09 else c) command))]) @ [CHR 0x0A]"

definition trim_right :: "string \<Rightarrow> string" where
  "trim_right r = rev (dropWhile (\<lambda>c. c = CHR 0x0D \<or> c = CHR 0x0A) (rev r))"

definition on_conn :: "nat \<Rightarrow> (ws_conn \<Rightarrow> ws_conn) \<Rightarrow> admin \<Rightarrow> admin" where
  "on_conn c f a = (if c < length (ws_conns a) then a\<lparr>ws_conns := (ws_conns a)[c := f (ws_conns a ! c)]\<rparr> else a)"

definition set_call :: "nat \<Rightarrow> call_state \<Rightarrow> admin \<Rightarrow> admin" where
  "set_call c k = on_conn c (\<lambda>w. w\<lparr>ws_call := k\<rparr>)"

text \<open>\<open>write\<close>: nothing is sent on a connection that is closed.\<close>

definition ws_write :: "nat \<Rightarrow> web_message list \<Rightarrow> admin \<Rightarrow> admin" where
  "ws_write c ms = on_conn c (\<lambda>w. if ws_open w then w\<lparr>ws_out := ws_out w @ ms\<rparr> else w)"

definition sendCommandToTarget ::
  "(string \<Rightarrow> bool) \<Rightarrow> admin_env \<Rightarrow> nat \<Rightarrow> nat \<Rightarrow> string \<Rightarrow> string \<Rightarrow> cont \<Rightarrow> admin \<Rightarrow> admin" where
  "sendCommandToTarget telnet e c ty target command k a =
     (case connectTarget telnet target a of None \<Rightarrow> a\<lparr>admin_crashed := True\<rparr>
      | Some a1 \<Rightarrow>
          (case en_write e of
             Some err \<Rightarrow> set_call c (Answered k err)
               (a1\<lparr>serverConn := filter (\<lambda>t. t \<noteq> target) (serverConn a1)\<rparr>)
           | None \<Rightarrow> set_call c (Waiting k)
               (a1\<lparr>outBuffer := outBuffer a1 @ [(target, telnet_text ty command)]\<rparr>)))"

text \<open>What the goroutine of a connection does with the messages and the outcome of a handler.\<close>

definition finish :: "(string \<Rightarrow> bool) \<Rightarrow> admin_env \<Rightarrow> nat \<Rightarrow> web_message list \<Rightarrow> outcome \<Rightarrow> admin \<Rightarrow> admin" where
  "finish telnet e c ms r a =
     (let a1 = ws_write c (ms @ outcome_messages r) (set_call c Idle a) in
      case r of Panics \<Rightarrow> a1\<lparr>admin_crashed := True\<rparr>
      | Command ty target command k \<Rightarrow> sendCommandToTarget telnet e c ty target command k a1
      | _ \<Rightarrow> a1)"

section \<open>The process\<close>

text \<open>
  \<open>Handle\<close> and \<open>Resume\<close> are steps of the goroutine of a connection, \<open>Tick\<close> and \<open>OnMessage\<close> of the tick
  goroutine, which cannot do either while it is blocked; \<open>TakeResponse\<close> is their meeting on the channel.
  Five seconds can only pass for a command while there is no response to be had.
\<close>

datatype admin_event =
    NewConnection
  | Arrive nat string
  | ConnectionClosed nat
  | Handle nat admin_env
  | Resume nat admin_env
  | Tick
  | OnMessage string
  | TakeResponse nat
  | Timeout nat
  | OnDisconnect string

definition onArrive :: "nat \<Rightarrow> string \<Rightarrow> admin \<Rightarrow> admin" where
  "onArrive c t = on_conn c (\<lambda>w.
     if \<not> ws_open w then w
     else (case decode_message t of
             Undecodable \<Rightarrow> w\<lparr>ws_open := False\<rparr>
           | NilMessage \<Rightarrow> w\<lparr>ws_queue := ws_queue w @ [None]\<rparr>
           | Decoded m \<Rightarrow> w\<lparr>ws_queue := ws_queue w @ [Some m]\<rparr>))"

definition onHandle :: "(string \<Rightarrow> bool) \<Rightarrow> nat \<Rightarrow> admin_env \<Rightarrow> admin \<Rightarrow> admin" where
  "onHandle telnet c e a =
     (if c < length (ws_conns a) \<and> ws_call (ws_conns a ! c) = Idle then
        (case ws_queue (ws_conns a ! c) of
           [] \<Rightarrow> a
         | None # q \<Rightarrow> a\<lparr>admin_crashed := True\<rparr>
         | Some req # q \<Rightarrow>
             let (f, ms, r) = dispatcher e req (config_file a)
             in finish telnet e c ms r (on_conn c (\<lambda>w. w\<lparr>ws_queue := q\<rparr>) (a\<lparr>config_file := f\<rparr>)))
      else a)"

definition onResume :: "(string \<Rightarrow> bool) \<Rightarrow> nat \<Rightarrow> admin_env \<Rightarrow> admin \<Rightarrow> admin" where
  "onResume telnet c e a =
     (if c < length (ws_conns a) then
        (case ws_call (ws_conns a ! c) of
           Answered k r \<Rightarrow> (let (ms, res) = resume k r in finish telnet e c ms res a)
         | _ \<Rightarrow> a)
      else a)"

definition onReceive :: "nat \<Rightarrow> admin \<Rightarrow> admin" where
  "onReceive c a =
     (if c < length (ws_conns a) then
        (case (ws_call (ws_conns a ! c), tick_hand a) of
           (Waiting k, Some r) \<Rightarrow> set_call c (Answered k (trim_right r)) (a\<lparr>tick_hand := None\<rparr>)
         | _ \<Rightarrow> a)
      else a)"

definition onTimeout :: "nat \<Rightarrow> admin \<Rightarrow> admin" where
  "onTimeout c a =
     (if c < length (ws_conns a) then
        (case (ws_call (ws_conns a ! c), tick_hand a) of
           (Waiting k, None) \<Rightarrow> set_call c (Answered k ''timeout'') a
         | _ \<Rightarrow> a)
      else a)"

fun admin_do :: "(string \<Rightarrow> bool) \<Rightarrow> admin_event \<Rightarrow> admin \<Rightarrow> admin" where
  "admin_do telnet NewConnection a = a\<lparr>ws_conns := ws_conns a @ [ws_conn0]\<rparr>"
| "admin_do telnet (Arrive c t) a = onArrive c t a"
| "admin_do telnet (ConnectionClosed c) a = on_conn c (\<lambda>w. w\<lparr>ws_open := False\<rparr>) a"
| "admin_do telnet (Handle c e) a = onHandle telnet c e a"
| "admin_do telnet (Resume c e) a = onResume telnet c e a"
| "admin_do telnet Tick a =
     (if tick_hand a = None then a\<lparr>wire := wire a @ outBuffer a, outBuffer := []\<rparr> else a)"
| "admin_do telnet (OnMessage r) a = (if tick_hand a = None then a\<lparr>tick_hand := Some r\<rparr> else a)"
| "admin_do telnet (TakeResponse c) a = onReceive c a"
| "admin_do telnet (Timeout c) a = onTimeout c a"
| "admin_do telnet (OnDisconnect t) a =
     (if tick_hand a = None then a\<lparr>serverConn := filter (\<lambda>u. u \<noteq> t) (serverConn a)\<rparr> else a)"

text \<open>A panic ends the process.\<close>

definition admin_act :: "(string \<Rightarrow> bool) \<Rightarrow> admin_event \<Rightarrow> admin \<Rightarrow> admin" where
  "admin_act telnet ev a = (if admin_crashed a then a else admin_do telnet ev a)"

end
