(* ===== verification/AdminContract.thy ===== *)
theory AdminContract
  imports Admin React
begin

text \<open>
  What a page and the admin process promise each other, as interfaces.  \<open>admin_contract\<close>: for requests
  of a kind, in environments of a kind, the handlers neither panic nor address an unknown server, and
  all that is sent are answers of a kind; then this holds of the whole process, with all its
  connections.  \<open>served_page\<close>: a page that only sends such requests and keeps its invariant under its
  own steps and under all such answers; then page and process are safe together, over any network.
  The pages of the console are three instances (\<open>EndToEnd\<close>, \<open>ExportSystem\<close>, \<open>GmSystem\<close>).
\<close>

section \<open>A page and the admin process\<close>

definition sent_by_admin :: "admin \<Rightarrow> web_message set" where
  "sent_by_admin a = (\<Union>w \<in> set (ws_conns a). set (ws_out w))"

text \<open>The steps of the process that are not the arrival of a frame, in such environments.\<close>

fun env_event :: "(admin_env \<Rightarrow> bool) \<Rightarrow> admin_event \<Rightarrow> bool" where
  "env_event env (Arrive c t) = False"
| "env_event env (Handle c e) = env e"
| "env_event env (Resume c e) = env e"
| "env_event env _ = True"

text \<open>
  Page and process: the page makes steps of its own, the texts it has sent (\<open>pframes\<close>) arrive at any
  connection, and messages of the process arrive at the page, in any order and any number of times.
\<close>

inductive system ::
  "(string \<Rightarrow> bool) \<Rightarrow> (admin_env \<Rightarrow> bool) \<Rightarrow> (string option \<Rightarrow> bool) \<Rightarrow> 'p \<Rightarrow> ('p \<Rightarrow> 'p \<Rightarrow> bool) \<Rightarrow>
     (string \<Rightarrow> 'p \<Rightarrow> 'p \<Rightarrow> bool) \<Rightarrow> ('p \<Rightarrow> string set) \<Rightarrow> 'p \<Rightarrow> admin \<Rightarrow> bool"
  for telnet env cfg p0 pstep precv pframes where
  start: "cfg f \<Longrightarrow> system telnet env cfg p0 pstep precv pframes p0 (admin0 f)"
| page: "system telnet env cfg p0 pstep precv pframes p a \<Longrightarrow> pstep p p'
    \<Longrightarrow> system telnet env cfg p0 pstep precv pframes p' a"
| to_page: "system telnet env cfg p0 pstep precv pframes p a \<Longrightarrow> m \<in> sent_by_admin a
    \<Longrightarrow> JSON_parse t = Inr (message_value m) \<Longrightarrow> precv t p p'
    \<Longrightarrow> system telnet env cfg p0 pstep precv pframes p' a"
| to_admin: "system telnet env cfg p0 pstep precv pframes p a \<Longrightarrow> t \<in> pframes p
    \<Longrightarrow> system telnet env cfg p0 pstep precv pframes p (admin_act telnet (Arrive c t) a)"
| internal: "system telnet env cfg p0 pstep precv pframes p a \<Longrightarrow> env_event env ev
    \<Longrightarrow> system telnet env cfg p0 pstep precv pframes p (admin_act telnet ev a)"

section \<open>What is kept, for requests, answers and continuations of a kind\<close>

fun outcome_ok ::
  "(string \<Rightarrow> bool) \<Rightarrow> (web_message \<Rightarrow> bool) \<Rightarrow> (cont \<Rightarrow> bool) \<Rightarrow> outcome \<Rightarrow> bool" where
  "outcome_ok telnet answer cont (Reply m) = answer m"
| "outcome_ok telnet answer cont (Failed err) = answer (error_message err)"
| "outcome_ok telnet answer cont Quiet = True"
| "outcome_ok telnet answer cont Panics = False"
| "outcome_ok telnet answer cont (Command ty target command k) = (known_target telnet target \<and> cont k)"

definition conn_ok ::
  "(web_message \<Rightarrow> bool) \<Rightarrow> (web_message \<Rightarrow> bool) \<Rightarrow> (cont \<Rightarrow> bool) \<Rightarrow> ws_conn \<Rightarrow> bool" where
  "conn_ok request answer cont w \<longleftrightarrow>
     (\<forall>q \<in> set (ws_queue w). \<exists>m. q = Some m \<and> request m)
     \<and> (\<forall>m \<in> set (ws_out w). answer m)
     \<and> (case ws_call w of Idle \<Rightarrow> True | Waiting k \<Rightarrow> cont k | Answered k r \<Rightarrow> cont k)"

definition admin_ok ::
  "(web_message \<Rightarrow> bool) \<Rightarrow> (web_message \<Rightarrow> bool) \<Rightarrow> (cont \<Rightarrow> bool) \<Rightarrow> (string option \<Rightarrow> bool) \<Rightarrow>
     admin \<Rightarrow> bool" where
  "admin_ok request answer cont cfg a \<longleftrightarrow>
     \<not> admin_crashed a \<and> cfg (config_file a) \<and> (\<forall>w \<in> set (ws_conns a). conn_ok request answer cont w)"

lemma admin_ok_fields [simp]:
  "admin_ok request answer cont cfg (a\<lparr>serverConn := sc\<rparr>) = admin_ok request answer cont cfg a"
  "admin_ok request answer cont cfg (a\<lparr>outBuffer := ob\<rparr>) = admin_ok request answer cont cfg a"
  "admin_ok request answer cont cfg (a\<lparr>wire := wi\<rparr>) = admin_ok request answer cont cfg a"
  "admin_ok request answer cont cfg (a\<lparr>tick_hand := th\<rparr>) = admin_ok request answer cont cfg a"
  by (simp_all add: admin_ok_def)

text \<open>A text from which a request of the kind is read.\<close>

definition requests :: "(web_message \<Rightarrow> bool) \<Rightarrow> string \<Rightarrow> bool" where
  "requests request t \<longleftrightarrow> (\<exists>m. decode_message t = Decoded m \<and> request m)"

section \<open>The server's side\<close>

locale admin_contract =
  fixes telnet :: "string \<Rightarrow> bool"
    and request :: "web_message \<Rightarrow> bool"
    and answer :: "web_message \<Rightarrow> bool"
    and cont :: "cont \<Rightarrow> bool"
    and env :: "admin_env \<Rightarrow> bool"
    and cfg :: "string option \<Rightarrow> bool"
  assumes dispatched: "request req \<Longrightarrow> env e \<Longrightarrow> cfg f \<Longrightarrow> dispatcher e req f = (f', ms, r) \<Longrightarrow>
      cfg f' \<and> (\<forall>m \<in> set ms. answer m) \<and> outcome_ok telnet answer cont r"
    and resumed: "cont k \<Longrightarrow> resume k u = (ms, r) \<Longrightarrow>
      (\<forall>m \<in> set ms. answer m) \<and> outcome_ok telnet answer cont r"
begin

abbreviation ok :: "admin \<Rightarrow> bool" where
  "ok \<equiv> admin_ok request answer cont cfg"

lemma outcome_messages_ok: "outcome_ok telnet answer cont r \<Longrightarrow> \<forall>m \<in> set (outcome_messages r). answer m"
  by (cases r) (simp_all add: outcome_messages_def)

lemma on_conn_at:
  assumes "ok a" and "c < length (ws_conns a) \<Longrightarrow> conn_ok request answer cont (f (ws_conns a ! c))"
  shows "ok (on_conn c f a)"
  using assms set_update_subset_insert[of "ws_conns a" c "f (ws_conns a ! c)"]
  by (auto simp: admin_ok_def on_conn_def)

lemma conn_nth: "ok a \<Longrightarrow> c < length (ws_conns a) \<Longrightarrow> conn_ok request answer cont (ws_conns a ! c)"
  by (simp add: admin_ok_def)

lemma on_conn_ok:
  "ok a \<Longrightarrow> (\<And>w. conn_ok request answer cont w \<Longrightarrow> conn_ok request answer cont (f w)) \<Longrightarrow> ok (on_conn c f a)"
  using conn_nth by (blast intro: on_conn_at)

lemma set_call_ok:
  assumes "ok a" and "case k of Idle \<Rightarrow> True | Waiting k \<Rightarrow> cont k | Answered k r \<Rightarrow> cont k"
  shows "ok (set_call c k a)"
  unfolding set_call_def using assms(2) by (intro on_conn_ok[OF assms(1)]) (simp add: conn_ok_def)

lemma ws_write_ok: "ok a \<Longrightarrow> \<forall>m \<in> set ms. answer m \<Longrightarrow> ok (ws_write c ms a)"
  unfolding ws_write_def by (rule on_conn_ok) (auto simp: conn_ok_def)

lemma send_ok:
  assumes "known_target telnet target" and "cont k" and "ok a"
  shows "ok (sendCommandToTarget telnet e c ty target command k a)"
proof -
  have "\<exists>a1. connectTarget telnet target a = Some a1 \<and> ok a1"
    using assms by (simp add: connectTarget_def)
  then obtain a1 where "connectTarget telnet target a = Some a1" "ok a1" by blast
  with assms(2) show ?thesis
    by (auto simp: sendCommandToTarget_def intro!: set_call_ok split: option.splits)
qed

lemma finish_ok:
  assumes "ok a" and "\<forall>m \<in> set ms. answer m" and "outcome_ok telnet answer cont r"
  shows "ok (finish telnet e c ms r a)"
proof -
  have "\<forall>m \<in> set (ms @ outcome_messages r). answer m"
    using assms(2,3) outcome_messages_ok by auto
  then have "ok (ws_write c (ms @ outcome_messages r) (set_call c Idle a))"
    by (intro ws_write_ok set_call_ok assms(1)) simp_all
  then show ?thesis
    using assms(3) by (cases r) (auto simp: finish_def Let_def send_ok)
qed

lemma handle_ok:
  assumes "ok a" and "env e"
  shows "ok (onHandle telnet c e a)"
proof (cases "c < length (ws_conns a) \<and> ws_call (ws_conns a ! c) = Idle")
  case True
  then have w: "conn_ok request answer cont (ws_conns a ! c)" using conn_nth[OF assms(1)] by blast
  show ?thesis
  proof (cases "ws_queue (ws_conns a ! c)")
    case (Cons x q)
    with w obtain req where req: "x = Some req" "request req" by (auto simp: conn_ok_def)
    obtain f ms r where r: "dispatcher e req (config_file a) = (f, ms, r)" by (cases rule: prod_cases3)
    have d: "cfg f \<and> (\<forall>m \<in> set ms. answer m) \<and> outcome_ok telnet answer cont r"
      using dispatched[OF req(2) assms(2) _ r] assms(1) by (simp add: admin_ok_def)
    then have "ok (a\<lparr>config_file := f\<rparr>)" using assms(1) by (simp add: admin_ok_def)
    then have "ok (on_conn c (\<lambda>w. w\<lparr>ws_queue := q\<rparr>) (a\<lparr>config_file := f\<rparr>))"
      using w Cons by (intro on_conn_at) (simp_all add: conn_ok_def)
    with True Cons req r d show ?thesis by (simp add: onHandle_def finish_ok)
  qed (use assms True in \<open>simp add: onHandle_def\<close>)
qed (use assms in \<open>auto simp: onHandle_def\<close>)

lemma resume_step_ok:
  assumes "ok a"
  shows "ok (onResume telnet c e a)"
proof (cases "\<exists>k r. c < length (ws_conns a) \<and> ws_call (ws_conns a ! c) = Answered k r")
  case True
  then obtain k r where k: "c < length (ws_conns a)" "ws_call (ws_conns a ! c) = Answered k r" by blast
  then have "cont k" using conn_nth[OF assms k(1)] by (simp add: conn_ok_def)
  with k assms show ?thesis
    using resumed[of k r "fst (resume k r)" "snd (resume k r)"]
    by (simp add: onResume_def case_prod_beta' finish_ok Let_def)
qed (use assms in \<open>auto simp: onResume_def split: call_state.splits\<close>)

lemma waiting_ok:
  "ok a \<Longrightarrow> c < length (ws_conns a) \<Longrightarrow> ws_call (ws_conns a ! c) = Waiting k \<Longrightarrow> cont k"
  using conn_nth by (force simp: conn_ok_def)

lemma internal_ok:
  assumes "ok a" and "env_event env ev"
  shows "ok (admin_act telnet ev a)"
proof -
  have nc: "\<not> admin_crashed a" using assms(1) by (simp add: admin_ok_def)
  show ?thesis
  proof (cases ev)
    case NewConnection
    with assms nc show ?thesis by (auto simp: admin_act_def admin_ok_def conn_ok_def ws_conn0_def)
  next
    case (ConnectionClosed c)
    have "ok (on_conn c (\<lambda>w. w\<lparr>ws_open := False\<rparr>) a)"
      by (rule on_conn_ok[OF assms(1)]) (simp add: conn_ok_def)
    with ConnectionClosed nc show ?thesis by (simp add: admin_act_def)
  next
    case (TakeResponse c)
    with assms nc waiting_ok[OF assms(1), of c] show ?thesis
      by (auto simp: admin_act_def onReceive_def intro!: set_call_ok split: call_state.splits option.splits)
  next
    case (Timeout c)
    with assms nc waiting_ok[OF assms(1), of c] show ?thesis
      by (auto simp: admin_act_def onTimeout_def intro!: set_call_ok split: call_state.splits option.splits)
  qed (use assms nc in \<open>auto simp: admin_act_def handle_ok resume_step_ok\<close>)
qed

lemma arrive_ok:
  assumes "ok a" and "requests request t"
  shows "ok (admin_act telnet (Arrive c t) a)"
proof -
  obtain m where "decode_message t = Decoded m" "request m"
    using assms(2) by (auto simp: requests_def)
  then have "ok (onArrive c t a)"
    unfolding onArrive_def by (intro on_conn_ok[OF assms(1)]) (auto simp: conn_ok_def)
  with assms(1) show ?thesis by (simp add: admin_act_def admin_ok_def)
qed

lemma start_ok: "cfg f \<Longrightarrow> ok (admin0 f)"
  by (simp add: admin_ok_def admin0_def)

lemma sent_ok: "ok a \<Longrightarrow> m \<in> sent_by_admin a \<Longrightarrow> answer m"
  by (auto simp: sent_by_admin_def admin_ok_def conn_ok_def)

end

section \<open>Both sides\<close>

locale served_page = admin_contract +
  fixes p0 :: 'p
    and pstep :: "'p \<Rightarrow> 'p \<Rightarrow> bool"
    and precv :: "string \<Rightarrow> 'p \<Rightarrow> 'p \<Rightarrow> bool"
    and pframes :: "'p \<Rightarrow> string set"
    and pinv :: "'p \<Rightarrow> bool"
  assumes initial: "pinv p0"
    and stepped: "pinv p \<Longrightarrow> pstep p p' \<Longrightarrow> pinv p'"
    and received: "pinv p \<Longrightarrow> answer m \<Longrightarrow> JSON_parse t = Inr (message_value m) \<Longrightarrow> precv t p p' \<Longrightarrow> pinv p'"
    and framed: "pinv p \<Longrightarrow> t \<in> pframes p \<Longrightarrow> requests request t"
begin

lemma system_ok: "system telnet env cfg p0 pstep precv pframes p a \<Longrightarrow> pinv p \<and> ok a"
proof (induction rule: system.induct)
  case (start f)
  then show ?case by (simp add: initial start_ok)
next
  case (page p a p')
  then show ?case using stepped by blast
next
  case (to_page p a m t p')
  then show ?case using received sent_ok by blast
next
  case (to_admin p a t c)
  then show ?case using framed arrive_ok by blast
next
  case (internal p a ev)
  then show ?case using internal_ok by blast
qed

lemma system_safe:
  assumes "system telnet env cfg p0 pstep precv pframes p a"
  shows "\<not> admin_crashed a" and "t \<in> pframes p \<Longrightarrow> \<exists>m. decode_message t = Decoded m \<and> request m"
    and "m \<in> sent_by_admin a \<Longrightarrow> answer m"
  using system_ok[OF assms] framed sent_ok by (auto simp: admin_ok_def requests_def)

end

end
