(* ===== verification/EndToEnd.thy ===== *)
theory EndToEnd
  imports Consoles ExportTable AdminContract
begin

text \<open>
  The pages together with the admin process.  Frames and answers travel through a network that may
  delay, repeat and reorder them (which covers what real connections do), and any number of
  connections and any behaviour of the game servers is allowed.
\<close>

section \<open>The debug page and the admin process\<close>

text \<open>
  The deployment: every game server that is registered has a name with a telnet address in the
  configuration, and their number is that of an array.
\<close>

definition env_ok :: "(string \<Rightarrow> bool) \<Rightarrow> admin_env \<Rightarrow> bool" where
  "env_ok telnet e \<longleftrightarrow> (\<forall>k \<in> set (en_servers e). known_target telnet k) \<and> length (en_servers e) < 2 ^ 32"

fun user_event :: "page_event \<Rightarrow> bool" where
  "user_event (Receive now t) = False"
| "user_event _ = True"

inductive debug_step :: "consoles \<Rightarrow> consoles \<Rightarrow> bool" where
  opened: "ready_of (console_net p) i = CONNECTING \<Longrightarrow> debug_step p (onopen i p)"
| closed: "ready_of (console_net p) i \<noteq> CLOSED \<Longrightarrow> debug_step p (onclose i p)"
| user: "user_event ev \<Longrightarrow> debug_step p (consoles_act ev p)"

definition debug_receive :: "string \<Rightarrow> consoles \<Rightarrow> consoles \<Rightarrow> bool" where
  "debug_receive t p p' \<longleftrightarrow> (\<exists>now. p' = consoles_act (Receive now t) p)"

definition console_texts :: "consoles \<Rightarrow> string set" where
  "console_texts p = snd ` set (frames (console_net p))"

abbreviation debug_system :: "(string \<Rightarrow> bool) \<Rightarrow> consoles \<Rightarrow> admin \<Rightarrow> bool" where
  "debug_system telnet \<equiv>
     system telnet (env_ok telnet) (\<lambda>f. True) consoles0 debug_step debug_receive console_texts"

subsection \<open>What each side keeps to\<close>

definition debug_request :: "(string \<Rightarrow> bool) \<Rightarrow> web_message \<Rightarrow> bool" where
  "debug_request telnet m \<longleftrightarrow>
     wm_type m = ''servers'' \<or> wm_type m = ''reload''
     \<or> wm_type m = ''message'' \<and> known_target telnet (wm_target m) \<and> (\<exists>d. wm_data m = Str d)"

abbreviation debug_frame :: "(string \<Rightarrow> bool) \<Rightarrow> string \<Rightarrow> bool" where
  "debug_frame telnet \<equiv> requests (debug_request telnet)"

definition debug_answer :: "(string \<Rightarrow> bool) \<Rightarrow> web_message \<Rightarrow> bool" where
  "debug_answer telnet m \<longleftrightarrow>
     wm_type m = ''servers'' \<and> (\<exists>ns. wm_data m = Arr (map Str ns) \<and> length ns < 2 ^ 32
        \<and> (\<forall>n \<in> set ns. known_target telnet n))
     \<or> (wm_type m = ''message'' \<or> wm_type m = ''reload'') \<and> (\<exists>d. wm_data m = Str d)"

definition page_ok :: "(string \<Rightarrow> bool) \<Rightarrow> consoles \<Rightarrow> bool" where
  "page_ok telnet s \<longleftrightarrow>
     (\<forall>n \<in> set (serverPanes s). \<exists>k. n = Str k \<and> known_target telnet k)
     \<and> (\<forall>q \<in> set (frames (console_net s)). debug_frame telnet (snd q))
     \<and> fst ` set (mounted s) \<subseteq> set (pane_keys s)
     \<and> (\<forall>q \<in> set (mounted s). string_field (snd q) \<and> (\<forall>e \<in> set (showData (snd q)). \<exists>u. content e = Str u))
     \<and> (\<forall>r. consoleResponse s = Some r \<longrightarrow> (\<exists>u. data r = Str u))"

fun cont_ok :: "(string \<Rightarrow> bool) \<Rightarrow> cont \<Rightarrow> bool" where
  "cont_ok telnet (ForConsole req) = (wm_type req = ''message'')"
| "cont_ok telnet (ForReload req t ts) = (wm_type req = ''reload'' \<and> (\<forall>u \<in> set ts. known_target telnet u))"
| "cont_ok telnet _ = False"

subsection \<open>The page\<close>

lemma frame_plain: "ty \<in> {''servers'', ''reload''} \<Longrightarrow> debug_frame telnet (stringify (Obj [(''type'', Str ty)]))"
  using JSON_parse_stringify[of "Obj [(''type'', Str ty)]"]
    decode_object[of "stringify (Obj [(''type'', Str ty)])" "[(''type'', Str ty)]" ty "''''" "''''"]
  by (auto simp: requests_def debug_request_def go_string_def prop_get_Cons prop_ordered_names)

lemma frame_command:
  assumes "known_target telnet tg"
  shows "debug_frame telnet
    (stringify (Obj [(''type'', Str ''message''), (''target'', Str tg), (''data'', Str d)]))"
proof -
  let ?ps = "[(''type'', Str ''message''), (''target'', Str tg), (''data'', Str d)]"
  have "JSON_parse (stringify (Obj ?ps)) = Inr (Obj ?ps)"
    by (subst JSON_parse_stringify) (simp_all add: prop_ordered_names)
  from decode_object[OF this, of "''message''" tg "''''"] assms show ?thesis
    by (auto simp: requests_def debug_request_def go_string_def go_any_def prop_get_Cons)
qed

definition good_calls :: "(string \<Rightarrow> bool) \<Rightarrow> console_call list \<Rightarrow> bool" where
  "good_calls telnet cs \<longleftrightarrow>
     (\<forall>t d. CommandSend t d \<in> set cs \<longrightarrow> (\<exists>tg u. t = Str tg \<and> known_target telnet tg \<and> d = Str u))"

lemma good_calls_simps [simp]:
  "good_calls telnet []" "good_calls telnet (Reload # cs) = good_calls telnet cs"
  "good_calls telnet (Hotfix # cs) = good_calls telnet cs"
  "good_calls telnet (CommandSend t d # cs) \<longleftrightarrow>
     (\<exists>tg u. t = Str tg \<and> known_target telnet tg \<and> d = Str u) \<and> good_calls telnet cs"
  by (auto simp: good_calls_def)

lemma page_ok_net:
  "page_ok telnet s \<Longrightarrow> (\<forall>q \<in> set (frames n). debug_frame telnet (snd q)) \<Longrightarrow> page_ok telnet (s\<lparr>console_net := n\<rparr>)"
  by (simp add: page_ok_def pane_keys_def)

lemma page_ok_frames: "page_ok telnet s \<Longrightarrow> \<forall>q \<in> set (frames (console_net s)). debug_frame telnet (snd q)"
  by (simp add: page_ok_def)

lemma page_ok_send:
  assumes "page_ok telnet s" and "debug_frame telnet t"
  shows "page_ok telnet (s\<lparr>console_net := or_keep (console_net s) (send c t (console_net s))\<rparr>)"
  using page_ok_frames[OF assms(1)] assms(2) frames_or_keep_send[of "console_net s" c t]
  by (intro page_ok_net[OF assms(1)]) auto

lemma page_ok_emit:
  "page_ok telnet s \<Longrightarrow> frames (emit e (console_net s)) = frames (console_net s)
     \<Longrightarrow> page_ok telnet (s\<lparr>console_net := emit e (console_net s)\<rparr>)"
  by (rule page_ok_net) (auto simp: page_ok_frames)

lemma page_ok_calls: "page_ok telnet s \<Longrightarrow> good_calls telnet cs \<Longrightarrow> page_ok telnet (console_calls cs s)"
proof (induction cs s rule: console_calls.induct)
  case (2 cs s)
  then show ?case using page_ok_emit[of telnet s ReloadList] by simp
next
  case (3 t d cs s)
  obtain tg u where d: "t = Str tg" "known_target telnet tg" "d = Str u"
    using "3.prems"(2) by auto
  have "page_ok telnet (onConsoleCommand t d s)"
    using d page_ok_send[OF "3.prems"(1) frame_command[OF d(2)]] page_ok_emit[OF "3.prems"(1)]
    by (simp add: onConsoleCommand_def split: option.splits)
  with 3 show ?case by simp
next
  case (4 cs s)
  have "page_ok telnet (onHotfix s)"
    using page_ok_emit[OF "4.prems"(1), of "ConfirmBox b" for b]
    by (simp add: onHotfix_def page_ok_def pane_keys_def)
  with 4 show ?case by simp
qed simp

lemma pane_name_known:
  assumes "page_ok telnet s" and "k \<in> set (pane_keys s)"
  shows "\<exists>tg. pane_name k s = Str tg \<and> known_target telnet tg"
proof -
  from assms(2) obtain n where "n \<in> set (serverPanes s)" "js_string n = k"
    by (auto simp: pane_keys_def)
  then obtain m where m: "find (\<lambda>n. js_string n = k) (serverPanes s) = Some m"
    using find_Some_ex[of n "serverPanes s" "\<lambda>n. js_string n = k"] by blast
  have "m \<in> set (serverPanes s)" using find_in_set[OF m] by simp
  with assms(1) m show ?thesis by (auto simp: page_ok_def pane_name_def)
qed

definition history_ok :: "debug_console \<Rightarrow> bool" where
  "history_ok d \<longleftrightarrow> string_field d \<and> (\<forall>e \<in> set (showData d). \<exists>u. content e = Str u)"

lemma history_response:
  assumes "history_ok d" and "\<And>a. r = Some a \<Longrightarrow> \<exists>u. data a = Str u"
  shows "history_ok (fst (responseEffect nm now r d))"
proof (cases r)
  case (Some a)
  then obtain u where "data a = Str u" using assms(2) by blast
  with Some assms(1) show ?thesis
    by (simp add: history_ok_def string_field_def responseEffect_def addNewContent_def Let_def)
qed (use assms(1) in \<open>simp add: responseEffect_def\<close>)

lemma history_console_step:
  assumes "history_ok d"
  shows "history_ok (fst (console_step nm ev d))"
proof -
  have "string_field (fst (console_step nm ev d))"
    using assms by (simp add: history_ok_def string_field_step)
  moreover have "\<forall>e \<in> set (showData (fst (console_step nm ev d))). \<exists>u. content e = Str u"
    using assms
    by (cases ev; cases "fieldValue d")
      (auto simp: history_ok_def string_field_def console_handlers addNewContent_SEND Let_def)
  ultimately show ?thesis by (simp add: history_ok_def)
qed

lemma page_ok_mounted:
  assumes "page_ok telnet s" and "fst ` set ms \<subseteq> set (pane_keys s)" and "\<forall>q \<in> set ms. history_ok (snd q)"
    and "\<And>r. cr = Some r \<Longrightarrow> \<exists>u. data r = Str u"
  shows "page_ok telnet (s\<lparr>consoleResponse := cr, mounted := ms\<rparr>)"
  using assms by (auto simp: page_ok_def history_ok_def pane_keys_def)

lemma page_ok_parts:
  assumes "page_ok telnet s"
  shows "\<forall>q \<in> set (mounted s). history_ok (snd q)" "fst ` set (mounted s) \<subseteq> set (pane_keys s)"
    "consoleResponse s = Some r \<Longrightarrow> \<exists>u. data r = Str u"
  using assms by (auto simp: page_ok_def history_ok_def)

lemma page_ok_response:
  assumes ok: "page_ok telnet s" and "\<exists>u. data r = Str u"
  shows "page_ok telnet (setConsoleResponse now r s)"
proof -
  let ?ms = "map (\<lambda>(k, d). (k, fst (responseEffect (pane_name k s) now (Some r) d))) (mounted s)"
  have "page_ok telnet (s\<lparr>consoleResponse := Some r, mounted := ?ms\<rparr>)"
    using page_ok_parts[OF ok] assms(2)
    by (intro page_ok_mounted[OF ok]) (fastforce intro: history_response)+
  moreover have "good_calls telnet (concat (map (\<lambda>(k, d). snd (responseEffect (pane_name k s) now (Some r) d)) (mounted s)))"
    by (auto simp: good_calls_def)
  ultimately have "page_ok telnet (console_calls
      (concat (map (\<lambda>(k, d). snd (responseEffect (pane_name k s) now (Some r) d)) (mounted s)))
      (s\<lparr>consoleResponse := Some r, mounted := ?ms\<rparr>))"
    by (simp add: page_ok_calls)
  then show ?thesis
    by (simp add: setConsoleResponse_def Let_def comp_def case_prod_beta')
qed

lemma page_ok_servers:
  assumes "page_ok telnet s" and "\<forall>n \<in> set ns. known_target telnet n"
  shows "page_ok telnet (setServerPanes (map Str ns) s)"
  using assms by (auto simp: page_ok_def setServerPanes_def pane_keys_def)

lemma page_ok_show:
  assumes ok: "page_ok telnet s"
  shows "page_ok telnet (showTab now k s)"
proof (cases "k \<in> set (pane_keys s) \<and> k \<notin> fst ` set (mounted s)")
  case True
  let ?r = "responseEffect (pane_name k s) now (consoleResponse s) debug_console0"
  have "history_ok (fst ?r)"
    using page_ok_parts(3)[OF ok]
    by (intro history_response) (auto simp: history_ok_def debug_console0_def string_field_def)
  then have "page_ok telnet (s\<lparr>consoleResponse := consoleResponse s, mounted := mounted s @ [(k, fst ?r)]\<rparr>)"
    using page_ok_parts[OF ok] True by (intro page_ok_mounted[OF ok]) auto
  then have "page_ok telnet (s\<lparr>mounted := mounted s @ [(k, fst ?r)]\<rparr>)" by simp
  then have "page_ok telnet (console_calls (snd ?r) (s\<lparr>mounted := mounted s @ [(k, fst ?r)]\<rparr>))"
    by (rule page_ok_calls) (auto simp: good_calls_def)
  with True show ?thesis by (simp add: showTab_def case_prod_beta' Let_def)
qed (use ok in \<open>auto simp: showTab_def\<close>)

lemma page_ok_in_pane:
  assumes ok: "page_ok telnet s"
  shows "page_ok telnet (inPane k ev s)"
proof (cases "map_of (mounted s) k")
  case (Some d)
  let ?r = "console_step (pane_name k s) ev d"
  have kd: "(k, d) \<in> set (mounted s)" using Some by (rule map_of_SomeD)
  then have d: "history_ok d" and key: "k \<in> set (pane_keys s)" using page_ok_parts(1,2)[OF ok] by force+
  have "page_ok telnet (s\<lparr>consoleResponse := consoleResponse s, mounted := AList.update k (fst ?r) (mounted s)\<rparr>)"
    using page_ok_parts[OF ok] history_console_step[OF d] set_AList_update[of k "fst ?r" "mounted s"] key
    by (intro page_ok_mounted[OF ok]) fastforce+
  then have "page_ok telnet (s\<lparr>mounted := AList.update k (fst ?r) (mounted s)\<rparr>)" by simp
  moreover have "good_calls telnet (snd ?r)"
    using calls_ok_step[of d "pane_name k s" ev] d pane_name_known[OF ok key]
    by (fastforce simp: good_calls_def calls_ok_def history_ok_def)
  ultimately have "page_ok telnet (console_calls (snd ?r) (s\<lparr>mounted := AList.update k (fst ?r) (mounted s)\<rparr>))"
    by (rule page_ok_calls)
  with Some show ?thesis by (simp add: inPane_def case_prod_beta' Let_def)
qed (use ok in \<open>simp add: inPane_def\<close>)

lemma page_ok_user: "page_ok telnet s \<Longrightarrow> user_event ev \<Longrightarrow> page_ok telnet (consoles_act ev s)"
  by (cases ev) (auto simp: page_ok_show page_ok_in_pane onOk_def page_ok_send frame_plain
      split: option.splits)

text \<open>The page handles every answer of the admin process without an exception.\<close>

lemma receive_answer:
  assumes "debug_answer telnet m" and "JSON_parse t = Inr (message_value m)"
  shows "\<exists>s'. onWebSocketMessage now t s = Inr s' \<and> (page_ok telnet s \<longrightarrow> page_ok telnet s')"
proof -
  consider ns where "wm_type m = ''servers''" "wm_data m = Arr (map Str ns)" "length ns < 2 ^ 32"
      "\<forall>n \<in> set ns. known_target telnet n"
    | d where "wm_type m = ''message'' \<or> wm_type m = ''reload''" "wm_data m = Str d"
    using assms(1) by (auto simp: debug_answer_def)
  then show ?thesis
  proof cases
    case 1
    with assms(2) have "onWebSocketMessage now t s = Inr (setServerPanes (map Str ns) s)"
      by (intro receive_servers) (auto simp: message_value_def prop_get_Cons)
    with 1(4) show ?thesis by (simp add: page_ok_servers)
  next
    case 2
    with assms(2) have "onWebSocketMessage now t s =
        Inr (setConsoleResponse now \<lparr>name = Str (wm_target m), data = Str d\<rparr> s)"
      by (auto simp: onWebSocketMessage_def message_value_def prop_get_Cons)
    then show ?thesis by (simp add: page_ok_response)
  qed
qed

subsection \<open>The admin process\<close>

lemma reload_ok:
  "wm_type req = ''reload'' \<Longrightarrow> \<forall>u \<in> set ts. known_target telnet u \<Longrightarrow>
     outcome_ok telnet (debug_answer telnet) (cont_ok telnet) (reload_next req ts)"
  by (cases ts) auto

lemma dispatcher_ok:
  assumes "debug_request telnet req" and "env_ok telnet e"
  shows "\<exists>r. dispatcher e req f = (f, [], r) \<and> outcome_ok telnet (debug_answer telnet) (cont_ok telnet) r"
  using assms
  by (auto simp: debug_request_def dispatcher_def onQueryServerList_def onReloadCommand_def
      onConsoleMessage_def env_ok_def debug_answer_def web_message0_def intro!: reload_ok)

lemma resume_ok:
  assumes "cont_ok telnet k" and "resume k r = (ms, res)"
  shows "(\<forall>m \<in> set ms. debug_answer telnet m) \<and> outcome_ok telnet (debug_answer telnet) (cont_ok telnet) res"
  using assms by (cases k) (auto simp: debug_answer_def text_reply_def web_message0_def intro: reload_ok)

subsection \<open>Both together\<close>

lemma page_ok_opened:
  assumes "page_ok telnet p"
  shows "page_ok telnet (onopen i p)"
proof -
  have "page_ok telnet (p\<lparr>console_net := mark i OPEN (console_net p), console_client := Some i\<rparr>)"
    using assms by (simp add: page_ok_def pane_keys_def)
  from page_ok_send[OF this frame_plain[of "''servers''"]] show ?thesis
    by (simp add: onopen_def clientEffect_def)
qed

interpretation debug: served_page telnet "debug_request telnet" "debug_answer telnet" "cont_ok telnet"
  "env_ok telnet" "\<lambda>f. True" consoles0 debug_step debug_receive console_texts "page_ok telnet"
  for telnet
proof unfold_locales
  fix req e f f' ms r
  assume "debug_request telnet req" "env_ok telnet e" "dispatcher e req f = (f', ms, r)"
  then show "True \<and> (\<forall>m \<in> set ms. debug_answer telnet m)
      \<and> outcome_ok telnet (debug_answer telnet) (cont_ok telnet) r"
    using dispatcher_ok[of telnet req e f] by auto
next
  show "page_ok telnet consoles0" by (simp add: page_ok_def consoles0_def startWebSocket_def)
next
  fix p p'
  assume "page_ok telnet p" "debug_step p p'"
  from this(2,1) show "page_ok telnet p'"
  proof cases
    case (closed i)
    with \<open>page_ok telnet p\<close> show ?thesis
      by (simp add: onclose_def startWebSocket_def page_ok_def pane_keys_def)
  qed (simp_all add: page_ok_opened page_ok_user)
next
  fix p m t p'
  assume p: "page_ok telnet p" and m: "debug_answer telnet m" "JSON_parse t = Inr (message_value m)"
    and "debug_receive t p p'"
  then obtain now where p': "p' = consoles_act (Receive now t) p" by (auto simp: debug_receive_def)
  show "page_ok telnet p'" using receive_answer[OF m, of now p] p by (auto simp: p')
next
  fix p t
  assume "page_ok telnet p" "t \<in> console_texts p"
  then show "requests (debug_request telnet) t" using page_ok_frames by (auto simp: console_texts_def)
qed (use resume_ok in blast)

lemmas debug_system_ok = debug.system_ok

subsection \<open>Properties\<close>


text \<open>
  C28.  With the admin process as its server, everything the debug page holds has the type it is used
  with: the names of the processes are strings, each console on the page belongs to one of them, and
  every entry of a history is a text (which React can show; it would fail on an object).
\<close>

theorem debug_system_types:
  assumes "debug_system telnet p a"
  shows "(n \<in> set (serverPanes p) \<longrightarrow> (\<exists>k. n = Str k \<and> known_target telnet k))
    \<and> ((k, d) \<in> set (mounted p) \<longrightarrow> Str k \<in> set (serverPanes p)
        \<and> (e \<in> set (showData d) \<longrightarrow> (\<exists>u. content e = Str u)))"
proof -
  have ok: "page_ok telnet p" using debug_system_ok[OF assms] by simp
  have "Str k \<in> set (serverPanes p)" if "(k, d) \<in> set (mounted p)"
  proof -
    have "fst (k, d) \<in> set (pane_keys p)" using page_ok_parts(2)[OF ok] that by blast
    then have "k \<in> set (pane_keys p)" by simp
    then obtain n where n: "n \<in> set (serverPanes p)" "js_string n = k" by (auto simp: pane_keys_def)
    with ok obtain j where "n = Str j" by (auto simp: page_ok_def)
    with n show ?thesis by simp
  qed
  moreover have "\<exists>u. content e = Str u" if "(k, d) \<in> set (mounted p)" "e \<in> set (showData d)"
  proof -
    have "history_ok (snd (k, d))" using page_ok_parts(1)[OF ok] that(1) by blast
    with that(2) show ?thesis by (simp add: history_ok_def)
  qed
  moreover have "\<exists>k. n = Str k \<and> known_target telnet k" if "n \<in> set (serverPanes p)"
    using ok that by (simp add: page_ok_def)
  ultimately show ?thesis by blast
qed

text \<open>A run: the page connects, asks for the servers, and gets a list of one.\<close>

definition an_env :: admin_env where
  "an_env = \<lparr>en_servers = [''game.1.1''], en_stubs = [], en_entity = (\<lambda>_. None), en_write = None,
     en_table = \<lparr>te_open = None, te_write = None, te_stat = (\<lambda>_. Directory),
       te_unmarshal_error = (\<lambda>_. ''error''), te_order = (\<lambda>r. r), te_run = (\<lambda>_. Output '''' ''''),
       te_combined = (\<lambda>_. Inr ''''), te_merge = (@), te_decode = (\<lambda>s. s), te_format = (\<lambda>_. '''')\<rparr>\<rparr>"

definition a_telnet :: "string \<Rightarrow> bool" where
  "a_telnet s \<longleftrightarrow> s = ''game_1''"

definition ask_servers :: string where
  "ask_servers = stringify (Obj [(''type'', Str ''servers'')])"

definition run_page :: consoles where
  "run_page = onopen 0 consoles0"

definition run_admin :: admin where
  "run_admin = admin_act a_telnet (Handle 0 an_env) (admin_act a_telnet (Arrive 0 ask_servers)
     (admin_act a_telnet NewConnection (admin0 None)))"

definition servers_answer :: web_message where
  "servers_answer = web_message0\<lparr>wm_type := ''servers'', wm_data := Arr [Str ''game.1.1'']\<rparr>"

lemma run_admin_state: "ws_conns run_admin = [ws_conn0\<lparr>ws_out := [servers_answer]\<rparr>]"
proof -
  have "JSON_parse ask_servers = Inr (Obj [(''type'', Str ''servers'')])"
    unfolding ask_servers_def by (subst JSON_parse_stringify) (simp_all add: prop_ordered_names)
  from decode_object[OF this, of "''servers''" "''''" "''''"]
  have "decode_message ask_servers = Decoded (web_message0\<lparr>wm_type := ''servers''\<rparr>)"
    by (simp add: go_string_def go_any_def prop_get_Cons web_message0_def)
  then show ?thesis
    by (simp add: run_admin_def admin_act_def admin0_def onArrive_def on_conn_def onHandle_def
        dispatcher_def onQueryServerList_def an_env_def finish_def ws_write_def set_call_def ws_conn0_def
        web_message0_def outcome_messages_def servers_answer_def)
qed

lemma run_system: "debug_system a_telnet run_page run_admin"
proof -
  have k: "known_target a_telnet ''game.1.1''" by (simp add: known_target_def a_telnet_def)
  have "debug_system a_telnet run_page (admin0 None)"
    unfolding run_page_def
    by (rule system.page[OF system.start], simp, rule debug_step.opened)
      (simp add: consoles0_def startWebSocket_def ready_of_def)
  moreover have "ask_servers \<in> console_texts run_page"
    by (simp add: console_texts_def run_page_def ask_servers_def onopen_def clientEffect_def consoles0_def
        startWebSocket_def send_def ready_of_def)
  ultimately show ?thesis
    unfolding run_admin_def
    by (intro system.internal system.to_admin) (auto simp: env_ok_def an_env_def k)
qed

definition run_page2 :: consoles where
  "run_page2 = consoles_act (Receive ''t'' (message_text servers_answer)) run_page"

lemma servers_answer_parse: "JSON_parse (message_text servers_answer) = Inr (message_value servers_answer)"
  by (simp add: message_text_parse servers_answer_def web_message0_def message_value_def)

lemma run_system2: "debug_system a_telnet run_page2 run_admin"
  unfolding run_page2_def
  by (rule system.to_page[OF run_system _ servers_answer_parse])
    (auto simp: sent_by_admin_def run_admin_state debug_receive_def)

lemma run_page2_panes: "serverPanes run_page2 = [Str ''game.1.1'']"
  using servers_answer_parse
  by (simp add: run_page2_def receive_servers[of _ _ "[Str ''game.1.1'']"] message_value_def prop_get_Cons
      servers_answer_def web_message0_def setServerPanes_def)


theorem debug_system_types_witness:
  "known_target a_telnet ''game.1.1'' \<and> serverPanes run_page2 = [Str ''game.1.1'']"
  using debug_system_types[OF run_system2, of "Str ''game.1.1''"] run_page2_panes by simp

end
