(* ===== verification/CommandOrder.thy ===== *)
theory CommandOrder
  imports Admin
begin

text \<open>
  Which command an answer belongs to.  The admin process has one channel for the responses of all
  commands and no number on any of them, so a response is handed to whichever command waits next.
  Here one page sends console commands to one game server, and the server answers every command it
  gets, in order; only how long everything takes is open.
\<close>

section \<open>One page, one game server\<close>

text \<open>
  \<open>ol_read\<close>: how many commands the server has answered; \<open>ol_replies\<close>: its answers that the admin
  process has not read yet, each read as one message; \<open>ol_late\<close>: for every command that has ended,
  whether it ended by its timeout.
\<close>

record order_state =
  ol_admin :: admin
  ol_read :: nat
  ol_replies :: "string list"
  ol_late :: "bool list"

definition order0 :: "string option \<Rightarrow> order_state" where
  "order0 f = \<lparr>ol_admin = (admin0 f)\<lparr>ws_conns := [ws_conn0]\<rparr>, ol_read = 0, ol_replies = [], ol_late = []\<rparr>"

definition the_conn :: "order_state \<Rightarrow> ws_conn" where
  "the_conn s = ws_conns (ol_admin s) ! 0"

definition console_command :: "string \<Rightarrow> string \<Rightarrow> bool" where
  "console_command target t \<longleftrightarrow>
     (\<exists>m d. decode_message t = Decoded m \<and> wm_type m = ''message'' \<and> wm_target m = target \<and> wm_data m = Str d)"

text \<open>\<open>answer i\<close> is what the server answers to the command number \<open>i\<close>.\<close>

inductive order_step ::
  "(string \<Rightarrow> bool) \<Rightarrow> string \<Rightarrow> (nat \<Rightarrow> string) \<Rightarrow> order_state \<Rightarrow> order_state \<Rightarrow> bool"
  for telnet target answer where
  request: "console_command target t \<Longrightarrow>
    order_step telnet target answer s (s\<lparr>ol_admin := admin_act telnet (Arrive 0 t) (ol_admin s)\<rparr>)"
| handle: "en_write e = None \<Longrightarrow> ev \<in> {Handle 0 e, Resume 0 e, Tick} \<Longrightarrow>
    order_step telnet target answer s (s\<lparr>ol_admin := admin_act telnet ev (ol_admin s)\<rparr>)"
| server: "ol_read s < length (wire (ol_admin s)) \<Longrightarrow>
    order_step telnet target answer s
      (s\<lparr>ol_replies := ol_replies s @ [answer (ol_read s)], ol_read := Suc (ol_read s)\<rparr>)"
| message: "ol_replies s = r # rs \<Longrightarrow> tick_hand (ol_admin s) = None \<Longrightarrow>
    order_step telnet target answer s
      (s\<lparr>ol_admin := admin_act telnet (OnMessage r) (ol_admin s), ol_replies := rs\<rparr>)"
| response: "ws_call (the_conn s) = Waiting k \<Longrightarrow> tick_hand (ol_admin s) = Some r \<Longrightarrow>
    order_step telnet target answer s
      (s\<lparr>ol_admin := admin_act telnet (TakeResponse 0) (ol_admin s), ol_late := ol_late s @ [False]\<rparr>)"
| timeout: "ws_call (the_conn s) = Waiting k \<Longrightarrow> tick_hand (ol_admin s) = None \<Longrightarrow>
    order_step telnet target answer s
      (s\<lparr>ol_admin := admin_act telnet (Timeout 0) (ol_admin s), ol_late := ol_late s @ [True]\<rparr>)"

inductive order_reach ::
  "(string \<Rightarrow> bool) \<Rightarrow> string \<Rightarrow> (nat \<Rightarrow> string) \<Rightarrow> order_state \<Rightarrow> bool"
  for telnet target answer where
  start: "order_reach telnet target answer (order0 f)"
| step: "order_reach telnet target answer s \<Longrightarrow> order_step telnet target answer s s'
    \<Longrightarrow> order_reach telnet target answer s'"

section \<open>The invariant\<close>

definition late_before :: "nat \<Rightarrow> bool list \<Rightarrow> nat" where
  "late_before i l = length (filter id (take i l))"

text \<open>The text that the page gets for the command number \<open>i\<close>.\<close>

definition shown_answer :: "(nat \<Rightarrow> string) \<Rightarrow> bool list \<Rightarrow> nat \<Rightarrow> string" where
  "shown_answer answer l i =
     (if l ! i then ''timeout'' else trim_right (answer (i - late_before i l)))"

lemma late_before_append: "i \<le> length l \<Longrightarrow> late_before i (l @ l') = late_before i l"
  by (simp add: late_before_def)

lemma shown_answer_append: "i < length l \<Longrightarrow> shown_answer answer (l @ l') i = shown_answer answer l i"
  by (simp add: shown_answer_def late_before_append nth_append)

lemma shown_answers_append:
  "n \<le> length l \<Longrightarrow> map (shown_answer answer (l @ l')) [0..<n] = map (shown_answer answer l) [0..<n]"
  by (simp add: shown_answer_append)

text \<open>How many commands were answered, the number of the response the next one gets.\<close>

definition answered :: "bool list \<Rightarrow> nat" where
  "answered l = length (filter Not l)"

lemma answered_late: "answered l = length l - late_before (length l) l"
  using sum_length_filter_compl[of id l] by (simp add: answered_def late_before_def id_def Not_eq_iff)

definition started :: "order_state \<Rightarrow> nat" where
  "started s = length (wire (ol_admin s)) + length (outBuffer (ol_admin s))"

definition call_inv :: "(nat \<Rightarrow> string) \<Rightarrow> order_state \<Rightarrow> bool" where
  "call_inv answer s \<longleftrightarrow>
     (let n = length (ws_out (the_conn s)) in
      case ws_call (the_conn s) of
        Idle \<Rightarrow> started s = length (ol_late s) \<and> n = length (ol_late s)
      | Waiting k \<Rightarrow> (\<exists>req. k = ForConsole req) \<and> started s = Suc (length (ol_late s)) \<and> n = length (ol_late s)
      | Answered k r \<Rightarrow> (\<exists>req. k = ForConsole req) \<and> started s = length (ol_late s)
          \<and> Suc n = length (ol_late s) \<and> r = shown_answer answer (ol_late s) n)"

definition order_inv :: "string \<Rightarrow> (nat \<Rightarrow> string) \<Rightarrow> order_state \<Rightarrow> bool" where
  "order_inv target answer s \<longleftrightarrow>
     length (ws_conns (ol_admin s)) = 1 \<and> \<not> admin_crashed (ol_admin s) \<and> ws_open (the_conn s)
     \<and> (\<forall>q \<in> set (ws_queue (the_conn s)). \<exists>m d. q = Some m \<and> wm_type m = ''message''
          \<and> wm_target m = target \<and> wm_data m = Str d)
     \<and> call_inv answer s
     \<and> map wm_data (ws_out (the_conn s)) =
          map (\<lambda>i. Str (shown_answer answer (ol_late s) i)) [0..<length (ws_out (the_conn s))]
     \<and> ol_read s \<le> length (wire (ol_admin s))
     \<and> (\<forall>r. tick_hand (ol_admin s) = Some r \<longrightarrow> r = answer (answered (ol_late s)))
     \<and> ol_replies s = map answer
         [answered (ol_late s) + (if tick_hand (ol_admin s) = None then 0 else 1)..<ol_read s]
     \<and> answered (ol_late s) + (if tick_hand (ol_admin s) = None then 0 else 1) \<le> ol_read s"

lemma inv_conn: "order_inv target answer s \<Longrightarrow> \<exists>w. ws_conns (ol_admin s) = [w] \<and> the_conn s = w"
  by (auto simp: order_inv_def the_conn_def length_Suc_conv)

lemmas admin_steps = admin_act_def onArrive_def on_conn_def set_call_def ws_write_def finish_def
  outcome_messages_def Let_def

lemma inv_request:
  assumes "order_inv target answer s" and "console_command target t"
  shows "order_inv target answer (s\<lparr>ol_admin := admin_act telnet (Arrive 0 t) (ol_admin s)\<rparr>)"
proof -
  obtain w where w: "ws_conns (ol_admin s) = [w]" "the_conn s = w" using inv_conn[OF assms(1)] by blast
  obtain m d where m: "decode_message t = Decoded m" "wm_type m = ''message''" "wm_target m = target"
    "wm_data m = Str d"
    using assms(2) by (auto simp: console_command_def)
  from assms(1) w m show ?thesis
    by (auto simp: order_inv_def call_inv_def started_def the_conn_def admin_steps split: call_state.splits)
qed

lemma inv_handle:
  assumes "order_inv target answer s" and "known_target telnet target" and "en_write e = None"
  shows "order_inv target answer (s\<lparr>ol_admin := admin_act telnet (Handle 0 e) (ol_admin s)\<rparr>)"
proof -
  obtain w where w: "ws_conns (ol_admin s) = [w]" "the_conn s = w" using inv_conn[OF assms(1)] by blast
  have nc: "\<not> admin_crashed (ol_admin s)" using assms(1) by (simp add: order_inv_def)
  show ?thesis
  proof (cases "ws_call w = Idle \<and> ws_queue w \<noteq> []")
    case True
    then obtain x q where q: "ws_queue w = x # q" by (cases "ws_queue w") auto
    then obtain m d where m: "x = Some m" "wm_type m = ''message''" "wm_target m = target" "wm_data m = Str d"
      using assms(1) w by (auto simp: order_inv_def)
    have dis: "dispatcher e m f = (f, [], Command 1 target d (ForConsole m))" for f
      using m by (simp add: dispatcher_def onConsoleMessage_def)
    from assms w True q m nc show ?thesis
      by (auto simp: order_inv_def call_inv_def started_def the_conn_def admin_steps onHandle_def dis
          sendCommandToTarget_def connectTarget_def)
  next
    case False
    with w nc have "admin_act telnet (Handle 0 e) (ol_admin s) = ol_admin s"
      by (auto simp: admin_act_def onHandle_def)
    with assms(1) show ?thesis by simp
  qed
qed

lemma inv_resume:
  assumes "order_inv target answer s"
  shows "order_inv target answer (s\<lparr>ol_admin := admin_act telnet (Resume 0 e) (ol_admin s)\<rparr>)"
proof -
  obtain w where w: "ws_conns (ol_admin s) = [w]" "the_conn s = w" using inv_conn[OF assms(1)] by blast
  have nc: "\<not> admin_crashed (ol_admin s)" using assms(1) by (simp add: order_inv_def)
  show ?thesis
  proof (cases "\<exists>k r. ws_call w = Answered k r")
    case True
    then obtain k r where k: "ws_call w = Answered k r" by blast
    then obtain req where "k = ForConsole req"
      using assms(1) w by (auto simp: order_inv_def call_inv_def Let_def)
    moreover have "Suc (length (ws_out w)) = length (ol_late s)"
      using assms(1) w k by (simp add: order_inv_def call_inv_def Let_def)
    then have "[0..<length (ol_late s)] = [0..<length (ws_out w)] @ [length (ws_out w)]"
      by (simp flip: \<open>Suc (length (ws_out w)) = length (ol_late s)\<close>)
    ultimately show ?thesis
      using assms w k nc
      by (auto simp: order_inv_def call_inv_def started_def the_conn_def admin_steps onResume_def text_reply_def)
  next
    case False
    with w nc have "admin_act telnet (Resume 0 e) (ol_admin s) = ol_admin s"
      by (auto simp: admin_act_def onResume_def split: call_state.splits)
    with assms(1) show ?thesis by simp
  qed
qed

lemma inv_end:
  assumes inv: "order_inv target answer s" and call: "ws_call (the_conn s) = Waiting k"
    and "late \<and> tick_hand (ol_admin s) = None \<and> ev = Timeout 0
      \<or> \<not> late \<and> tick_hand (ol_admin s) \<noteq> None \<and> ev = TakeResponse 0"
  shows "order_inv target answer (s\<lparr>ol_admin := admin_act telnet ev (ol_admin s), ol_late := ol_late s @ [late]\<rparr>)"
proof -
  obtain w where w: "ws_conns (ol_admin s) = [w]" "the_conn s = w" using inv_conn[OF inv] by blast
  have nc: "\<not> admin_crashed (ol_admin s)" using inv by (simp add: order_inv_def)
  have n: "length (ws_out w) = length (ol_late s)" "\<exists>req. k = ForConsole req"
    using inv call w by (auto simp: order_inv_def call_inv_def Let_def)
  let ?l = "ol_late s @ [late]"
  have ans: "answered (ol_late s) = length (ol_late s) - late_before (length (ol_late s)) (ol_late s)"
    by (rule answered_late)
  have shown: "shown_answer answer ?l (length (ol_late s)) =
      (if late then ''timeout'' else trim_right (answer (answered (ol_late s))))"
    by (simp add: shown_answer_def late_before_append ans)
  have keep: "map (\<lambda>i. Str (shown_answer answer ?l i)) [0..<length (ol_late s)] =
      map (\<lambda>i. Str (shown_answer answer (ol_late s) i)) [0..<length (ol_late s)]"
    by (simp add: shown_answer_append)
  have count: "answered ?l = answered (ol_late s) + (if late then 0 else 1)" by (simp add: answered_def)
  show ?thesis
    using assms w n nc call keep shown count
    by (auto simp: order_inv_def call_inv_def started_def the_conn_def admin_act_def on_conn_def
        set_call_def onTimeout_def onReceive_def Let_def)
qed

lemma order_inv_step:
  assumes "order_inv target answer s" and "known_target telnet target"
    and "order_step telnet target answer s s'"
  shows "order_inv target answer s'"
  using assms(3)
proof (cases rule: order_step.cases)
  case (request t)
  with assms show ?thesis by (simp add: inv_request)
next
  case (handle e ev)
  have "order_inv target answer (s\<lparr>ol_admin := admin_act telnet Tick (ol_admin s)\<rparr>)"
    using assms(1)
    by (auto simp: order_inv_def call_inv_def started_def the_conn_def admin_act_def Let_def
        split: call_state.splits)
  with handle assms show ?thesis by (auto simp: inv_handle inv_resume)
next
  case server
  with assms(1) show ?thesis
    by (auto simp: order_inv_def call_inv_def started_def the_conn_def Let_def split: call_state.splits)
next
  case (message r rs)
  let ?n = "answered (ol_late s)"
  have rep: "r # rs = map answer [?n..<ol_read s]" and nc: "\<not> admin_crashed (ol_admin s)"
    using assms(1) message by (auto simp: order_inv_def)
  then have "?n < ol_read s" by (cases "?n < ol_read s") auto
  with rep have "r = answer ?n" "rs = map answer [Suc ?n..<ol_read s]" by (simp_all add: upt_conv_Cons)
  with assms(1) message nc \<open>?n < ol_read s\<close> show ?thesis
    by (auto simp: order_inv_def call_inv_def started_def the_conn_def admin_act_def Let_def
        split: call_state.splits)
next
  case (response k r)
  with inv_end[OF assms(1), of k False] show ?thesis by simp
next
  case (timeout k)
  with inv_end[OF assms(1), of k True] show ?thesis by simp
qed

lemma order_inv_reach:
  assumes "known_target telnet target" and "order_reach telnet target answer s"
  shows "order_inv target answer s"
  using assms(2)
proof (induction rule: order_reach.induct)
  case (start f)
  show ?case
    by (simp add: order_inv_def order0_def admin0_def the_conn_def ws_conn0_def call_inv_def started_def answered_def)
qed (use order_inv_step[OF _ assms(1)] in blast)

section \<open>Properties\<close>


text \<open>A run: the first of two commands is answered too late.\<close>

definition command_text :: "string \<Rightarrow> string" where
  "command_text d = message_text \<lparr>wm_type = ''message'', wm_target = ''game.1.1'', wm_command = '''', wm_data = Str d\<rparr>"

lemma command_text_decode: "decode_message (command_text d) =
    Decoded \<lparr>wm_type = ''message'', wm_target = ''game.1.1'', wm_command = '''', wm_data = Str d\<rparr>"
proof -
  have "JSON_parse (command_text d) = Inr (Obj [(''type'', Str ''message''),
      (''target'', Str ''game.1.1''), (''command'', Str ''''), (''data'', Str d)])"
    by (simp add: command_text_def message_text_parse)
  from decode_object[OF this, of "''message''" "''game.1.1''" "''''"] show ?thesis
    by (simp add: go_string_def go_any_def prop_get_Cons)
qed

definition game_telnet :: "string \<Rightarrow> bool" where
  "game_telnet s \<longleftrightarrow> s = ''game_1''"

definition quiet_env :: admin_env where
  "quiet_env = \<lparr>en_servers = [], en_stubs = [], en_entity = (\<lambda>_. None), en_write = None,
     en_table = \<lparr>te_open = None, te_write = None, te_stat = (\<lambda>_. Missing),
       te_unmarshal_error = (\<lambda>_. ''''), te_order = (\<lambda>r. r), te_run = (\<lambda>_. Output '''' ''''),
       te_combined = (\<lambda>_. Inr ''''), te_merge = (@), te_decode = (\<lambda>s. s), te_format = (\<lambda>_. '''')\<rparr>\<rparr>"

definition two_answers :: "nat \<Rightarrow> string" where
  "two_answers i = (if i = 0 then ''one'' else ''two'')"

definition act_order :: "admin_event \<Rightarrow> order_state \<Rightarrow> order_state" where
  "act_order ev s = s\<lparr>ol_admin := admin_act game_telnet ev (ol_admin s)\<rparr>"

definition late_run1 :: order_state where
  "late_run1 = act_order Tick (act_order (Handle 0 quiet_env) (act_order (Arrive 0 (command_text ''1'')) (order0 None)))"

definition late_run2 :: order_state where
  "late_run2 = act_order (Resume 0 quiet_env) ((act_order (Timeout 0) late_run1)\<lparr>ol_late := [True]\<rparr>)"

definition late_run3 :: order_state where
  "late_run3 = (act_order (OnMessage ''one'')
     (late_run2\<lparr>ol_read := 1, ol_replies := [''one'']\<rparr>))\<lparr>ol_replies := []\<rparr>"

definition late_run4 :: order_state where
  "late_run4 = act_order (Handle 0 quiet_env) (act_order (Arrive 0 (command_text ''2'')) late_run3)"

definition late_run :: order_state where
  "late_run = act_order (Resume 0 quiet_env) ((act_order (TakeResponse 0) late_run4)\<lparr>ol_late := [True, False]\<rparr>)"

lemma game_known: "known_target game_telnet ''game.1.1''"
  by (simp add: known_target_def game_telnet_def)

lemma order_act:
  "order_reach game_telnet ''game.1.1'' two_answers s \<Longrightarrow> ev \<in> {Handle 0 quiet_env, Resume 0 quiet_env, Tick}
     \<Longrightarrow> order_reach game_telnet ''game.1.1'' two_answers (act_order ev s)"
  "order_reach game_telnet ''game.1.1'' two_answers s
     \<Longrightarrow> order_reach game_telnet ''game.1.1'' two_answers (act_order (Arrive 0 (command_text d)) s)"
proof -
  assume r: "order_reach game_telnet ''game.1.1'' two_answers s"
  have "en_write quiet_env = None" by (simp add: quiet_env_def)
  then show "ev \<in> {Handle 0 quiet_env, Resume 0 quiet_env, Tick} \<Longrightarrow>
      order_reach game_telnet ''game.1.1'' two_answers (act_order ev s)"
    unfolding act_order_def by (blast intro: order_reach.step[OF r] order_step.handle)
  show "order_reach game_telnet ''game.1.1'' two_answers (act_order (Arrive 0 (command_text d)) s)"
    unfolding act_order_def
    by (rule order_reach.step[OF r], rule order_step.request)
      (simp add: console_command_def command_text_decode)
qed

lemmas run_steps = admin_steps act_order_def onHandle_def onResume_def onTimeout_def onReceive_def
  dispatcher_def onConsoleMessage_def sendCommandToTarget_def connectTarget_def game_known
  command_text_decode text_reply_def

definition one_command :: "string \<Rightarrow> web_message" where
  "one_command d = \<lparr>wm_type = ''message'', wm_target = ''game.1.1'', wm_command = '''', wm_data = Str d\<rparr>"

lemma late_run1_state: "late_run1 = \<lparr>ol_admin = (admin0 None)\<lparr>serverConn := [''game.1.1''],
     wire := [(''game.1.1'', telnet_text 1 ''1'')],
     ws_conns := [ws_conn0\<lparr>ws_call := Waiting (ForConsole (one_command ''1''))\<rparr>]\<rparr>,
     ol_read = 0, ol_replies = [], ol_late = []\<rparr>"
  by (simp add: late_run1_def order0_def admin0_def ws_conn0_def run_steps quiet_env_def one_command_def)

lemma late_run2_state: "late_run2 = late_run1\<lparr>ol_admin := (ol_admin late_run1)\<lparr>ws_conns :=
     [ws_conn0\<lparr>ws_out := [one_command ''timeout'']\<rparr>]\<rparr>, ol_late := [True]\<rparr>"
  by (simp add: late_run2_def late_run1_state admin0_def ws_conn0_def run_steps one_command_def)

lemma late_run4_state: "late_run4 = late_run2\<lparr>ol_admin := (ol_admin late_run2)\<lparr>tick_hand := Some ''one'',
     outBuffer := [(''game.1.1'', telnet_text 1 ''2'')],
     ws_conns := [ws_conn0\<lparr>ws_call := Waiting (ForConsole (one_command ''2'')),
       ws_out := [one_command ''timeout'']\<rparr>]\<rparr>, ol_read := 1\<rparr>"
  by (simp add: late_run4_def late_run3_def late_run2_state late_run1_state admin0_def ws_conn0_def run_steps
      quiet_env_def one_command_def)

lemma late_run_out: "ws_out (the_conn late_run) = [one_command ''timeout'', one_command ''one'']"
    "ol_late late_run = [True, False]"
  by (simp_all add: late_run_def late_run4_state late_run2_state late_run1_state admin0_def ws_conn0_def run_steps
      the_conn_def one_command_def trim_right_def)

lemma late_run_reach: "order_reach game_telnet ''game.1.1'' two_answers late_run"
proof -
  let ?R = "order_reach game_telnet ''game.1.1'' two_answers"
  have 1: "?R late_run1"
    unfolding late_run1_def by (intro order_act) (simp_all add: order_reach.start)
  have "?R ((act_order (Timeout 0) late_run1)\<lparr>ol_late := [True]\<rparr>)"
    using order_reach.step[OF 1 order_step.timeout[of late_run1]]
    by (simp add: act_order_def late_run1_state the_conn_def admin0_def)
  then have 2: "?R late_run2" unfolding late_run2_def by (intro order_act) simp_all
  have "?R (late_run2\<lparr>ol_read := 1, ol_replies := [''one'']\<rparr>)"
    using order_reach.step[OF 2 order_step.server[of late_run2]]
    by (simp add: late_run2_state late_run1_state admin0_def two_answers_def)
  from order_reach.step[OF this order_step.message[of _ "''one''" "[]"]]
  have "?R late_run3"
    by (simp add: late_run3_def act_order_def late_run2_state late_run1_state admin0_def)
  then have 4: "?R late_run4" unfolding late_run4_def by (intro order_act) simp_all
  have "?R ((act_order (TakeResponse 0) late_run4)\<lparr>ol_late := [True, False]\<rparr>)"
    using order_reach.step[OF 4 order_step.response[of late_run4]]
    by (simp add: act_order_def late_run4_state late_run2_state late_run1_state the_conn_def admin0_def)
  then show ?thesis unfolding late_run_def by (intro order_act) simp_all
qed


end
