(* ===== verification/JsonPrefix.thy ===== *)
theory JsonPrefix
  imports Json
begin

text \<open>
  A text that was cut off.  What the parser reads of a text does not depend on what follows it (but for
  a number, which may go on); hence no proper prefix of the text of an object is itself JSON, and a
  reader notices that it did not get the whole text.
\<close>

lemma dropWhile_append_rest: "dropWhile P s \<noteq> [] \<Longrightarrow> dropWhile P (s @ x) = dropWhile P s @ x"
  by (induction s) auto

lemma expect_append: "expect c s = Some r \<Longrightarrow> expect c (s @ x) = Some (r @ x)"
  by (cases "dropWhile is_space s") (auto simp: expect_def dropWhile_append_rest split: if_splits)

lemma expect_None_append: "expect c s = None \<Longrightarrow> dropWhile is_space s \<noteq> [] \<Longrightarrow> expect c (s @ x) = None"
  by (cases "dropWhile is_space s") (auto simp: expect_def dropWhile_append_rest split: if_splits)

lemma hex4_append: "hex4 r = Some (u, r') \<Longrightarrow> hex4 (r @ x) = Some (u, r' @ x)"
  by (cases r rule: hex4.cases) (auto split: option.splits)

lemma hex_value_quote [simp]: "hex_value dquote = None"
  by (simp add: hex_value_def is_digit_def)

lemma hex4_quote_append:
  assumes "hex4 s = None" and "dquote \<in> set s"
  shows "hex4 (s @ x) = None"
proof -
  consider a b c d r where "s = a # b # c # d # r" | a where "s = [a]" | a b where "s = [a, b]"
    | a b c where "s = [a, b, c]"
    using assms(2) by (cases s rule: hex4.cases) auto
  then show ?thesis
  proof cases
    case 1
    with assms(1) show ?thesis by (auto split: option.splits)
  qed (use assms(2) in \<open>cases x rule: hex4.cases; auto split: option.splits\<close>)+
qed

lemma surrogate_append:
  assumes "dquote \<in> set r"
  shows "surrogate_pair u (r @ x) = map_option (apsnd (\<lambda>r'. r' @ x)) (surrogate_pair u r)"
proof (cases "length r < 2")
  case True
  with assms have "r = [dquote]" by (cases r) auto
  then show ?thesis by (simp add: surrogate_pair_def)
next
  case False
  then obtain a b s where r: "r = a # b # s" by (cases r; cases "tl r") auto
  show ?thesis
  proof (cases "0xD800 \<le> u \<and> u < 0xDC00 \<and> a = backslash \<and> b = CHR ''u''")
    case True
    with assms r have q: "dquote \<in> set s" by auto
    from True r show ?thesis
      using hex4_append[of s] hex4_quote_append[OF _ q]
      by (cases "hex4 s") (auto simp: surrogate_pair_def)
  qed (auto simp: surrogate_pair_def r)
qed

lemma hex4_set: "hex4 r = Some (u, r') \<Longrightarrow> set r' \<subseteq> set r"
  by (cases r rule: hex4.cases) (auto split: option.splits)

lemma surrogate_set: "surrogate_pair u r = Some (n, r') \<Longrightarrow> set r' \<subseteq> set r"
  using hex4_set[of "drop 2 r"] set_drop_subset[of 2 r]
  by (fastforce simp: surrogate_pair_def split: if_splits option.splits)

lemma unicode_set: "unicode_escape r = Some (u, r') \<Longrightarrow> set r' \<subseteq> set r"
  using hex4_set[of r] surrogate_set by (fastforce simp: unicode_escape_def split: option.splits)

lemma unicode_append:
  assumes "unicode_escape r = Some (u, r')" and "dquote \<in> set r'"
  shows "unicode_escape (r @ x) = Some (u, r' @ x)"
proof -
  obtain v s where v: "hex4 r = Some (v, s)" using assms(1) by (auto simp: unicode_escape_def split: option.splits)
  have "dquote \<in> set s"
    using assms v surrogate_set[of v s] by (auto simp: unicode_escape_def split: option.splits)
  from surrogate_append[OF this, of v x] hex4_append[OF v, of x] v assms(1) show ?thesis
    by (auto simp: unicode_escape_def split: option.splits)
qed

lemma parse_chars_quote: "parse_chars s = Some (t, r) \<Longrightarrow> dquote \<in> set s"
proof (induction s arbitrary: t r rule: parse_chars.induct)
  case (2 c cs)
  then show ?case using unicode_set by (fastforce split: if_splits list.splits option.splits)
qed simp

lemma parse_chars_append: "parse_chars s = Some (t, r) \<Longrightarrow> parse_chars (s @ x) = Some (t, r @ x)"
proof (induction s arbitrary: t r rule: parse_chars.induct)
  case (2 c cs)
  then show ?case
    by (auto simp: unicode_append parse_chars_quote split: if_splits list.splits option.splits)
qed simp

lemma expect_Some_rest: "expect c s = Some r \<Longrightarrow> dropWhile is_space s \<noteq> []"
  by (auto simp: expect_def simp del: dropWhile_eq_Nil_conv split: list.splits)

lemma parse_word_append: "parse_word w v s = Some (u, r) \<Longrightarrow> parse_word w v (s @ x) = Some (u, r @ x)"
proof -
  assume p: "parse_word w v s = Some (u, r)"
  then have t: "take (length w) s = w" by (simp add: parse_word_def split: if_splits)
  then have "length w \<le> length s" by (metis length_take min.cobounded1)
  with p t show ?thesis by (simp add: parse_word_def)
qed

lemma parse_number_append:
  assumes "parse_number s = Some (v, r)" and "r \<noteq> []"
  shows "parse_number (s @ x) = Some (v, r @ x)"
proof -
  have *: "takeWhile is_digit (t @ x) = takeWhile is_digit t \<and> dropWhile is_digit (t @ x) = dropWhile is_digit t @ x"
    if "dropWhile is_digit t \<noteq> []" for t
    using that by (induction t) auto
  show ?thesis
    using assms *
    by (auto simp: parse_number_def Let_def split: list.splits if_splits)
qed

fun is_number :: "jsval \<Rightarrow> bool" where
  "is_number (Num n) = True"
| "is_number _ = False"

lemma parse_value_rest: "parse_value f s = Some p \<Longrightarrow> dropWhile is_space s \<noteq> []"
  by (cases f) (auto simp: parse_value.simps(2) simp del: dropWhile_eq_Nil_conv split: list.splits)

lemma parse_items_rest: "parse_items f s = Some p \<Longrightarrow> dropWhile is_space s \<noteq> []"
  using parse_value_rest by (cases f) (fastforce simp: parse_items.simps(2) split: option.splits)+

lemma parse_members_rest: "parse_members f s = Some p \<Longrightarrow> dropWhile is_space s \<noteq> []"
  using expect_Some_rest by (cases f) (fastforce simp: parse_members.simps(2) bind_eq_Some_conv split: option.splits)+

lemma parse_append:
  "parse_value f s = Some (v, r) \<Longrightarrow> r \<noteq> [] \<or> \<not> is_number v \<Longrightarrow> parse_value f (s @ x) = Some (v, r @ x)"
  "parse_items f s = Some (vs, r) \<Longrightarrow> parse_items f (s @ x) = Some (vs, r @ x)"
  "parse_members f s = Some (ps, r) \<Longrightarrow> parse_members f (s @ x) = Some (ps, r @ x)"
proof (induction f s and f s and f s arbitrary: v r and vs r and ps r
    rule: parse_value_parse_items_parse_members.induct)
  case (2 f s)
  then obtain c t where ct: "dropWhile is_space s = c # t"
    by (auto simp: parse_value.simps(2) split: list.splits)
  then have d: "dropWhile is_space (s @ x) = c # t @ x" by (simp add: dropWhile_append_rest)
  have num: "parse_number t' = Some (v', r') \<Longrightarrow> is_number v'" for t' v' r'
    by (auto simp: parse_number_def Let_def split: list.splits if_splits)
  note ap = expect_append parse_chars_append parse_word_append[of _ _ "_ # _", simplified]
    parse_number_append[of "_ # _", simplified]
  consider "c = CHR ''{''" | "c = CHR ''[''" | "c \<noteq> CHR ''{''" "c \<noteq> CHR ''[''" by blast
  then show ?case
  proof cases
    case 1
    show ?thesis
    proof (cases "expect CHR ''}'' t")
      case None
      with "2.prems" 1 ct obtain ps where ps: "parse_members f t = Some (ps, r)" "v = Obj (prop_literal ps)"
        by (auto simp: parse_value.simps(2))
      have "expect CHR ''}'' (t @ x) = None"
        by (rule expect_None_append[OF None parse_members_rest[OF ps(1)]])
      with "2.IH"(1)[OF ct 1 None ps(1)] 1 d ps(2) show ?thesis by (simp add: parse_value.simps(2))
    qed (use "2.prems" 1 ct d expect_append in \<open>auto simp: parse_value.simps(2)\<close>)
  next
    case 2
    show ?thesis
    proof (cases "expect CHR '']'' t")
      case None
      with "2.prems" 2 ct obtain vs where vs: "parse_items f t = Some (vs, r)" "v = Arr vs"
        by (auto simp: parse_value.simps(2))
      have "expect CHR '']'' (t @ x) = None"
        by (rule expect_None_append[OF None parse_items_rest[OF vs(1)]])
      with "2.IH"(2)[OF ct _ 2 None vs(1)] 2 d vs(2) show ?thesis by (simp add: parse_value.simps(2))
    qed (use "2.prems" 2 ct d expect_append in \<open>auto simp: parse_value.simps(2)\<close>)
  next
    case 3
    with "2.prems" ct d ap num show ?thesis
      by (fastforce simp: parse_value.simps(2) split: if_splits)
  qed
next
  case (4 f s)
  then obtain v r1 where v: "parse_value f s = Some (v, r1)"
    by (auto simp: parse_items.simps(2) split: option.splits)
  show ?case
  proof (cases "expect CHR '','' r1")
    case None
    with "4.prems" v have e: "expect CHR '']'' r1 = Some r" "vs = [v]" by (auto simp: parse_items.simps(2))
    have r1: "dropWhile is_space r1 \<noteq> []" by (rule expect_Some_rest[OF e(1)])
    then have "r1 \<noteq> []" by auto
    with "4.IH"(1)[OF v] expect_None_append[OF None r1] expect_append[OF e(1)] e(2) show ?thesis
      by (simp add: parse_items.simps(2))
  next
    case (Some r2)
    with "4.prems" v obtain ws where ws: "parse_items f r2 = Some (ws, r)" "vs = v # ws"
      by (auto simp: parse_items.simps(2))
    have "r1 \<noteq> []" using Some by (auto simp: expect_def)
    with "4.IH"(1)[OF v] "4.IH"(2)[OF v _ Some ws(1)] expect_append[OF Some] ws(2) show ?thesis
      by (simp add: parse_items.simps(2))
  qed
next
  case (6 f s)
  then obtain q k r1 where k: "expect dquote s = Some q" "parse_chars q = Some (k, r1)"
    by (auto simp: parse_members.simps(2) bind_eq_Some_conv split: option.splits)
  with 6 obtain q1 v r2 where v: "expect CHR '':'' r1 = Some q1" "parse_value f q1 = Some (v, r2)"
    by (auto simp: parse_members.simps(2) bind_eq_Some_conv split: option.splits)
  note k' = expect_append[OF k(1), of x] parse_chars_append[OF k(2), of x] expect_append[OF v(1), of x]
  have b: "Option.bind (expect dquote s) parse_chars = Some (k, r1)" using k by simp
  have b1: "Option.bind (expect CHR '':'' r1) (parse_value f) = Some (v, r2)" using v by simp
  show ?case
  proof (cases "expect CHR '','' r2")
    case None
    with "6.prems" k v have e: "expect CHR ''}'' r2 = Some r" "ps = [(k, v)]"
      by (auto simp: parse_members.simps(2))
    have r2: "dropWhile is_space r2 \<noteq> []" by (rule expect_Some_rest[OF e(1)])
    then have "r2 \<noteq> []" by auto
    with v(1) "6.IH"(1)[OF b _ _ v(2)] expect_None_append[OF None r2] expect_append[OF e(1)] e(2) k' show ?thesis
      by (simp add: parse_members.simps(2))
  next
    case (Some r3)
    with "6.prems" k v obtain qs where qs: "parse_members f r3 = Some (qs, r)" "ps = (k, v) # qs"
      by (auto simp: parse_members.simps(2))
    have "r2 \<noteq> []" using Some by (auto simp: expect_def)
    with v(1) "6.IH"(1)[OF b _ _ v(2)] "6.IH"(2)[OF b _ b1 _ Some qs(1)] expect_append[OF Some] qs(2) k' show ?thesis
      by (simp add: parse_members.simps(2))
  qed
qed (simp_all)

text \<open>Text after a value that is no number is an error, if it does not end with a blank.\<close>

lemma JSON_parse_longer:
  assumes "JSON_parse p = Inr w" and "\<not> is_number w" and "y \<noteq> []" and "\<not> is_space (last y)"
  shows "JSON_parse (p @ y) = Inl SyntaxError"
proof -
  obtain r where r: "parse_value (2 * length p + 1) p = Some (w, r)"
    using assms(1) by (auto simp: JSON_parse_def split: option.splits if_splits)
  have "parse_value (2 * length (p @ y) + 1) p = Some (w, r)"
    using r parse_value_fuel[of p "2 * length (p @ y) + 1"] by simp
  then have "parse_value (2 * length (p @ y) + 1) (p @ y) = Some (w, r @ y)"
    using assms(2) by (intro parse_append(1)) simp_all
  moreover have "dropWhile is_space (r @ y) \<noteq> []"
    using assms(3,4) by (auto simp: dropWhile_eq_Nil_conv)
  ultimately show ?thesis by (simp add: JSON_parse_def)
qed

lemma JSON_parse_cut:
  assumes "JSON_parse t = Inr v" and "n < length t" and "\<not> is_space (last t)"
    and "JSON_parse (take n t) = Inr w"
  shows "is_number w"
proof (rule ccontr)
  assume "\<not> is_number w"
  moreover have "drop n t \<noteq> []" "last (drop n t) = last t" using assms(2) by simp_all
  ultimately have "JSON_parse (take n t @ drop n t) = Inl SyntaxError"
    using assms(3,4) by (intro JSON_parse_longer) simp_all
  with assms(1) show False by simp
qed

lemma last_stringify_Obj: "last (stringify (Obj ps)) = CHR ''}''"
  by (simp add: stringify.simps(8) last_append)

text \<open>The text of an object, cut off anywhere, is not the text of an object, nor null.\<close>

lemma object_cut:
  assumes "js_wf (Obj ps)" and "n < length (stringify (Obj ps))"
    and "JSON_parse (take n (stringify (Obj ps))) = Inr w"
  shows "is_number w"
  by (rule JSON_parse_cut[OF JSON_parse_stringify[OF assms(1)] assms(2) _ assms(3)])
    (simp add: last_stringify_Obj is_space_def)

end
