(* ===== verification/ExportEndToEnd.thy ===== *)
theory ExportEndToEnd
  imports ExportTable Admin JsonPrefix
begin

text \<open>
  The export page together with the admin process: saving the configuration, showing it again, and
  running the exporter.
\<close>

section \<open>Requests and answers\<close>

text \<open>What the admin process does with one frame of the page.\<close>

definition table_request :: "admin_env \<Rightarrow> string \<Rightarrow> string option \<Rightarrow> table_result option" where
  "table_request e t f =
     (case decode_message t of Decoded m \<Rightarrow> Some (dispatcher e m f) | _ \<Rightarrow> None)"

definition sent_request :: "string \<Rightarrow> jsval \<Rightarrow> web_message" where
  "sent_request ty d = web_message0\<lparr>wm_type := ty, wm_data := d\<rparr>"

lemma decode_frame:
  "decode_message (stringify (Obj [(''type'', Str ty), (''data'', Str d)])) = Decoded (sent_request ty (Str d))"
  "decode_message (stringify (Obj [(''type'', Str ty)])) = Decoded (sent_request ty Null)"
proof -
  have "JSON_parse (stringify (Obj [(''type'', Str ty), (''data'', Str d)])) =
      Inr (Obj [(''type'', Str ty), (''data'', Str d)])"
    "JSON_parse (stringify (Obj [(''type'', Str ty)])) = Inr (Obj [(''type'', Str ty)])"
    by (subst JSON_parse_stringify; simp add: prop_ordered_names)+
  then show "decode_message (stringify (Obj [(''type'', Str ty), (''data'', Str d)])) =
      Decoded (sent_request ty (Str d))"
    "decode_message (stringify (Obj [(''type'', Str ty)])) = Decoded (sent_request ty Null)"
    by (simp_all add: decode_message_def go_string_def go_any_def prop_get_Cons sent_request_def web_message0_def)
qed

definition config_text_of :: "string \<Rightarrow> string \<Rightarrow> string \<Rightarrow> string \<Rightarrow> string" where
  "config_text_of p q r u = stringify (config_values p q r u)"

definition config_entries :: "string \<Rightarrow> string \<Rightarrow> string \<Rightarrow> string \<Rightarrow> (string \<times> string) list" where
  "config_entries p q r u = [(''export_cmd'', p), (''excel_path'', q), (''export_client_path'', r),
     (''export_server_path'', u)]"

lemma config_parse: "JSON_parse (config_text_of p q r u) = Inr (config_values p q r u)"
  by (simp add: config_text_of_def JSON_parse_stringify)

lemma config_map: "go_string_map (config_text_of p q r u) = Some (config_entries p q r u)"
  by (simp add: go_string_map_def config_parse config_entries_def) (simp add: config_values_def cmd_names)

section \<open>Saving the configuration\<close>

definition is_directory :: "admin_env \<Rightarrow> string \<Rightarrow> bool" where
  "is_directory e path \<longleftrightarrow> te_stat (en_table e) path \<in> {Directory, StatError}"

lemma check_config:
  assumes "\<And>r. set (te_order (en_table e) r) = set r"
  shows "check_paths (en_table e) (te_order (en_table e) (config_entries p q r u)) = None \<longleftrightarrow>
    is_directory e p \<and> is_directory e q \<and> is_directory e r \<and> is_directory e u"
  by (auto simp: check_paths_None checkPath_None assms config_entries_def is_directory_def)


section \<open>Showing the configuration\<close>

definition config_of :: "string \<Rightarrow> string \<Rightarrow> string \<Rightarrow> string \<Rightarrow> exportTableConfig" where
  "config_of p q r u = \<lparr>export_cmd = Str p, excel_path = Str q, export_client_path = Str r, export_server_path = Str u\<rparr>"

text \<open>
  C26.  A saved configuration is shown again, exactly as it was entered, if its text has at most 2048
  bytes.  A longer one is lost for the page: the admin process reads only its first 2048 bytes, finds
  that they are no JSON, and answers with an empty configuration, which the page shows as four
  empty fields.
\<close>

theorem config_shown_up_to_2048:
  assumes "te_open (en_table e) = None"
  shows "\<exists>m. table_request e (stringify (Obj [(''type'', Str cmdGetTableConfig)]))
        (Some (config_text_of p q r u)) = Some (Some (config_text_of p q r u), [], Reply m)
    \<and> (\<forall>now t s. carries t m \<longrightarrow> exportConfig (export_act (ReceiveExport now t) s) =
      Some (if length (config_text_of p q r u) \<le> 2048 then config_of p q r u else config_of [] [] [] []))"
proof -
  let ?t = "config_text_of p q r u"
  let ?b = "read_config ?t"
  have short: "?b = ?t \<longleftrightarrow> length ?t \<le> 2048" by (simp add: json_prefix_short read_size_def)
  have map: "go_is_map ?b \<longleftrightarrow> length ?t \<le> 2048"
  proof (cases "length ?t \<le> 2048")
    case True
    with short show ?thesis by (simp add: go_is_map_def config_parse) (simp add: config_values_def)
  next
    case False
    let ?ps = "[(exportCmdName, Str p), (excelPathName, Str q), (exportClientPathName, Str r), (exportServerPathName, Str u)]"
    have "js_wf (Obj ?ps)" using config_values_wf(1) by (simp only: config_values_def)
    then have "JSON_parse ?b = Inr w \<Longrightarrow> is_number w" for w
      using object_cut[of ?ps 2048 w] False
      by (simp add: config_text_of_def config_values_def read_config_def read_size_def)
    with False show ?thesis
      by (fastforce simp: go_is_map_def split: sum.splits jsval.splits)
  qed
  have "?t \<noteq> []" by (simp add: config_text_of_def config_values_def stringify.simps(8))
  then have nonempty: "?b \<noteq> []" by (simp add: read_config_def read_size_def)
  let ?m = "sent_request cmdGetTableConfig (Str (if length ?t \<le> 2048 then ?t else stringify (Obj [])))"
  have "table_request e (stringify (Obj [(''type'', Str cmdGetTableConfig)])) (Some ?t) = Some (Some ?t, [], Reply ?m)"
    using assms map short nonempty
    by (auto simp: table_request_def decode_frame dispatcher_def sent_request_def web_message0_def cmd_names
        onGetExportTableConfig_def opened_file_def Let_def)
  moreover have "exportConfig (export_act (ReceiveExport now t) s) =
      Some (if length ?t \<le> 2048 then config_of p q r u else config_of [] [] [] [])"
    if "carries t ?m" for now t s
  proof -
    have "JSON_parse (stringify (Obj [])) = Inr (Obj [])"
      by (subst JSON_parse_stringify) simp_all
    with that show ?thesis
      by (auto simp: carries_def message_value_def onExportMessage_def sent_request_def web_message0_def
          prop_get_Cons cmd_names config_parse config_values_def config_field_def js_or_def config_of_def)
  qed
  ultimately show ?thesis by blast
qed

text \<open>Where the exporter is run in the examples: one directory, and a program that prints three lines.\<close>

definition export_world :: admin_env where
  "export_world = \<lparr>en_servers = [], en_stubs = [], en_entity = (\<lambda>_. None), en_write = None,
     en_table = \<lparr>te_open = None, te_write = None,
       te_stat = (\<lambda>d. if d = ''dir'' then Directory else Missing),
       te_unmarshal_error = (\<lambda>_. ''error''), te_order = (\<lambda>r. r),
       te_run = (\<lambda>_. Output (''a.xls'' @ [CHR 0x0A] @ ''b.xls'' @ [CHR 0x0A] @ ''rest'') (''warning'' @ [CHR 0x0A])),
       te_combined = (\<lambda>_. Inr []), te_merge = (@), te_decode = (\<lambda>l. l), te_format = (\<lambda>_. [])\<rparr>\<rparr>"


theorem config_shown_up_to_2048_witness:
  "\<exists>m. table_request export_world (stringify (Obj [(''type'', Str cmdGetTableConfig)]))
     (Some (config_text_of ''dir'' ''dir'' ''dir'' ''dir'')) =
       Some (Some (config_text_of ''dir'' ''dir'' ''dir'' ''dir''), [], Reply m)"
  using config_shown_up_to_2048[of export_world "''dir''" "''dir''" "''dir''" "''dir''"]
  by (auto simp: export_world_def)

section \<open>Running the exporter\<close>

definition exporter_lines :: "table_env \<Rightarrow> string \<Rightarrow> string \<Rightarrow> string list" where
  "exporter_lines e out err = map (te_decode e) (te_merge e (full_lines out) (full_lines err))"

definition line_message :: "string \<Rightarrow> web_message" where
  "line_message l = sent_request ''exportTable'' (Str l)"

lemma carries_line: "carries t (line_message l) \<Longrightarrow> output_message t (Str l)"
  by (auto simp: carries_def output_message_def line_message_def sent_request_def web_message0_def
      message_value_def prop_get_Cons)

lemma carries_lines:
  "list_all2 (\<lambda>p m. carries (snd p) m) ts (map line_message ls)
     \<Longrightarrow> list_all2 (\<lambda>p d. output_message (snd p) d) ts (map Str ls)"
  by (auto simp: list_all2_map2 carries_line elim: list_all2_mono)

lemma config_lookup:
  "map_value (config_entries p q r u) ''export_cmd'' = p"
  "map_value (config_entries p q r u) ''excel_path'' = q"
  "map_value (config_entries p q r u) ''export_client_path'' = r"
  "map_value (config_entries p q r u) ''export_server_path'' = u"
  by (simp_all add: map_value_def config_entries_def)

lemma export_request:
  assumes "te_open (en_table e) = None" and "length (config_text_of p q r u) \<le> 2048"
    and "p \<noteq> ''''" and "is_directory e q" and "r \<noteq> ''''" and "u \<noteq> ''''"
    and "te_run (en_table e) (export_command (config_entries p q r u)) = Output out err"
  shows "table_request e (stringify (Obj [(''type'', Str cmdExportTable)])) (Some (config_text_of p q r u)) =
    Some (Some (config_text_of p q r u), map line_message (exporter_lines (en_table e) out err), Reply (line_message ''''))"
proof -
  let ?t = "config_text_of p q r u"
  have read: "read_config ?t = ?t" using assms(2) by (simp add: json_prefix_short read_size_def)
  have "?t \<noteq> []" by (simp add: config_text_of_def config_values_def stringify.simps(8))
  moreover have "checkPath (en_table e) ''excel_path'' q = None"
    using assms(4) by (simp add: checkPath_None is_directory_def)
  ultimately show ?thesis
    using assms(1,3,5,6,7) read
    by (simp add: table_request_def decode_frame dispatcher_def sent_request_def web_message0_def cmd_names
        onExportTable_def opened_file_def config_map config_lookup run_export_def Let_def line_message_def
        exporter_lines_def comp_def)
qed

text \<open>
  C27.  With a usable configuration, pressing the export button runs the exporter with the four values
  of the configuration, and what the page then shows is its output: every line of it that is not
  empty, in the order in which the lines arrived, nothing from earlier exports, and nothing for the
  final message.  A last line that does not end with a line feed is not among them.
\<close>

theorem export_shows_output:
  assumes "table_client s = Some c" and "ready_of (table_net s) c = OPEN"
    and "te_open (en_table e) = None" and "length (config_text_of p q r u) \<le> 2048"
    and "p \<noteq> ''''" and "is_directory e q" and "r \<noteq> ''''" and "u \<noteq> ''''"
    and "te_run (en_table e) (export_command (config_entries p q r u)) = Output out err"
  shows "\<exists>text ms m. frames (table_net (export_act ClickExport s)) = frames (table_net s) @ [(c, text)]
    \<and> table_request e text (Some (config_text_of p q r u)) = Some (Some (config_text_of p q r u), ms, Reply m)
    \<and> (\<forall>ts. list_all2 (\<lambda>x m. carries (snd x) m) ts (ms @ [m]) \<longrightarrow>
        map line_content (resultData (receive_all ts (export_act ClickExport s))) =
          map Str (filter (\<lambda>l. l \<noteq> '''') (exporter_lines (en_table e) out err)))"
proof (intro exI conjI allI impI)
  let ?lines = "exporter_lines (en_table e) out err"
  show "frames (table_net (export_act ClickExport s)) =
      frames (table_net s) @ [(c, stringify (Obj [(''type'', Str cmdExportTable)]))]"
    using assms(1,2) by (simp add: doExportTable_def tableSend_def send_open)
  show "table_request e (stringify (Obj [(''type'', Str cmdExportTable)])) (Some (config_text_of p q r u)) =
      Some (Some (config_text_of p q r u), map line_message ?lines, Reply (line_message ''''))"
    using assms by (intro export_request)
  fix ts :: "(string \<times> string) list"
  assume "list_all2 (\<lambda>p m. carries (snd p) m) ts (map line_message ?lines @ [line_message ''''])"
  then have "list_all2 (\<lambda>p m. carries (snd p) m) ts (map line_message (?lines @ ['''']))" by simp
  then have "list_all2 (\<lambda>p d. output_message (snd p) d) ts (map Str (?lines @ ['''']))"
    by (rule carries_lines)
  then have "map line_content (resultData (receive_all ts (export_act ClickExport s))) =
      filter has_output (map Str (?lines @ ['''']))"
    using receive_all_log[of ts _ "export_act ClickExport s"] by (simp add: doExportTable_def)
  also have "\<dots> = map Str (filter (\<lambda>l. l \<noteq> '''') ?lines)"
    by (simp add: filter_map comp_def has_output_def)
  finally show "map line_content (resultData (receive_all ts (export_act ClickExport s))) =
      map Str (filter (\<lambda>l. l \<noteq> '''') ?lines)" .
qed

theorem export_shows_output_witness:
  "\<exists>ms m. table_request export_world (stringify (Obj [(''type'', Str cmdExportTable)]))
      (Some (config_text_of ''dir'' ''dir'' ''dir'' ''dir'')) =
        Some (Some (config_text_of ''dir'' ''dir'' ''dir'' ''dir''), ms, Reply m)
    \<and> exporter_lines (en_table export_world) (''a.xls'' @ [CHR 0x0A] @ ''b.xls'' @ [CHR 0x0A] @ ''rest'')
        (''warning'' @ [CHR 0x0A]) = [''a.xls'' @ [CHR 0x0A], ''b.xls'' @ [CHR 0x0A], ''warning'' @ [CHR 0x0A]]"
proof -
  have n: "length (config_text_of ''dir'' ''dir'' ''dir'' ''dir'') \<le> 2048"
    unfolding config_text_of_def config_values_def cmd_names by code_simp
  have w: "te_open (en_table export_world) = None" "is_directory export_world ''dir''"
    "te_run (en_table export_world) x =
       Output (''a.xls'' @ [CHR 0x0A] @ ''b.xls'' @ [CHR 0x0A] @ ''rest'') (''warning'' @ [CHR 0x0A])" for x
    by (simp_all add: export_world_def is_directory_def)
  show ?thesis
    using export_shows_output[OF export_open_state(1,2) w(1) n _ w(2) _ _ w(3)]
    by (simp add: doExportTable_def tableSend_def send_open export_open_state)
      (auto simp: exporter_lines_def export_world_def)
qed

end
