(* ===== verification/GmCommand.thy ===== *)
theory GmCommand
  imports React
begin

text \<open>
  The form of one GM command, \<open>tools/web/src/src/pages/gm/command.tsx\<close>: the drafts that the component
  keeps per command, and the fields it renders for the command's arguments.
\<close>

section \<open>Properties and state\<close>

text \<open>\<open>GMCommandProps\<close> as far as it is data; \<open>None\<close> is an absent member.\<close>

record gm_props =
  gp_command :: "string option"
  gp_args :: "jsval list option"
  gp_name :: "string option"

definition no_gm_props :: gm_props where
  "no_gm_props = \<lparr>gp_command = None, gp_args = None, gp_name = None\<rparr>"

text \<open>The object in \<open>formValue\<close>: for each command the values entered so far.\<close>

type_synonym gm_drafts = "jsval props props"

text \<open>\<open>props.command || ""\<close>.\<close>

definition command_key :: "gm_props \<Rightarrow> string" where
  "command_key p = (case gp_command p of None \<Rightarrow> '''' | Some c \<Rightarrow> c)"

text \<open>\<open>formValue[props.command || ""] || {}\<close>.\<close>

definition draft :: "gm_props \<Rightarrow> gm_drafts \<Rightarrow> jsval props" where
  "draft p fv = (case prop_get fv (command_key p) of None \<Rightarrow> [] | Some d \<Rightarrow> d)"

section \<open>Handlers\<close>

text \<open>
  Both handlers change the object in \<open>formValue\<close> in place and set the state to the same object, so
  they cause no rendering; what they change is read when the form is next put on the page.
\<close>

definition onValuesChange :: "gm_props \<Rightarrow> jsval props \<Rightarrow> gm_drafts \<Rightarrow> gm_drafts" where
  "onValuesChange p values fv =
     (let newValues = prop_spread (draft p fv) values
      in prop_set (command_key p) newValues fv)"

definition onReset :: "gm_props \<Rightarrow> gm_drafts \<Rightarrow> gm_drafts" where
  "onReset p fv = prop_set (command_key p) [] fv"

text \<open>\<open>onFinish\<close>: what the page's \<open>onSubmitCommand\<close> is called with, if there is one.\<close>

definition onSubmit :: "gm_props \<Rightarrow> 'v \<Rightarrow> (string \<Rightarrow> 'v \<Rightarrow> 's \<Rightarrow> 's) option \<Rightarrow> 's \<Rightarrow> 's" where
  "onSubmit p values callback s =
     (case callback of None \<Rightarrow> s | Some f \<Rightarrow> f (command_key p) values s)"

section \<open>Rendering\<close>

text \<open>The field for one argument; an argument of another type has none.\<close>

definition field_attrs :: "jsval \<Rightarrow> (string \<times> attr) list" where
  "field_attrs arg =
     (case (js_get arg ''index'', js_get arg ''name'') of
        (Inr i, Inr n) \<Rightarrow> [(''key'', PV i), (''name'', PV i), (''label'', PV n)]
      | _ \<Rightarrow> [])"

definition render_field :: "jsval \<Rightarrow> vnode list thrown" where
  "render_field arg =
     and_then (js_get arg ''type'') (\<lambda>ty. Inr
       (if strict_eq ty (Str ''number'') then
          [Elem ''ProFormDigit'' ((''width'', PS ''md'') # field_attrs arg) []]
        else if strict_eq ty (Str ''string'') then
          [Elem ''ProFormText'' ((''width'', PS ''md'') # field_attrs arg) []]
        else if strict_eq ty (Str ''bool'') then
          [Elem ''ProFormSwitch'' (field_attrs arg) []]
        else []))"

definition render_fields :: "gm_props \<Rightarrow> vnode list thrown" where
  "render_fields p =
     (case gp_args p of None \<Rightarrow> Inr []
      | Some args \<Rightarrow> and_then (collect render_field args) (\<lambda>fs. Inr (concat fs)))"

definition opt_str :: "string option \<Rightarrow> jsval" where
  "opt_str x = or_undef (map_option Str x)"

definition render_command :: "gm_props \<Rightarrow> gm_drafts \<Rightarrow> jsval \<Rightarrow> vnode thrown" where
  "render_command p fv response =
     and_then (render_fields p) (\<lambda>fields. Inr
       (Elem ''Space'' [(''direction'', PS ''vertical''), (''style'', PV (Obj [(''width'', Str ''100%'')]))]
         ([Elem ''Card'' [(''style'', PV (Obj [(''height'', Str ''100%'')])), (''title'', PV (opt_str (gp_name p)))]
            [if gp_command p = None then
               Elem ''Empty'' [(''description'', PS (utf8 [0x672A, 0x9009, 0x62E9] @ ''GM'' @ utf8 [0x6307, 0x4EE4]))] []
             else
               Elem ''ProForm''
                 [(''labelCol'', PV (Obj [(''span'', Num 4)])), (''wrapperCol'', PV (Obj [(''span'', Num 14)])),
                  (''layout'', PS ''horizontal''), (''key'', PV (opt_str (gp_command p))),
                  (''formRef'', PFun ''formRef''),
                  (''submitter'', PNodes [Elem ''Row'' []
                     [Elem ''Col'' [(''span'', PV (Num 14)), (''offset'', PV (Num 4))] [Elem ''Space'' [] []]]]),
                  (''onFinish'', PFun ''onSubmit''), (''onValuesChange'', PFun ''onValuesChange''),
                  (''initialValues'', PV (Obj (draft p fv))), (''onReset'', PFun ''onReset'')]
                 fields]]
          @ shown_if (command_key p \<noteq> '''')
              (Elem ''Card'' [(''style'', PV (Obj [(''width'', Str ''100%'')])), (''title'', PS (utf8 [0x8F93, 0x51FA, 0x7ED3, 0x679C]))]
                [Elem ''pre'' [] (child response)]))))"

section \<open>Properties\<close>

lemma draft_onValuesChange:
  "command_key q = command_key p \<Longrightarrow> draft q (onValuesChange p vs fv) = prop_spread (draft p fv) vs"
  "command_key q \<noteq> command_key p \<Longrightarrow> draft q (onValuesChange p vs fv) = draft q fv"
  by (simp_all add: draft_def onValuesChange_def Let_def)

lemma draft_onReset:
  "command_key q = command_key p \<Longrightarrow> draft q (onReset p fv) = []"
  "command_key q \<noteq> command_key p \<Longrightarrow> draft q (onReset p fv) = draft q fv"
  by (simp_all add: draft_def onReset_def)

text \<open>What has been typed into the forms, in order: the command's form, and what changed or a reset.\<close>

datatype form_event = Changed "jsval props" | Resetted

fun form_step :: "gm_props \<times> form_event \<Rightarrow> gm_drafts \<Rightarrow> gm_drafts" where
  "form_step (p, Changed vs) fv = onValuesChange p vs fv"
| "form_step (p, Resetted) fv = onReset p fv"

definition form_run :: "(gm_props \<times> form_event) list \<Rightarrow> gm_drafts \<Rightarrow> gm_drafts" where
  "form_run es fv = fold form_step es fv"

text \<open>The specification of a draft: the last value per field since the last reset of this command.\<close>

fun draft_spec :: "string \<Rightarrow> (gm_props \<times> form_event) list \<Rightarrow> jsval props \<Rightarrow> jsval props" where
  "draft_spec c [] d = d"
| "draft_spec c ((p, e) # es) d =
     draft_spec c es (if command_key p \<noteq> c then d
                      else (case e of Changed vs \<Rightarrow> prop_spread d vs | Resetted \<Rightarrow> []))"

text \<open>
  C35.  Drafts are kept per command: after any sequence of edits and resets in the forms of any
  commands, the values with which the form of a command is put on the page are the values entered
  into this command's form since its last reset, and nothing from the other commands' forms.
\<close>

theorem gm_drafts_per_command:
  "draft q (form_run es fv) = draft_spec (command_key q) es (draft q fv)"
proof (induction es arbitrary: fv)
  case (Cons e es)
  obtain p ev where e: "e = (p, ev)" by (cases e)
  show ?case
    using Cons[of "form_step e fv"] draft_onValuesChange[where p = p and q = q]
      draft_onReset[where p = p and q = q]
    by (cases ev; cases "command_key p = command_key q") (auto simp: form_run_def e draft_def)
qed (simp add: form_run_def)

text \<open>The arguments that have a field.\<close>

definition has_field :: "jsval \<Rightarrow> bool" where
  "has_field arg \<longleftrightarrow> (\<exists>ps. arg = Obj ps \<and>
     (\<exists>ty \<in> {''number'', ''string'', ''bool''}. prop_get ps ''type'' = Some (Str ty)))"

definition arg_index :: "jsval \<Rightarrow> jsval" where
  "arg_index arg = (case js_get arg ''index'' of Inl _ \<Rightarrow> Undef | Inr v \<Rightarrow> v)"

lemma render_field_names:
  "render_field (Obj ps) = Inr ns \<Longrightarrow>
     map (attr_of ''name'') ns = (if has_field (Obj ps) then [Some (PV (arg_index (Obj ps)))] else [])"
  by (auto simp: render_field_def field_attrs_def has_field_def arg_index_def or_undef_def
      split: if_splits option.splits)

text \<open>
  C36.  If all arguments of a command are objects, its form has exactly one field per argument of type
  number, string or bool, in the order of the arguments, and each field is named by its argument's
  index (the key under which its value is submitted).
\<close>

theorem gm_form_fields:
  assumes "gp_args p = Some (map Obj pss)"
  shows "\<exists>fs. render_fields p = Inr fs \<and>
    map (attr_of ''name'') fs = map (\<lambda>a. Some (PV (arg_index a))) (filter has_field (map Obj pss))"
proof -
  have "\<exists>fs. collect render_field (map Obj pss) = Inr fs \<and> map (attr_of ''name'') (concat fs) =
      map (\<lambda>a. Some (PV (arg_index a))) (filter has_field (map Obj pss))"
  proof (induction pss)
    case (Cons ps pss)
    obtain ns where ns: "render_field (Obj ps) = Inr ns" by (auto simp: render_field_def)
    with Cons render_field_names[OF ns] show ?case by auto
  qed simp
  with assms show ?thesis by (auto simp: render_fields_def)
qed

theorem gm_form_fields_witness:
  "\<exists>fs. render_fields \<lparr>gp_command = Some ''add'', gp_args = Some (map Obj
       [[(''type'', Str ''number''), (''name'', Str ''id''), (''index'', Str ''item_id'')],
        [(''type'', Str ''date''), (''name'', Str ''when''), (''index'', Str ''at'')]]),
       gp_name = None\<rparr> = Inr fs
     \<and> map (attr_of ''name'') fs = [Some (PS ''item_id'')]"
proof -
  let ?pss = "[[(''type'', Str ''number''), (''name'', Str ''id''), (''index'', Str ''item_id'')],
        [(''type'', Str ''date''), (''name'', Str ''when''), (''index'', Str ''at'')]]"
  show ?thesis
    using gm_form_fields[of "\<lparr>gp_command = Some ''add'', gp_args = Some (map Obj ?pss), gp_name = None\<rparr>" ?pss]
    by (simp add: has_field_def arg_index_def prop_get_Cons)
qed

end
