(* ===== verification/GmPane.thy ===== *)
theory GmPane
  imports GmCommand
begin

text \<open>
  The page of the GM commands, \<open>tools/web/src/src/pages/gm.tsx\<close>: the list of commands that the game
  server offers, the selection, the submission of a command, and the results.  The page is a
  \<open>ws_page\<close>, but unlike the other two it does not reconnect by itself.
\<close>

section \<open>State\<close>

record gm_command =
  gc_label :: string
  gc_args :: "jsval list"

record gm_category =
  cat_name :: jsval
  cat_value :: "gm_command list"

text \<open>
  \<open>gm_heap\<close> holds the objects that \<open>allGmCommandResponse\<close> refers to, because one of them is changed in
  place and shared by callbacks: \<open>gm_response\<close> is the reference in the state, and \<open>gm_captured\<close> the
  reference that the message callback of each connection captured when the connection was made.
  \<open>gm_shown\<close> are the results as of the last rendering.  \<open>gm_timers\<close> are the pending \<open>setTimeout\<close>
  callbacks of \<open>onSubmitGMCommand\<close>: a connection and the text to send on it.
\<close>

record gm_page =
  gm_net :: net
  gm_client :: "nat option"
  selectOptions :: "string list"
  currSelectOption :: "string option"
  GMData :: "gm_category list"
  categories :: "jsval list"
  nameToCommand :: "gm_props props"
  gmCommandProps :: "gm_props option"
  gm_response :: nat
  gm_heap :: "jsval props list"
  gm_captured :: "nat list"
  gm_shown :: "jsval props"
  currSelectedMenu :: "string option list"
  gm_timers :: "(nat \<times> string) list"
  gm_drafts :: gm_drafts

section \<open>Results of commands\<close>

definition gm_object :: "nat \<Rightarrow> gm_page \<Rightarrow> jsval props" where
  "gm_object r s = (if r < length (gm_heap s) then gm_heap s ! r else [])"

text \<open>
  \<open>setAllGmCommandResponse\<close>: React renders again only if the new object is another one than the
  present one, and a rendering shows what the object holds at that time.
\<close>

definition setAllGmCommandResponse :: "nat \<Rightarrow> gm_page \<Rightarrow> gm_page" where
  "setAllGmCommandResponse r s =
     (if r = gm_response s then s
      else s\<lparr>gm_response := r, gm_shown := gm_object r s\<rparr>)"

text \<open>A setter for another part of the state renders the page too.\<close>

definition rendered :: "gm_page \<Rightarrow> gm_page" where
  "rendered s = s\<lparr>gm_shown := gm_object (gm_response s) s\<rparr>"

text \<open>\<open>setCommandResponse\<close>, run by a callback that captured the object \<open>cap\<close>.\<close>

definition setCommandResponse :: "nat \<Rightarrow> jsval \<Rightarrow> jsval \<Rightarrow> gm_page \<Rightarrow> gm_page" where
  "setCommandResponse cap command dat s =
     (if strict_eq command Undef \<or> strict_eq command (Str '''') then s
      else
        let info = cap;
            s1 = s\<lparr>gm_heap := (gm_heap s)[info := prop_set (js_string command) dat (gm_object info s)]\<rparr>;
            fresh = length (gm_heap s1);
            s2 = setAllGmCommandResponse fresh (s1\<lparr>gm_heap := gm_heap s1 @ [[]]\<rparr>)
        in setAllGmCommandResponse info s2)"

section \<open>The list of commands\<close>

text \<open>\<open>r[i].value[cmd]\<close> as an entry of the menu and as an entry of the map from labels.\<close>

definition gm_entry :: "jsval \<Rightarrow> string \<Rightarrow> (gm_command \<times> (string \<times> gm_props)) thrown" where
  "gm_entry cmds cmd =
     and_then (js_get cmds cmd) (\<lambda>c.
     and_then (js_get c ''name'') (\<lambda>nm.
     let label = js_string nm @ ''('' @ cmd @ '')'' in
     and_then (js_get c ''args'') (\<lambda>cargs.
     and_then (js_get cargs ''length'') (\<lambda>n.
     and_then (collect (js_nth cargs) [0..<loop_count n]) (\<lambda>args.
       Inr (\<lparr>gc_label = label, gc_args = args\<rparr>,
            (label, \<lparr>gp_command = Some cmd, gp_args = Some args, gp_name = Some label\<rparr>)))))))"

definition gm_category_of ::
  "jsval \<Rightarrow> (gm_category \<times> (string \<times> gm_props) list) thrown" where
  "gm_category_of ri =
     and_then (js_get ri ''value'') (\<lambda>cmds.
     and_then (collect (gm_entry cmds) (js_keys cmds)) (\<lambda>es.
     and_then (js_get ri ''name'') (\<lambda>nm.
       Inr (\<lparr>cat_name = nm, cat_value = map fst es\<rparr>, map snd es))))"

definition setGmList :: "(gm_category \<times> (string \<times> gm_props) list) list \<Rightarrow> gm_page \<Rightarrow> gm_page" where
  "setGmList cats s =
     (let info = map fst cats;
          commandMap = prop_literal (concat (map snd cats))
      in rendered (s\<lparr>GMData := info, categories := map cat_name info, nameToCommand := commandMap,
           selectOptions := keys commandMap\<rparr>))"

definition onGmMessage :: "nat \<Rightarrow> string \<Rightarrow> gm_page \<Rightarrow> gm_page thrown" where
  "onGmMessage cap t s =
     and_then (JSON_parse t) (\<lambda>msg.
     and_then (js_get msg ''type'') (\<lambda>ty.
     and_then (js_get msg ''data'') (\<lambda>dat.
     and_then (js_get msg ''command'') (\<lambda>command.
       if loose_eq ty (Str ''gmList'') then
         and_then (JSON_parse (js_string dat)) (\<lambda>r.
         and_then (js_get r ''length'') (\<lambda>n.
         and_then (collect (\<lambda>i. and_then (js_nth r i) gm_category_of) [0..<loop_count n]) (\<lambda>cats.
           Inr (setGmList cats s))))
       else if strict_eq ty (Str ''gmCommand'') then Inr (setCommandResponse cap command dat s)
       else if loose_eq ty (Str ''error'') then
         Inr (s\<lparr>gm_net := emit (Toast ''error'' dat) (gm_net s)\<rparr>)
       else Inr s))))"

section \<open>The connection\<close>

definition gm_url :: string where
  "gm_url = ''ws://localhost:9000/gm''"

text \<open>The new connection's callback captures the present object of results.\<close>

definition startGmSocket :: "gm_page \<Rightarrow> gm_page" where
  "startGmSocket s = s\<lparr>gm_net := connect gm_url (gm_net s), gm_captured := gm_captured s @ [gm_response s]\<rparr>"

definition gm0 :: gm_page where
  "gm0 = startGmSocket
     \<lparr>gm_net = net0, gm_client = None, selectOptions = [], currSelectOption = None, GMData = [],
      categories = [], nameToCommand = [], gmCommandProps = Some no_gm_props, gm_response = 0,
      gm_heap = [[]], gm_captured = [], gm_shown = [], currSelectedMenu = [], gm_timers = [],
      gm_drafts = []\<rparr>"

definition gmSend :: "nat \<Rightarrow> string \<Rightarrow> gm_page \<Rightarrow> gm_page" where
  "gmSend c t s = s\<lparr>gm_net := or_keep (gm_net s) (send c t (gm_net s))\<rparr>"

definition gmClientEffect :: "gm_page \<Rightarrow> gm_page" where
  "gmClientEffect s =
     (case gm_client s of None \<Rightarrow> s
      | Some c \<Rightarrow> gmSend c (stringify (Obj [(''type'', Str ''gmList'')])) s)"

definition onopenGm :: "nat \<Rightarrow> gm_page \<Rightarrow> gm_page" where
  "onopenGm c s =
     gmClientEffect (rendered (s\<lparr>gm_net := mark c OPEN (gm_net s), gm_client := Some c\<rparr>))"

definition oncloseGm :: "nat \<Rightarrow> gm_page \<Rightarrow> gm_page" where
  "oncloseGm c s = rendered (s\<lparr>gm_net := mark c CLOSED (gm_net s), gm_client := None\<rparr>)"

section \<open>Selection and submission\<close>

definition onClickGmCommand :: "string \<Rightarrow> gm_page \<Rightarrow> gm_page" where
  "onClickGmCommand key s = rendered (s\<lparr>currSelectedMenu := [Some key], currSelectOption := None\<rparr>)"

text \<open>A label that the map does not have gives \<open>undefined\<close>, here \<open>None\<close>.\<close>

definition onMenuSelected :: "string \<Rightarrow> gm_page \<Rightarrow> gm_page" where
  "onMenuSelected key s = rendered (s\<lparr>gmCommandProps := prop_get (nameToCommand s) key\<rparr>)"

definition onCommandSelected :: "string option \<Rightarrow> gm_page \<Rightarrow> gm_page" where
  "onCommandSelected value s = rendered (s\<lparr>currSelectedMenu := [value], currSelectOption := value,
     gmCommandProps := (case value of None \<Rightarrow> Some no_gm_props
                        | Some v \<Rightarrow> prop_get (nameToCommand s) v)\<rparr>)"

definition onSubmitGMCommand :: "string \<Rightarrow> jsval props \<Rightarrow> gm_page \<Rightarrow> gm_page" where
  "onSubmitGMCommand command values s =
     (let values' = prop_set ''command'' (Str command) values;
          s1 = setCommandResponse (gm_response s) (Str command) Undef s
      in case gm_client s1 of
           None \<Rightarrow>
             let c = length (socks (gm_net s1));
                 s2 = startGmSocket s1
             in s2\<lparr>gm_timers := gm_timers s2 @
                  [(c, stringify (Obj [(''type'', Str ''gmCommand''), (''data'', Obj values')]))]\<rparr>
         | Some c \<Rightarrow>
             gmSend c (stringify (Obj [(''type'', Str ''gmCommand''), (''data'', Obj values'),
               (''command'', Str command)])) s1)"

text \<open>The callback of \<open>setTimeout\<close>, after 500 ms.\<close>

definition onTimer :: "nat \<Rightarrow> gm_page \<Rightarrow> gm_page" where
  "onTimer i s =
     (if i < length (gm_timers s) then
        let (c, t) = gm_timers s ! i
        in gmSend c t (s\<lparr>gm_timers := take i (gm_timers s) @ drop (Suc i) (gm_timers s)\<rparr>)
      else s)"

section \<open>Rendering\<close>

text \<open>The keys of the menu's items and the values of the select box, in order.\<close>

definition menu_keys :: "gm_page \<Rightarrow> string list" where
  "menu_keys s = concat (map (\<lambda>c. map gc_label (cat_value c)) (GMData s))"

definition render_menu :: "gm_page \<Rightarrow> vnode" where
  "render_menu s =
     Elem ''Menu''
       [(''mode'', PS ''inline''), (''defaultOpenKeys'', PV (Arr (categories s))),
        (''onClick'', PFun ''onClickGmCommand''), (''onSelect'', PFun ''onMenuSelected''),
        (''forceSubMenuRender'', PV (Bool True)),
        (''selectedKeys'', PV (Arr (map opt_str (currSelectedMenu s))))]
       (map (\<lambda>category. Elem ''SubMenu''
           [(''key'', PV (cat_name category)), (''icon'', PNodes [Elem ''MailOutlined'' [] []]),
            (''title'', PV (cat_name category))]
           (if length (cat_value category) > 0 then
              map (\<lambda>command. Elem ''Menu.Item'' [(''key'', PS (gc_label command))]
                [Text (gc_label command)]) (cat_value category)
            else []))
         (GMData s))"

definition render_gm :: "gm_page \<Rightarrow> vnode thrown" where
  "render_gm s =
     (if length (GMData s) > 0 \<and> length (categories s) > 0 then
        (case gmCommandProps s of None \<Rightarrow> Inl TypeError
         | Some p \<Rightarrow>
             and_then (render_command p (gm_drafts s)
                 (or_undef (prop_get (gm_shown s) (command_key p)))) (\<lambda>form.
             Inr (Elem ''PageContainer'' []
               [Elem ''Row'' [(''gutter'', PV (Arr [Num 30, Num 8]))]
                 [Elem ''Col'' [(''style'', PV (Obj [(''width'', Str ''20%''), (''height'', Str ''100%'')]))]
                   [Elem ''Space'' [(''direction'', PS ''vertical''),
                       (''style'', PV (Obj [(''width'', Str ''100%'')]))]
                     [Elem ''Select''
                       [(''allowClear'', PV (Bool True)), (''showSearch'', PV (Bool True)),
                        (''style'', PV (Obj [(''width'', Str ''100%'')])),
                        (''placeholder'', PS (utf8 [0x8F93, 0x5165, 0x8981, 0x67E5, 0x8BE2, 0x7684] @ ''GM'' @ utf8 [0x6307, 0x4EE4])),
                        (''options'', PV (Arr (map (\<lambda>o1. Obj [(''label'', Str o1), (''value'', Str o1)])
                           (selectOptions s)))),
                        (''onChange'', PFun ''onCommandSelected''),
                        (''value'', PV (opt_str (currSelectOption s)))] [],
                      render_menu s]],
                  Elem ''Col'' [(''style'', PV (Obj [(''width'', Str ''80%''), (''height'', Str ''100%'')]))]
                   [form]]])))
      else
        Inr (Elem ''PageContainer'' []
          [Elem ''Result''
            [(''status'', PS ''404''), (''title'', PS ''404''),
             (''subTitle'', PS (utf8 [0x672A, 0x83B7, 0x53D6, 0x5230] @ ''GM'' @ utf8 [0x547D, 0x4EE4, 0x5217, 0x8868]))] []]))"

section \<open>Events\<close>

text \<open>
  antd reports clicks and selections of items that are on the page, and the select box one of its
  options or that it was cleared; the form is on the page when a command is selected.
\<close>

datatype gm_event =
    GmReceive nat string               \<comment> \<open>a text on a connection\<close>
  | MenuClick string
  | MenuSelect string
  | SelectChange "string option"
  | FormChange "jsval props"
  | FormReset
  | FormSubmit "jsval props"
  | Timer nat

definition captured_by :: "nat \<Rightarrow> gm_page \<Rightarrow> nat" where
  "captured_by i s = (if i < length (gm_captured s) then gm_captured s ! i else 0)"

definition shown_form :: "gm_page \<Rightarrow> gm_props option" where
  "shown_form s = (case gmCommandProps s of None \<Rightarrow> None
     | Some p \<Rightarrow> if gp_command p = None then None else Some p)"

fun gm_act :: "gm_event \<Rightarrow> gm_page \<Rightarrow> gm_page" where
  "gm_act (GmReceive i t) s = or_keep s (onGmMessage (captured_by i s) t s)"
| "gm_act (MenuClick k) s = (if k \<in> set (menu_keys s) then onClickGmCommand k s else s)"
| "gm_act (MenuSelect k) s = (if k \<in> set (menu_keys s) then onMenuSelected k s else s)"
| "gm_act (SelectChange v) s =
     (if v = None \<or> the v \<in> set (selectOptions s) then onCommandSelected v s else s)"
| "gm_act (FormChange vs) s =
     (case shown_form s of None \<Rightarrow> s
      | Some p \<Rightarrow> s\<lparr>gm_drafts := onValuesChange p vs (gm_drafts s)\<rparr>)"
| "gm_act FormReset s =
     (case shown_form s of None \<Rightarrow> s | Some p \<Rightarrow> s\<lparr>gm_drafts := onReset p (gm_drafts s)\<rparr>)"
| "gm_act (FormSubmit vs) s =
     (case shown_form s of None \<Rightarrow> s | Some p \<Rightarrow> onSubmit p vs (Some onSubmitGMCommand) s)"
| "gm_act (Timer i) s = onTimer i s"

section \<open>The page keeps to the interface\<close>

lemma setAll_frame [simp]:
  "gm_client (setAllGmCommandResponse r s) = gm_client s" "gm_net (setAllGmCommandResponse r s) = gm_net s"
  "gm_captured (setAllGmCommandResponse r s) = gm_captured s"
  "gm_heap (setAllGmCommandResponse r s) = gm_heap s"
  by (simp_all add: setAllGmCommandResponse_def)

lemma setCommandResponse_frame [simp]:
  "gm_client (setCommandResponse cap c d s) = gm_client s"
  "gm_net (setCommandResponse cap c d s) = gm_net s"
  "gm_captured (setCommandResponse cap c d s) = gm_captured s"
  by (simp_all add: setCommandResponse_def Let_def)

lemma rendered_frame [simp]:
  "gm_client (rendered s) = gm_client s" "gm_net (rendered s) = gm_net s"
  by (simp_all add: rendered_def)

lemma onGmMessage_frame:
  "onGmMessage cap t s = Inr s' \<Longrightarrow> gm_client s' = gm_client s \<and> socks (gm_net s') = socks (gm_net s)"
  by (auto simp: onGmMessage_def and_then_Inr setGmList_def Let_def split: if_splits)

lemma onSubmitGM_frame:
  "gm_client (onSubmitGMCommand c vs s) = gm_client s \<and>
   (\<exists>k. socks (gm_net (onSubmitGMCommand c vs s)) = socks (gm_net s) @ replicate k CONNECTING)"
proof (cases "gm_client s")
  case None
  then show ?thesis
    by (auto simp: onSubmitGMCommand_def Let_def startGmSocket_def intro: exI[of _ 1])
next
  case (Some d)
  then show ?thesis
    by (auto simp: onSubmitGMCommand_def Let_def gmSend_def intro: exI[of _ 0])
qed

lemma gm_act_frame:
  "gm_client (gm_act a s) = gm_client s \<and>
   (\<exists>k. socks (gm_net (gm_act a s)) = socks (gm_net s) @ replicate k CONNECTING)"
proof (cases a)
  case (GmReceive i t)
  then show ?thesis
    using onGmMessage_frame[of "captured_by i s" t s]
    by (cases "onGmMessage (captured_by i s) t s") (auto intro: exI[of _ 0])
next
  case (FormSubmit vs)
  then show ?thesis
    using onSubmitGM_frame[of "command_key (the (shown_form s))" vs s]
    by (auto simp: onSubmit_def intro: exI[of _ 0] split: option.splits)
qed (auto simp: onClickGmCommand_def onMenuSelected_def onCommandSelected_def onTimer_def gmSend_def
      case_prod_beta' Let_def intro: exI[of _ 0] split: option.splits)

interpretation gm_ws: ws_page gm_net gm_client onopenGm oncloseGm gm_act gm0
proof unfold_locales
  fix i s
  show "\<exists>k. socks (gm_net (oncloseGm i s)) = (socks (gm_net s))[i := CLOSED] @ replicate k CONNECTING"
    by (intro exI[of _ 0]) (simp add: oncloseGm_def)
qed (auto simp: onopenGm_def gmClientEffect_def gmSend_def oncloseGm_def gm0_def startGmSocket_def
      gm_act_frame)

section \<open>The invariant\<close>

text \<open>
  All references to the results are the same one and the page shows what the object holds; the menu,
  the select box and the map from labels agree; a selection is never undefined.
\<close>

definition one_object :: "gm_page \<Rightarrow> bool" where
  "one_object s \<longleftrightarrow> gm_response s = 0 \<and> gm_heap s \<noteq> [] \<and> (\<forall>r \<in> set (gm_captured s). r = 0)
     \<and> gm_shown s = gm_object 0 s"

definition menu_ok :: "gm_page \<Rightarrow> bool" where
  "menu_ok s \<longleftrightarrow> set (menu_keys s) = set (keys (nameToCommand s))
     \<and> selectOptions s = keys (nameToCommand s) \<and> prop_ordered (nameToCommand s)
     \<and> (\<forall>k p. prop_get (nameToCommand s) k = Some p \<longrightarrow> gp_name p = Some k \<and> gp_command p \<noteq> None)
     \<and> categories s = map cat_name (GMData s)"

definition gm_inv :: "gm_page \<Rightarrow> bool" where
  "gm_inv s \<longleftrightarrow> one_object s \<and> menu_ok s \<and> gmCommandProps s \<noteq> None"

lemma setCommandResponse_eq:
  assumes "one_object s"
  shows "setCommandResponse 0 c d s =
     (if c = Undef \<or> c = Str '''' then s
      else s\<lparr>gm_heap := (gm_heap s)[0 := prop_set (js_string c) d (gm_shown s)] @ [[]],
             gm_shown := prop_set (js_string c) d (gm_shown s)\<rparr>)"
  using assms
  by (auto simp: setCommandResponse_def one_object_def setAllGmCommandResponse_def gm_object_def
      Let_def nth_append)

lemma one_object_rendered:
  "one_object s \<Longrightarrow> one_object (rendered s)"
  by (simp add: one_object_def rendered_def gm_object_def)

lemma one_object_setCommandResponse:
  "one_object s \<Longrightarrow> one_object (setCommandResponse 0 c d s)"
  by (simp add: setCommandResponse_eq) (simp add: one_object_def gm_object_def nth_append)

lemma menu_ok_setCommandResponse [simp]:
  "menu_ok (setCommandResponse cap c d s) = menu_ok s"
  "gmCommandProps (setCommandResponse cap c d s) = gmCommandProps s"
  by (simp_all add: menu_ok_def menu_keys_def setCommandResponse_def setAllGmCommandResponse_def Let_def)

lemma setCommandResponse_inv: "gm_inv s \<Longrightarrow> gm_inv (setCommandResponse 0 c d s)"
  by (simp add: gm_inv_def one_object_setCommandResponse)

text \<open>What one entry of the list gives.\<close>

lemma gm_entry_labels:
  assumes "gm_entry cmds cmd = Inr (g, (k, p))"
  shows "k = gc_label g \<and> gp_name p = Some k \<and> gp_command p = Some cmd"
  using assms by (auto simp: gm_entry_def and_then_Inr Let_def)

lemma gm_category_labels:
  assumes "gm_category_of ri = Inr (cat, ps)"
  shows "map fst ps = map gc_label (cat_value cat)"
    and "\<forall>(k, p) \<in> set ps. gp_name p = Some k \<and> gp_command p \<noteq> None"
proof -
  obtain cmds es where es: "collect (gm_entry cmds) (js_keys cmds) = Inr es"
    and "cat_value cat = map fst es" "ps = map snd es"
    using assms by (auto simp: gm_category_of_def and_then_Inr)
  moreover have "\<forall>e \<in> set es. fst (snd e) = gc_label (fst e) \<and> gp_name (snd (snd e)) = Some (fst (snd e))
      \<and> gp_command (snd (snd e)) \<noteq> None"
    using es by (fastforce simp: collect_Inr list_all2_conv_all_nth in_set_conv_nth dest: gm_entry_labels)
  ultimately show "map fst ps = map gc_label (cat_value cat)"
    and "\<forall>(k, p) \<in> set ps. gp_name p = Some k \<and> gp_command p \<noteq> None"
    by auto
qed

lemma prop_get_literal_in: "prop_get (prop_literal ps) k = Some v \<Longrightarrow> (k, v) \<in> set ps"
  by (auto simp: prop_literal_def prop_get_spread dest: map_of_SomeD split: option.splits)

lemma menu_ok_setGmList:
  assumes "\<forall>(cat, ps) \<in> set cats. map fst ps = map gc_label (cat_value cat)
      \<and> (\<forall>(k, p) \<in> set ps. gp_name p = Some k \<and> gp_command p \<noteq> None)"
  shows "menu_ok (setGmList cats s)"
proof -
  have "map fst (concat (map snd cats)) = concat (map (\<lambda>c. map gc_label (cat_value c)) (map fst cats))"
    using assms by (induction cats) auto
  then have "set (keys (concat (map snd cats))) =
      set (concat (map (\<lambda>c. map gc_label (cat_value c)) (map fst cats)))"
    by (metis keys_def)
  moreover have "\<forall>k p. prop_get (prop_literal (concat (map snd cats))) k = Some p \<longrightarrow>
      gp_name p = Some k \<and> gp_command p \<noteq> None"
    using assms by (fastforce dest: prop_get_literal_in)
  moreover have "set (keys (prop_literal ps)) = set (keys ps)" for ps :: "gm_props props"
    by (simp add: prop_literal_def)
  ultimately show ?thesis
    by (simp add: menu_ok_def setGmList_def Let_def rendered_def menu_keys_def prop_ordered_literal)
qed

lemma one_object_setGmList: "one_object s \<Longrightarrow> one_object (setGmList cats s)"
  by (auto simp: setGmList_def Let_def one_object_def rendered_def gm_object_def)

lemma onGmMessage_inv:
  assumes "gm_inv s" and "onGmMessage 0 t s = Inr s'"
  shows "gm_inv s'"
proof -
  have list: "gm_inv (setGmList cats s)"
    if cats: "collect (\<lambda>i. and_then (js_nth r i) gm_category_of) is = Inr cats" for r "is" cats
  proof -
    have "\<forall>(cat, ps) \<in> set cats. map fst ps = map gc_label (cat_value cat)
        \<and> (\<forall>(k, p) \<in> set ps. gp_name p = Some k \<and> gp_command p \<noteq> None)"
      using cats
      by (fastforce simp: collect_Inr list_all2_conv_all_nth in_set_conv_nth and_then_Inr
          dest: gm_category_labels)
    then have "menu_ok (setGmList cats s)" by (rule menu_ok_setGmList)
    moreover have "gmCommandProps (setGmList cats s) = gmCommandProps s"
      by (simp add: setGmList_def Let_def rendered_def)
    ultimately show ?thesis using assms(1) by (simp add: gm_inv_def one_object_setGmList)
  qed
  have toast: "gm_inv (s\<lparr>gm_net := n\<rparr>)" for n
    using assms(1) by (simp add: gm_inv_def one_object_def menu_ok_def menu_keys_def gm_object_def)
  show ?thesis
    using assms list setCommandResponse_inv[OF assms(1)] toast
    by (auto simp: onGmMessage_def and_then_Inr split: if_splits)
qed

lemma gm_inv_captured: "gm_inv s \<Longrightarrow> captured_by i s = 0"
  by (auto simp: gm_inv_def one_object_def captured_by_def)

lemma gm_inv_net [simp]: "gm_inv (s\<lparr>gm_net := n\<rparr>) = gm_inv s"
    "gm_inv (s\<lparr>gm_timers := ts\<rparr>) = gm_inv s" "gm_inv (s\<lparr>gm_client := c\<rparr>) = gm_inv s"
    "gm_inv (s\<lparr>gm_drafts := d\<rparr>) = gm_inv s"
  by (simp_all add: gm_inv_def one_object_def menu_ok_def menu_keys_def gm_object_def)

lemma gm_inv_rendered: "gm_inv s \<Longrightarrow> gm_inv (rendered s)"
  by (simp add: gm_inv_def one_object_rendered) (simp add: menu_ok_def menu_keys_def rendered_def)

lemma gm_inv_select:
  assumes "gm_inv s" and "p \<noteq> None"
  shows "gm_inv (rendered (s\<lparr>gmCommandProps := p, currSelectedMenu := m, currSelectOption := o1\<rparr>))"
    and "gm_inv (rendered (s\<lparr>currSelectedMenu := m, currSelectOption := o1, gmCommandProps := p\<rparr>))"
  using assms
  by (simp_all add: gm_inv_def one_object_def rendered_def gm_object_def menu_ok_def menu_keys_def)

lemma gm_inv_startGmSocket: "gm_inv s \<Longrightarrow> gm_inv (startGmSocket s)"
  by (auto simp: gm_inv_def one_object_def startGmSocket_def gm_object_def menu_ok_def menu_keys_def)

lemma onSubmitGM_inv:
  assumes "gm_inv s"
  shows "gm_inv (onSubmitGMCommand c vs s)"
proof -
  have "gm_inv (setCommandResponse 0 (Str c) Undef s)" using assms by (rule setCommandResponse_inv)
  moreover have "gm_response s = 0" using assms by (simp add: gm_inv_def one_object_def)
  ultimately show ?thesis
    by (auto simp: onSubmitGMCommand_def Let_def gmSend_def gm_inv_startGmSocket split: option.splits)
qed

lemma menu_lookup:
  "gm_inv s \<Longrightarrow> k \<in> set (menu_keys s) \<or> k \<in> set (selectOptions s) \<Longrightarrow>
     \<exists>p. prop_get (nameToCommand s) k = Some p"
  by (metis gm_inv_def menu_ok_def option.exhaust prop_get_None)

lemma gm_act_inv:
  assumes "gm_inv s"
  shows "gm_inv (gm_act a s)"
proof (cases a)
  case (GmReceive i t)
  with assms onGmMessage_inv[OF assms] show ?thesis
    by (cases "onGmMessage 0 t s") (auto simp: gm_inv_captured)
next
  case (MenuClick k)
  have "gm_inv (onClickGmCommand k s)"
    using gm_inv_select(1)[OF assms, where p = "gmCommandProps s" and m = "[Some k]" and ?o1.0 = None] assms
    by (simp add: onClickGmCommand_def gm_inv_def)
  with assms MenuClick show ?thesis by simp
next
  case (MenuSelect k)
  then show ?thesis
    using assms menu_lookup[OF assms, of k]
      gm_inv_select(1)[OF assms, where p = "prop_get (nameToCommand s) k" and m = "currSelectedMenu s" and ?o1.0 = "currSelectOption s"]
    by (auto simp: onMenuSelected_def)
next
  case (SelectChange v)
  then show ?thesis
    using assms menu_lookup[OF assms, of "the v"]
      gm_inv_select(2)[OF assms, where m = "[v]" and ?o1.0 = v and
        p = "case v of None \<Rightarrow> Some no_gm_props | Some v \<Rightarrow> prop_get (nameToCommand s) v"]
    by (auto simp: onCommandSelected_def split: option.splits)
next
  case (FormSubmit vs)
  with assms show ?thesis by (auto simp: onSubmit_def onSubmitGM_inv split: option.splits)
next
  case (Timer i)
  with assms show ?thesis by (simp add: onTimer_def gmSend_def case_prod_beta' Let_def)
qed (use assms in \<open>simp_all split: option.splits\<close>)

lemma gm_inv_reach:
  "ws_reach gm_net onopenGm oncloseGm gm_act gm0 s \<Longrightarrow> gm_inv s"
proof (induction rule: ws_reach.induct)
  case start
  show ?case
    by (simp add: gm0_def startGmSocket_def gm_inv_def one_object_def gm_object_def menu_ok_def
        menu_keys_def)
next
  case (step s t)
  from step.hyps(2) show ?case
  proof (cases rule: ws_step.cases)
    case (opened i)
    then show ?thesis
      using step by (auto simp: onopenGm_def gmClientEffect_def gmSend_def gm_inv_rendered
          split: option.splits)
  next
    case (closed i)
    then show ?thesis using step by (simp add: oncloseGm_def gm_inv_rendered)
  next
    case (acted a)
    with step show ?thesis by (simp add: gm_act_inv)
  qed
qed

end
