(* ===== verification/GmPaneProps.thy ===== *)
theory GmPaneProps
  imports GmPane
begin

text \<open>
  What the page of the GM commands (theory \<open>GmPane\<close>) guarantees, and where it falls short: the list
  of commands, selection, results, submission with and without a connection.
\<close>

abbreviation gm_reach :: "gm_page \<Rightarrow> bool" where
  "gm_reach \<equiv> ws_reach gm_net onopenGm oncloseGm gm_act gm0"

section \<open>The list of commands\<close>

text \<open>
  A list as the game server sends it: categories, each with its name and its commands; a command has
  an identifier, a name and the descriptions of its arguments.
\<close>

type_synonym gm_catalog = "(string \<times> (string \<times> string \<times> jsval list) list) list"

fun command_json :: "string \<times> string \<times> jsval list \<Rightarrow> string \<times> jsval" where
  "command_json (cmd, nm, args) = (cmd, Obj [(''args'', Arr args), (''name'', Str nm)])"

fun category_json :: "string \<times> (string \<times> string \<times> jsval list) list \<Rightarrow> jsval" where
  "category_json (n, cs) = Obj [(''name'', Str n), (''value'', Obj (map command_json cs))]"

definition catalog_json :: "gm_catalog \<Rightarrow> jsval" where
  "catalog_json cats = Arr (map category_json cats)"

fun label_of :: "string \<times> string \<times> jsval list \<Rightarrow> string" where
  "label_of (cmd, nm, args) = nm @ ''('' @ cmd @ '')''"

fun item_of :: "string \<times> string \<times> jsval list \<Rightarrow> gm_command" where
  "item_of (cmd, nm, args) = \<lparr>gc_label = label_of (cmd, nm, args), gc_args = args\<rparr>"

fun props_of :: "string \<times> string \<times> jsval list \<Rightarrow> gm_props" where
  "props_of (cmd, nm, args) =
     \<lparr>gp_command = Some cmd, gp_args = Some args, gp_name = Some (label_of (cmd, nm, args))\<rparr>"

definition menu_of :: "gm_catalog \<Rightarrow> gm_category list" where
  "menu_of cats = map (\<lambda>(n, cs). \<lparr>cat_name = Str n, cat_value = map item_of cs\<rparr>) cats"

text \<open>A catalog of at most \<open>2 ^ 32 - 1\<close> categories and arguments, with the commands of a category under distinct keys.\<close>

definition catalog_ok :: "gm_catalog \<Rightarrow> bool" where
  "catalog_ok cats \<longleftrightarrow> length cats < 2 ^ 32 \<and>
     (\<forall>(n, cs) \<in> set cats. distinct (map fst cs) \<and> (\<forall>(cmd, nm, args) \<in> set cs. length args < 2 ^ 32))"

lemma map_fst_command_json: "map fst (map command_json cs) = map fst cs"
  by (induction cs) auto

lemma gm_entry_command:
  assumes "(cmd, nm, args) \<in> set cs" and "distinct (map fst cs)" and "length args < 2 ^ 32"
  shows "gm_entry (Obj (map command_json cs)) cmd
     = Inr (item_of (cmd, nm, args), (label_of (cmd, nm, args), props_of (cmd, nm, args)))"
proof -
  have "distinct (map fst (map command_json cs))"
    using assms(2) by (metis map_fst_command_json)
  moreover have "(cmd, Obj [(''args'', Arr args), (''name'', Str nm)]) \<in> set (map command_json cs)"
    using imageI[OF assms(1), of command_json] by simp
  ultimately have "prop_get (map command_json cs) cmd = Some (Obj [(''args'', Arr args), (''name'', Str nm)])"
    unfolding prop_get_def by (rule map_of_is_SomeI)
  with assms(3) show ?thesis
    by (simp add: gm_entry_def prop_get_Cons collect_Arr Let_def)
qed

lemma gm_category_json:
  assumes "distinct (map fst cs)" and "\<forall>(cmd, nm, args) \<in> set cs. length args < 2 ^ 32"
  shows "gm_category_of (category_json (n, cs))
     = Inr (\<lparr>cat_name = Str n, cat_value = map item_of cs\<rparr>, map (\<lambda>c. (label_of c, props_of c)) cs)"
proof -
  have k: "js_keys (Obj (map command_json cs)) = map fst cs"
    by (induction cs) auto
  have "collect (gm_entry (Obj (map command_json cs))) (map fst ds)
      = Inr (map (\<lambda>c. (item_of c, (label_of c, props_of c))) ds)" if "set ds \<subseteq> set cs" for ds
    using that
  proof (induction ds)
    case (Cons d ds)
    obtain cmd nm args where "d = (cmd, nm, args)" by (cases d) auto
    with Cons assms show ?case by (auto simp: gm_entry_command)
  qed simp
  then show ?thesis
    by (simp add: gm_category_of_def prop_get_Cons k comp_def del: js_keys.simps)
qed

lemma receive_gm_list:
  assumes "JSON_parse t = Inr (Obj ps)" and "prop_get ps ''type'' = Some (Str ''gmList'')"
    and "prop_get ps ''data'' = Some (Str l)" and "JSON_parse l = Inr (catalog_json cats)"
    and "catalog_ok cats"
  shows "gm_act (GmReceive i t) s =
    setGmList (map (\<lambda>(n, cs). (\<lparr>cat_name = Str n, cat_value = map item_of cs\<rparr>,
                               map (\<lambda>c. (label_of c, props_of c)) cs)) cats) s"
proof -
  have "collect gm_category_of (map category_json ds) =
      Inr (map (\<lambda>(n, cs). (\<lparr>cat_name = Str n, cat_value = map item_of cs\<rparr>,
                          map (\<lambda>c. (label_of c, props_of c)) cs)) ds)" if "set ds \<subseteq> set cats" for ds
    using that
  proof (induction ds)
    case (Cons d ds)
    obtain n cs where d: "d = (n, cs)" by (cases d)
    with Cons.prems assms(5) have "gm_category_of (category_json (n, cs))
        = Inr (\<lparr>cat_name = Str n, cat_value = map item_of cs\<rparr>, map (\<lambda>c. (label_of c, props_of c)) cs)"
      by (intro gm_category_json) (auto simp: catalog_ok_def)
    with Cons d show ?case by simp
  qed simp
  moreover have "length (map category_json cats) < 2 ^ 32" using assms(5) by (simp add: catalog_ok_def)
  note collect_nth_Arr[OF this, of gm_category_of]
  ultimately show ?thesis
    using assms(1-4) by (simp add: onGmMessage_def catalog_json_def)
qed


text \<open>A message with a list, and the page after it.\<close>

definition sample_catalog :: gm_catalog where
  "sample_catalog = [(''item'', [(''add'', ''give'', [Obj [(''type'', Str ''number''),
     (''name'', Str ''id''), (''index'', Str ''1'')]])]), (''role'', [])]"

definition gm_list_text :: string where
  "gm_list_text = stringify (Obj [(''type'', Str ''gmList''),
     (''data'', Str (stringify (catalog_json sample_catalog)))])"

lemma gm_list_text_parse:
  "JSON_parse gm_list_text = Inr (Obj [(''type'', Str ''gmList''),
     (''data'', Str (stringify (catalog_json sample_catalog)))])"
  using JSON_parse_stringify[of "Obj [(''type'', Str ''gmList''),
     (''data'', Str (stringify (catalog_json sample_catalog)))]"]
  by (simp add: gm_list_text_def prop_ordered_names array_index_name is_digit_def)

lemma sample_catalog_parse:
  "JSON_parse (stringify (catalog_json sample_catalog)) = Inr (catalog_json sample_catalog)"
  by (subst JSON_parse_stringify) (simp_all add: sample_catalog_def catalog_json_def prop_ordered_names
      array_index_name is_digit_def)

lemma sample_catalog_ok: "catalog_ok sample_catalog"
  by (simp add: catalog_ok_def sample_catalog_def)


section \<open>Results\<close>

lemma gm_reply_shown_at:
  assumes "gm_reach s" and "JSON_parse t = Inr (Obj ps)"
    and "prop_get ps ''type'' = Some (Str ''gmCommand'')" and "prop_get ps ''data'' = Some d"
    and "prop_get ps ''command'' = Some (Str c)"
  shows "gm_shown (gm_act (GmReceive i t) s) =
    (if c = '''' then gm_shown s else prop_set c d (gm_shown s))"
proof -
  have "gm_inv s" using assms(1) by (rule gm_inv_reach)
  then show ?thesis
    using assms(2-5) setCommandResponse_eq[of s "Str c" d]
    by (simp add: onGmMessage_def gm_inv_captured gm_inv_def)
qed

text \<open>
  C18.  A reply to a command, on whatever connection it comes in, is shown as the result of this
  command and changes no other result; a reply without a command changes nothing.
\<close>

theorem gm_reply_shown:
  assumes "gm_reach s" and "JSON_parse t = Inr (Obj ps)"
    and "prop_get ps ''type'' = Some (Str ''gmCommand'')" and "prop_get ps ''data'' = Some d"
    and "prop_get ps ''command'' = Some (Str c)"
  shows "gm_shown (gm_act (GmReceive i t) s) =
    (if c = '''' then gm_shown s else prop_set c d (gm_shown s))"
  using assms by (rule gm_reply_shown_at)

section \<open>Selection\<close>

text \<open>
  C33.  Whatever is on the page can be selected: the menu and the select box offer the same labels, and
  choosing a label in either of them makes a command with this label the current one.
\<close>

theorem gm_selection:
  assumes "gm_reach s"
  shows "set (menu_keys s) = set (selectOptions s) \<and>
    (\<forall>k \<in> set (menu_keys s). \<exists>p. gp_name p = Some k \<and> gp_command p \<noteq> None
       \<and> gmCommandProps (gm_act (MenuSelect k) s) = Some p
       \<and> gmCommandProps (gm_act (SelectChange (Some k)) s) = Some p)"
proof -
  have inv: "gm_inv s" using assms by (rule gm_inv_reach)
  then have same: "set (menu_keys s) = set (selectOptions s)"
    and names: "\<And>k p. prop_get (nameToCommand s) k = Some p \<Longrightarrow> gp_name p = Some k \<and> gp_command p \<noteq> None"
    by (simp_all add: gm_inv_def menu_ok_def)
  have "\<exists>p. prop_get (nameToCommand s) k = Some p" if "k \<in> set (menu_keys s)" for k
    using menu_lookup[OF inv] that by blast
  with same names show ?thesis
    by (fastforce simp: onMenuSelected_def onCommandSelected_def rendered_def)
qed

section \<open>Rendering\<close>

lemma render_fields_total:
  assumes "\<forall>args. gp_args p = Some args \<longrightarrow> Null \<notin> set args \<and> Undef \<notin> set args"
  shows "\<exists>ns. render_fields p = Inr ns"
proof (cases "gp_args p")
  case (Some args)
  with assms have "Null \<notin> set args \<and> Undef \<notin> set args" by blast
  then have "\<exists>fs. collect render_field args = Inr fs"
  proof (induction args)
    case (Cons a args)
    then obtain fs where "collect render_field args = Inr fs" by auto
    moreover have "\<exists>n. render_field a = Inr n" using Cons.prems by (cases a) (auto simp: render_field_def)
    ultimately show ?case by auto
  qed simp
  with Some show ?thesis by (auto simp: render_fields_def)
qed (simp add: render_fields_def)

text \<open>The tags of the page itself do not occur inside a form.\<close>

definition page_tag :: "string \<Rightarrow> bool" where
  "page_tag t \<longleftrightarrow> t = ''Result'' \<or> t = ''Menu.Item''"

lemma elems_field_attrs: "concat (map (\<lambda>p. elems_attr (snd p)) (field_attrs a)) = []"
  by (cases "js_get a ''index''"; cases "js_get a ''name''") (simp_all add: field_attrs_def)

lemma elems_field:
  assumes "render_field a = Inr ns"
  shows "concat (map elems ns) = ns \<and> (\<forall>n \<in> set ns. \<not> has_tag ''Result'' n \<and> \<not> has_tag ''Menu.Item'' n)"
proof -
  obtain ty where "js_get a ''type'' = Inr ty" using assms by (cases "js_get a ''type''") (auto simp: render_field_def)
  with assms have "ns = [] \<or> (\<exists>t ps. ns = [Elem t ps []] \<and> t \<noteq> ''Result'' \<and> t \<noteq> ''Menu.Item''
      \<and> (ps = field_attrs a \<or> ps = (''width'', PS ''md'') # field_attrs a))"
    by (auto simp: render_field_def split: if_splits)
  then show ?thesis using elems_field_attrs[of a] by auto
qed

lemma no_page_tag_fields:
  assumes "render_fields p = Inr ns" and "page_tag t"
  shows "filter (has_tag t) (concat (map elems ns)) = []"
proof (cases "gp_args p")
  case (Some args)
  then obtain fs where fs: "collect render_field args = Inr fs" "ns = concat fs"
    using assms by (auto simp: render_fields_def and_then_Inr)
  have "filter (has_tag t) (concat (map elems (concat fs))) = []"
    using fs(1)
  proof (induction args arbitrary: fs)
    case (Cons a args)
    then obtain n ns' where "render_field a = Inr n" "collect render_field args = Inr ns'" "fs = n # ns'"
      by (auto simp: and_then_Inr)
    with Cons.IH[of ns'] elems_field[of a n] assms(2) show ?case
      by (auto simp: page_tag_def filter_empty_conv)
  qed simp
  with fs show ?thesis by simp
qed (use assms in \<open>simp add: render_fields_def\<close>)

lemma no_tag_child: "filter (has_tag t) (concat (map elems (child v))) = []"
  by (induction v rule: child.induct) (auto simp: filter_empty_conv)

lemma no_page_tag_command:
  assumes "render_command p d r = Inr v" and "page_tag t"
  shows "filter (has_tag t) (elems v) = []"
proof -
  obtain fs where fs: "render_fields p = Inr fs" using assms(1) by (auto simp: render_command_def and_then_Inr)
  from assms(1) fs no_page_tag_fields[OF fs assms(2)] no_tag_child[of t r] assms(2) show ?thesis
    by (auto simp: render_command_def shown_if_def page_tag_def)
qed

lemma render_command_total: "render_fields p = Inr fs \<Longrightarrow> \<exists>v. render_command p d r = Inr v"
  by (simp add: render_command_def)

lemma menu_items:
  "map (attr_of ''key'') (filter (has_tag ''Menu.Item'') (elems (render_menu s)))
     = map (\<lambda>k. Some (PS k)) (menu_keys s)"
  "filter (has_tag ''Result'') (elems (render_menu s)) = []"
proof -
  have items: "concat (map elems (map (\<lambda>c. Elem ''Menu.Item'' [(''key'', PS (gc_label c))] [Text (gc_label c)]) cs))
      = concat (map (\<lambda>c. [Elem ''Menu.Item'' [(''key'', PS (gc_label c))] [Text (gc_label c)], Text (gc_label c)]) cs)"
    for cs by (induction cs) auto
  have keys: "map (attr_of ''key'') (filter (has_tag ''Menu.Item'') (concat (map (\<lambda>c. [Elem ''Menu.Item''
      [(''key'', PS (gc_label c))] [Text (gc_label c)], Text (gc_label c)]) cs)))
      = map (\<lambda>k. Some (PS k)) (map gc_label cs)" for cs
    by (induction cs) auto
  let ?sub = "\<lambda>category. Elem ''SubMenu''
           [(''key'', PV (cat_name category)), (''icon'', PNodes [Elem ''MailOutlined'' [] []]),
            (''title'', PV (cat_name category))]
           (if length (cat_value category) > 0 then
              map (\<lambda>command. Elem ''Menu.Item'' [(''key'', PS (gc_label command))]
                [Text (gc_label command)]) (cat_value category)
            else [])"
  have "map (attr_of ''key'') (filter (has_tag ''Menu.Item'') (concat (map elems (map ?sub gs))))
      = map (\<lambda>k. Some (PS k)) (concat (map (\<lambda>c. map gc_label (cat_value c)) gs))" for gs
    by (induction gs) (simp_all add: items keys flip: map_map)
  then show "map (attr_of ''key'') (filter (has_tag ''Menu.Item'') (elems (render_menu s)))
     = map (\<lambda>k. Some (PS k)) (menu_keys s)"
    by (simp add: render_menu_def menu_keys_def comp_def)
  have "filter (has_tag ''Result'') (concat (map elems (map ?sub gs))) = []" for gs
    by (induction gs) (auto simp: filter_empty_conv)
  from this[of "GMData s"] show "filter (has_tag ''Result'') (elems (render_menu s)) = []"
    by (simp add: render_menu_def del: map_map)
qed


section \<open>A run of the page\<close>

definition gm_listed :: gm_page where
  "gm_listed = gm_act (GmReceive 0 gm_list_text) (onopenGm 0 gm0)"

definition gm_chosen :: gm_page where
  "gm_chosen = gm_act (SelectChange (Some ''give(add)'')) gm_listed"

lemma gm_listed_eq: "gm_listed = setGmList
   [(\<lparr>cat_name = Str ''item'', cat_value = [item_of (''add'', ''give'', snd (snd (hd (snd (hd sample_catalog)))))]\<rparr>,
     [(''give(add)'', props_of (''add'', ''give'', snd (snd (hd (snd (hd sample_catalog))))))]),
    (\<lparr>cat_name = Str ''role'', cat_value = []\<rparr>, [])] (onopenGm 0 gm0)"
  unfolding gm_listed_def
  by (subst receive_gm_list[OF gm_list_text_parse _ _ sample_catalog_parse sample_catalog_ok])
    (simp_all add: prop_get_Cons sample_catalog_def)

lemma gm_listed_state:
  "selectOptions gm_listed = [''give(add)'']" "menu_keys gm_listed = [''give(add)'']"
  "gm_client gm_listed = Some 0" "socks (gm_net gm_listed) = [OPEN]" "gm_shown gm_listed = []"
  "gmCommandProps gm_listed = Some no_gm_props" "gm_timers gm_listed = []"
  "prop_get (nameToCommand gm_listed) ''give(add)''
     = Some (props_of (''add'', ''give'', snd (snd (hd (snd (hd sample_catalog))))))"
  by (simp_all add: gm_listed_eq setGmList_def Let_def rendered_def menu_keys_def gm0_def startGmSocket_def
      onopenGm_def gmClientEffect_def gmSend_def gm_object_def prop_literal_def prop_set_def prop_get_Cons)

lemma gm_chosen_state:
  "gm_client gm_chosen = Some 0" "socks (gm_net gm_chosen) = [OPEN]" "gm_shown gm_chosen = []"
  "gmCommandProps gm_chosen = Some (props_of (''add'', ''give'', snd (snd (hd (snd (hd sample_catalog))))))"
  "gm_timers gm_chosen = []"
  by (simp_all add: gm_chosen_def gm_listed_state onCommandSelected_def rendered_def)
    (simp add: gm_listed_eq setGmList_def Let_def rendered_def gm0_def startGmSocket_def
      onopenGm_def gmClientEffect_def gmSend_def gm_object_def)

lemma gm_reach_act: "gm_reach s \<Longrightarrow> gm_reach (gm_act a s)"
  by (blast intro: ws_reach.step ws_step.acted)

lemma gm_reach_open: "gm_reach s \<Longrightarrow> ready_of (gm_net s) i = CONNECTING \<Longrightarrow> gm_reach (onopenGm i s)"
  by (blast intro: ws_reach.step ws_step.opened)

lemma gm_reach_close: "gm_reach s \<Longrightarrow> ready_of (gm_net s) i \<noteq> CLOSED \<Longrightarrow> gm_reach (oncloseGm i s)"
  by (blast intro: ws_reach.step ws_step.closed)

lemma gm_listed_reach: "gm_reach gm_listed"
  unfolding gm_listed_def
  by (intro gm_reach_act gm_reach_open ws_reach.start)
    (simp add: gm0_def startGmSocket_def ready_of_def)

lemma gm_chosen_reach: "gm_reach gm_chosen"
  unfolding gm_chosen_def by (intro gm_reach_act gm_listed_reach)

definition gm_reply_text :: string where
  "gm_reply_text = stringify (Obj [(''type'', Str ''gmCommand''), (''command'', Str ''add''),
     (''data'', Str ''ok'')])"

lemma gm_reply_text_parse: "JSON_parse gm_reply_text = Inr (Obj [(''type'', Str ''gmCommand''),
    (''command'', Str ''add''), (''data'', Str ''ok'')])"
  using JSON_parse_stringify[of "Obj [(''type'', Str ''gmCommand''), (''command'', Str ''add''),
     (''data'', Str ''ok'')]"]
  by (simp add: gm_reply_text_def prop_ordered_names array_index_name is_digit_def)

theorem gm_reply_shown_witness:
  "gm_shown (gm_act (GmReceive 0 gm_reply_text) gm_chosen) = [(''add'', Str ''ok'')]"
  using gm_reply_shown[OF gm_chosen_reach gm_reply_text_parse, of "Str ''ok''" "''add''" 0]
  by (simp add: prop_get_Cons gm_chosen_state prop_set_def)

theorem gm_selection_witness:
  "\<exists>p. gp_name p = Some ''give(add)'' \<and> gmCommandProps (gm_act (MenuSelect ''give(add)'') gm_listed) = Some p"
  using gm_selection[OF gm_listed_reach] gm_listed_state(2) by auto


section \<open>Submission\<close>

lemma gm_message_names: "prop_ordered [(''type'', a), (''data'', b :: jsval), (''command'', c)]"
    "prop_ordered [(''type'', a), (''data'', b)]"
  by (simp_all add: prop_ordered_names array_index_name is_digit_def)

lemma gm_frame_wf:
  "js_wf (Obj vs) \<Longrightarrow> js_wf (Obj (prop_set ''command'' (Str c) vs))"
  by (rule js_wf_set) simp_all

text \<open>
  Submitting the form of a command while the page is connected clears the result shown for the
  command and sends exactly one frame, from which the game server reads back the values of the form
  with the command among them, and the command by itself, which the reply will carry.
\<close>

theorem gm_submit_online:
  assumes "gm_reach s" and "gm_client s = Some k" and "gmCommandProps s = Some p"
    and "gp_command p = Some c" and "js_wf (Obj vs)"
  shows "let s' = gm_act (FormSubmit vs) s in
    gm_shown s' = (if c = '''' then gm_shown s else prop_set c Undef (gm_shown s))
    \<and> (\<exists>text. frames (gm_net s') = frames (gm_net s) @ [(k, text)]
        \<and> JSON_parse text = Inr (Obj [(''type'', Str ''gmCommand''),
             (''data'', clean (Obj (prop_set ''command'' (Str c) vs))), (''command'', Str c)]))"
proof -
  let ?t = "stringify (Obj [(''type'', Str ''gmCommand''), (''data'', Obj (prop_set ''command'' (Str c) vs)),
      (''command'', Str c)])"
  have "JSON_parse ?t = Inr (Obj [(''type'', Str ''gmCommand''),
             (''data'', clean (Obj (prop_set ''command'' (Str c) vs))), (''command'', Str c)])"
    using gm_frame_wf[OF assms(5)] by (subst JSON_parse_stringify) (simp_all add: gm_message_names)
  moreover have "ready_of (gm_net s) k = OPEN" using assms(1,2) by (rule gm_ws.client_open)
  moreover have "one_object s" using gm_inv_reach[OF assms(1)] by (simp add: gm_inv_def)
  moreover then have "gm_response s = 0" by (simp add: one_object_def)
  ultimately show ?thesis
    using assms(2-4)
    by (auto simp: shown_form_def onSubmit_def command_key_def onSubmitGMCommand_def gmSend_def
        setCommandResponse_eq send_open Let_def)
qed

theorem gm_submit_online_witness:
  "\<exists>text. frames (gm_net (gm_act (FormSubmit [(''1'', Num 7)]) gm_chosen))
       = frames (gm_net gm_chosen) @ [(0, text)]
     \<and> JSON_parse text = Inr (Obj [(''type'', Str ''gmCommand''),
         (''data'', Obj [(''1'', Num 7), (''command'', Str ''add'')]), (''command'', Str ''add'')])"
proof -
  have "prop_set ''command'' (Str ''add'') [(''1'', Num 7)] = [(''1'', Num 7), (''command'', Str ''add'')]"
    by (simp add: prop_set_def key_before_def array_index_name is_digit_def)
  then show ?thesis
    using gm_submit_online[OF gm_chosen_reach gm_chosen_state(1,4), of "''add''" "[(''1'', Num 7)]"]
    by (simp add: prop_ordered_def Let_def del: gm_act.simps)
qed

text \<open>
  Submitting while the page is not connected sends nothing but makes a new connection and leaves a
  timer for it; the text the timer is going to send carries the values of the form, but, unlike the
  text above, no command by itself for the reply to carry.
\<close>

theorem gm_submit_offline:
  assumes "gm_reach s" and "gm_client s = None" and "gmCommandProps s = Some p"
    and "gp_command p = Some c" and "js_wf (Obj vs)"
  shows "let s' = gm_act (FormSubmit vs) s; k = length (socks (gm_net s)) in
    socks (gm_net s') = socks (gm_net s) @ [CONNECTING]
    \<and> frames (gm_net s') = frames (gm_net s)
    \<and> (\<exists>text. gm_timers s' = gm_timers s @ [(k, text)]
        \<and> JSON_parse text = Inr (Obj [(''type'', Str ''gmCommand''),
             (''data'', clean (Obj (prop_set ''command'' (Str c) vs)))]))"
proof -
  let ?t = "stringify (Obj [(''type'', Str ''gmCommand''), (''data'', Obj (prop_set ''command'' (Str c) vs))])"
  have "JSON_parse ?t = Inr (Obj [(''type'', Str ''gmCommand''),
             (''data'', clean (Obj (prop_set ''command'' (Str c) vs)))])"
    using gm_frame_wf[OF assms(5)] by (subst JSON_parse_stringify) (simp_all add: gm_message_names)
  moreover have "gm_timers (setCommandResponse i d e s) = gm_timers s" for i d e
    by (simp add: setCommandResponse_def setAllGmCommandResponse_def Let_def)
  ultimately show ?thesis
    using assms(2-4)
    by (simp add: shown_form_def onSubmit_def command_key_def onSubmitGMCommand_def startGmSocket_def Let_def)
qed

text \<open>
  When the timer fires after half a second, its text is sent if the connection is open by then.
  If the connection is still being opened, the command is lost: nothing is sent, no timer is left,
  and the user is not told.
\<close>

theorem gm_timer:
  assumes "i < length (gm_timers s)" and "gm_timers s ! i = (k, text)"
  shows "let s' = gm_act (Timer i) s in
    log (gm_net s') = log (gm_net s) @ (if ready_of (gm_net s) k = OPEN then [Frame k text] else [])
    \<and> length (gm_timers s) = Suc (length (gm_timers s'))"
  using assms
  by (cases "ready_of (gm_net s) k") (simp_all add: onTimer_def gmSend_def send_def Let_def)

definition gm_offline :: gm_page where
  "gm_offline = gm_act (FormSubmit []) (oncloseGm 0 gm_chosen)"

lemma gm_closed_state: "gm_client (oncloseGm 0 gm_chosen) = None"
    "socks (gm_net (oncloseGm 0 gm_chosen)) = [CLOSED]"
    "gm_timers (oncloseGm 0 gm_chosen) = []"
    "gmCommandProps (oncloseGm 0 gm_chosen)
       = Some (props_of (''add'', ''give'', snd (snd (hd (snd (hd sample_catalog))))))"
  by (simp_all add: oncloseGm_def gm_chosen_state) (simp_all add: rendered_def gm_chosen_state)

lemma gm_closed_reach: "gm_reach (oncloseGm 0 gm_chosen)"
  by (rule gm_reach_close[OF gm_chosen_reach]) (simp add: ready_of_def gm_chosen_state)

theorem gm_submit_offline_witness:
  "socks (gm_net gm_offline) = [CLOSED, CONNECTING] \<and> frames (gm_net gm_offline) = frames (gm_net gm_chosen)"
  using gm_submit_offline[OF gm_closed_reach gm_closed_state(1,4), of "''add''" "[]"]
  by (simp add: gm_offline_def gm_closed_state Let_def) (simp add: oncloseGm_def rendered_def)

lemma gm_offline_state:
  "gm_client gm_offline = None" "socks (gm_net gm_offline) = [CLOSED, CONNECTING]"
  "length (gm_timers gm_offline) = 1" "fst (hd (gm_timers gm_offline)) = 1"
  "gmCommandProps gm_offline
     = Some (props_of (''add'', ''give'', snd (snd (hd (snd (hd sample_catalog))))))"
  by (simp_all add: gm_offline_def shown_form_def gm_closed_state onSubmit_def onSubmitGMCommand_def
      startGmSocket_def setCommandResponse_def setAllGmCommandResponse_def Let_def)

theorem gm_timer_witness:
  "log (gm_net (gm_act (Timer 0) gm_offline)) = log (gm_net gm_offline)
   \<and> gm_timers (gm_act (Timer 0) gm_offline) = []"
proof -
  obtain t where "gm_timers gm_offline = [(1, t)]"
    using gm_offline_state(3,4) by (cases "gm_timers gm_offline") (auto simp: prod_eq_iff)
  then show ?thesis
    using gm_timer[of 0 gm_offline 1 t]
    by (simp add: ready_of_def gm_offline_state Let_def del: One_nat_def)
qed

section \<open>Connections\<close>

lemma gm_submit_socks:
  "gm_client s \<noteq> None \<Longrightarrow> length (socks (gm_net (gm_act (FormSubmit vs) s))) = length (socks (gm_net s))"
  by (cases "shown_form s") (auto simp: onSubmit_def onSubmitGMCommand_def gmSend_def Let_def)

lemma gm_act_socks:
  "\<nexists>vs. a = FormSubmit vs \<Longrightarrow> length (socks (gm_net (gm_act a s))) = length (socks (gm_net s))"
proof (cases a)
  case (GmReceive i m)
  then show ?thesis
    using onGmMessage_frame[of "captured_by i s" m s] by (cases "onGmMessage (captured_by i s) m s") auto
next
  case (FormChange vs)
  then show ?thesis by (cases "shown_form s") simp_all
next
  case FormReset
  then show ?thesis by (cases "shown_form s") simp_all
qed (simp_all add: onClickGmCommand_def onMenuSelected_def onCommandSelected_def onTimer_def gmSend_def
      case_prod_beta' Let_def)

text \<open>
  The page does not reconnect by itself: a step makes a new connection only if it is the
  submission of a form while the page is not connected.
\<close>

theorem gm_no_reconnect:
  assumes "gm_reach s" and "ws_step gm_net onopenGm oncloseGm gm_act s t"
    and "length (socks (gm_net t)) \<noteq> length (socks (gm_net s))"
  shows "gm_client s = None \<and> (\<exists>vs. t = gm_act (FormSubmit vs) s)"
  using assms(2)
proof (cases rule: ws_step.cases)
  case (opened i)
  then show ?thesis using assms(3) by (simp add: gm_ws.opn_socks)
next
  case (closed i)
  then show ?thesis using assms(3) by (simp add: oncloseGm_def)
next
  case (acted a)
  then have "\<exists>vs. a = FormSubmit vs" using assms(3) gm_act_socks by metis
  moreover have "gm_client s = None"
    using calculation acted assms(3) gm_submit_socks by metis
  ultimately show ?thesis using acted by blast
qed

theorem gm_no_reconnect_witness:
  "gm_client (oncloseGm 0 gm_chosen) = None \<and> (\<exists>vs. gm_offline = gm_act (FormSubmit vs) (oncloseGm 0 gm_chosen))"
  using gm_no_reconnect[OF gm_closed_reach, of gm_offline]
    ws_step.acted[of gm_net onopenGm oncloseGm gm_act "oncloseGm 0 gm_chosen" "FormSubmit []"]
  by (simp add: gm_offline_state gm_closed_state del: gm_act.simps flip: gm_offline_def)

text \<open>Two submissions while the page is not connected, both connections open, the first one closes.\<close>

definition gm_leak :: gm_page where
  "gm_leak = oncloseGm 1 (onopenGm 2 (onopenGm 1 (gm_act (FormSubmit []) gm_offline)))"

text \<open>
  Connections of several submissions are not kept apart: it can happen that a connection of the
  page is open and yet the page takes itself to be disconnected.
\<close>

theorem gm_connection_lost_track:
  "gm_reach gm_leak \<and> gm_client gm_leak = None \<and> ready_of (gm_net gm_leak) 2 = OPEN"
proof -
  let ?s = "gm_act (FormSubmit []) gm_offline"
  have "gm_reach ?s"
    unfolding gm_offline_def by (intro gm_reach_act gm_closed_reach)
  moreover have socks: "socks (gm_net ?s) = [CLOSED, CONNECTING, CONNECTING]"
    using gm_offline_state
    by (simp add: shown_form_def onSubmit_def onSubmitGMCommand_def startGmSocket_def Let_def)
  have step: "socks (gm_net (onopenGm i s)) = (socks (gm_net s))[i := OPEN]" for i s
    by (rule gm_ws.opn_socks)
  ultimately have "gm_reach gm_leak"
    unfolding gm_leak_def
    by (intro gm_reach_close gm_reach_open) (simp_all add: ready_of_def step socks del: gm_act.simps)
  moreover have "gm_client gm_leak = None" by (simp add: gm_leak_def oncloseGm_def)
  moreover have "ready_of (gm_net gm_leak) 2 = OPEN"
    by (simp add: gm_leak_def oncloseGm_def ready_of_def step socks del: gm_act.simps)
  ultimately show ?thesis by blast
qed

end
