(* ===== verification/GmEndToEnd.thy ===== *)
theory GmEndToEnd
  imports GmPaneProps Admin
begin

text \<open>
  The page of the GM commands together with the admin process: which results reach the page.
\<close>

text \<open>
  The answers of the admin process to a command: at once, or after it has passed the command on to a
  game server and got a response.
\<close>

definition gm_answer :: "web_message \<Rightarrow> web_message \<Rightarrow> bool" where
  "gm_answer m a \<longleftrightarrow>
     (\<exists>e. onGMCommand e m = Reply a
        \<or> (\<exists>ty t d k r. onGMCommand e m = Command ty t d k \<and> resume k r = ([], Reply a)))"

lemma gm_answer_reply: "gm_answer m a \<Longrightarrow> \<exists>r. a = gm_reply m r"
  by (auto simp: gm_answer_def onGMCommand_def Let_def split: if_splits)

lemma gm_answer_received:
  assumes "gm_reach s" and "gm_answer m a" and "carries t a" and "wm_type m = ''gmCommand''"
  shows "gm_shown (gm_act (GmReceive i t) s) =
    (if wm_command m = '''' then gm_shown s else prop_set (wm_command m) (wm_data a) (gm_shown s))"
proof -
  obtain r where "a = gm_reply m r" using gm_answer_reply[OF assms(2)] by blast
  with assms show ?thesis
    by (intro gm_reply_shown_at)
      (auto simp: carries_def message_value_def gm_reply_def text_reply_def prop_get_Cons)
qed

text \<open>What the admin process reads of the two requests of the page.\<close>

definition gm_request :: "string \<Rightarrow> jsval \<Rightarrow> web_message" where
  "gm_request c d = \<lparr>wm_type = ''gmCommand'', wm_target = '''', wm_command = c, wm_data = d\<rparr>"

lemma decode_gm:
  "JSON_parse t = Inr (Obj [(''type'', Str ''gmCommand''), (''data'', d), (''command'', Str c)])
     \<Longrightarrow> decode_message t = Decoded (gm_request c d)"
  "JSON_parse t = Inr (Obj [(''type'', Str ''gmCommand''), (''data'', d)])
     \<Longrightarrow> decode_message t = Decoded (gm_request '''' d)"
  by (simp_all add: decode_message_def go_string_def go_any_def prop_get_Cons gm_request_def)



end
