(* ===== verification/Services.thy ===== *)
theory Services
  imports Json
begin

text \<open>
  The HTTP services, \<open>tools/web/src/src/services/\<close>: what each function passes to umi's \<open>request\<close>.
  \<open>request\<close> itself, which sends it, is not part of the repository.
\<close>

section \<open>Requests\<close>

text \<open>A member of a request's configuration is a value or, for uploads, a form.\<close>

datatype config_member =
    V jsval
  | FormData "(string \<times> string) list"

type_synonym config = "config_member props"

text \<open>The arguments of \<open>request\<close>.\<close>

record api_request =
  ar_url :: string
  ar_config :: config

text \<open>\<open>request(url, {...defaults, ...(options || {})})\<close>.\<close>

definition request :: "string \<Rightarrow> config \<Rightarrow> config option \<Rightarrow> api_request" where
  "request url defaults options =
     \<lparr>ar_url = url,
      ar_config = prop_spread defaults (case options of None \<Rightarrow> [] | Some os \<Rightarrow> os)\<rparr>"

text \<open>The loop over \<open>Object.keys(body)\<close> that fills a form; \<open>append\<close> converts its value to a string.\<close>

fun form_value :: "jsval \<Rightarrow> string" where
  "form_value (Arr xs) = stringify (Arr xs)"
| "form_value (Obj ps) = stringify (Obj ps)"
| "form_value v = js_string v"

definition form_data :: "jsval props \<Rightarrow> (string \<times> string) list" where
  "form_data body =
     concat (map (\<lambda>ele. let item = or_undef (prop_get body ele) in
         if item \<noteq> Undef \<and> item \<noteq> Null then [(ele, form_value item)] else [])
       (keys body))"

section \<open>\<open>services/ant-design-pro\<close>\<close>

definition currentUser :: "config option \<Rightarrow> api_request" where
  "currentUser options = request ''/api/currentUser''
     [(''method'', V (Str ''GET''))]
     options"

definition outLogin :: "config option \<Rightarrow> api_request" where
  "outLogin options = request ''/api/login/outLogin''
     [(''method'', V (Str ''POST''))]
     options"

definition login :: "jsval \<Rightarrow> config option \<Rightarrow> api_request" where
  "login body options = request ''/api/login/account''
     [(''method'', V (Str ''POST'')),
      (''headers'', V (Obj [(''Content-Type'', Str ''application/json'')])),
      (''data'', V body)]
     options"

definition getNotices :: "config option \<Rightarrow> api_request" where
  "getNotices options = request ''/api/notices''
     [(''method'', V (Str ''GET''))]
     options"

definition rule :: "jsval props \<Rightarrow> config option \<Rightarrow> api_request" where
  "rule params options = request ''/api/rule''
     [(''method'', V (Str ''GET'')),
      (''params'', V (Obj (prop_spread [] params)))]
     options"

definition updateRule :: "config option \<Rightarrow> api_request" where
  "updateRule options = request ''/api/rule''
     [(''method'', V (Str ''PUT''))]
     options"

definition addRule :: "config option \<Rightarrow> api_request" where
  "addRule options = request ''/api/rule''
     [(''method'', V (Str ''POST''))]
     options"

definition removeRule :: "config option \<Rightarrow> api_request" where
  "removeRule options = request ''/api/rule''
     [(''method'', V (Str ''DELETE''))]
     options"

definition getFakeCaptcha :: "jsval props \<Rightarrow> config option \<Rightarrow> api_request" where
  "getFakeCaptcha params options = request ''/api/login/captcha''
     [(''method'', V (Str ''GET'')),
      (''params'', V (Obj (prop_spread [] params)))]
     options"

section \<open>\<open>services/swagger/pet.ts\<close>\<close>

definition updatePet :: "jsval \<Rightarrow> config option \<Rightarrow> api_request" where
  "updatePet body options = request ''/pet''
     [(''method'', V (Str ''PUT'')),
      (''headers'', V (Obj [(''Content-Type'', Str ''application/json'')])),
      (''data'', V body)]
     options"

definition addPet :: "jsval \<Rightarrow> config option \<Rightarrow> api_request" where
  "addPet body options = request ''/pet''
     [(''method'', V (Str ''POST'')),
      (''headers'', V (Obj [(''Content-Type'', Str ''application/json'')])),
      (''data'', V body)]
     options"

definition findPetsByStatus :: "jsval props \<Rightarrow> config option \<Rightarrow> api_request" where
  "findPetsByStatus params options = request ''/pet/findByStatus''
     [(''method'', V (Str ''GET'')),
      (''params'', V (Obj (prop_spread [] params)))]
     options"

definition findPetsByTags :: "jsval props \<Rightarrow> config option \<Rightarrow> api_request" where
  "findPetsByTags params options = request ''/pet/findByTags''
     [(''method'', V (Str ''GET'')),
      (''params'', V (Obj (prop_spread [] params)))]
     options"

definition getPetById :: "jsval props \<Rightarrow> config option \<Rightarrow> api_request" where
  "getPetById params options = request (''/pet/'' @ js_string (or_undef (prop_get params ''petId'')))
     [(''method'', V (Str ''GET'')),
      (''params'', V (Obj (prop_spread [] params)))]
     options"

definition updatePetWithForm :: "jsval props \<Rightarrow> jsval props \<Rightarrow> config option \<Rightarrow> api_request" where
  "updatePetWithForm params body options = request (''/pet/'' @ js_string (or_undef (prop_get params ''petId'')))
     [(''method'', V (Str ''POST'')),
      (''headers'', V (Obj [(''Content-Type'', Str ''application/x-www-form-urlencoded'')])),
      (''params'', V (Obj (prop_spread [] params))),
      (''data'', FormData (form_data body))]
     options"

definition deletePet :: "jsval props \<Rightarrow> config option \<Rightarrow> api_request" where
  "deletePet params options = request (''/pet/'' @ js_string (or_undef (prop_get params ''petId'')))
     [(''method'', V (Str ''DELETE'')),
      (''params'', V (Obj (prop_spread [] params)))]
     options"

definition uploadFile :: "jsval props \<Rightarrow> jsval props \<Rightarrow> config option \<Rightarrow> api_request" where
  "uploadFile params body options = request (''/pet/'' @ js_string (or_undef (prop_get params ''petId'')) @ ''/uploadImage'')
     [(''method'', V (Str ''POST'')),
      (''headers'', V (Obj [(''Content-Type'', Str ''multipart/form-data'')])),
      (''params'', V (Obj (prop_spread [] params))),
      (''data'', FormData (form_data body))]
     options"

section \<open>\<open>services/swagger/store.ts\<close>\<close>

definition getInventory :: "config option \<Rightarrow> api_request" where
  "getInventory options = request ''/store/inventory''
     [(''method'', V (Str ''GET''))]
     options"

definition placeOrder :: "jsval \<Rightarrow> config option \<Rightarrow> api_request" where
  "placeOrder body options = request ''/store/order''
     [(''method'', V (Str ''POST'')),
      (''data'', V body)]
     options"

definition getOrderById :: "jsval props \<Rightarrow> config option \<Rightarrow> api_request" where
  "getOrderById params options = request (''/store/order/'' @ js_string (or_undef (prop_get params ''orderId'')))
     [(''method'', V (Str ''GET'')),
      (''params'', V (Obj (prop_spread [] params)))]
     options"

definition deleteOrder :: "jsval props \<Rightarrow> config option \<Rightarrow> api_request" where
  "deleteOrder params options = request (''/store/order/'' @ js_string (or_undef (prop_get params ''orderId'')))
     [(''method'', V (Str ''DELETE'')),
      (''params'', V (Obj (prop_spread [] params)))]
     options"

section \<open>\<open>services/swagger/user.ts\<close>\<close>

definition createUser :: "jsval \<Rightarrow> config option \<Rightarrow> api_request" where
  "createUser body options = request ''/user''
     [(''method'', V (Str ''POST'')),
      (''data'', V body)]
     options"

definition createUsersWithArrayInput :: "jsval \<Rightarrow> config option \<Rightarrow> api_request" where
  "createUsersWithArrayInput body options = request ''/user/createWithArray''
     [(''method'', V (Str ''POST'')),
      (''data'', V body)]
     options"

definition createUsersWithListInput :: "jsval \<Rightarrow> config option \<Rightarrow> api_request" where
  "createUsersWithListInput body options = request ''/user/createWithList''
     [(''method'', V (Str ''POST'')),
      (''data'', V body)]
     options"

definition loginUser :: "jsval props \<Rightarrow> config option \<Rightarrow> api_request" where
  "loginUser params options = request ''/user/login''
     [(''method'', V (Str ''GET'')),
      (''params'', V (Obj (prop_spread [] params)))]
     options"

definition logoutUser :: "config option \<Rightarrow> api_request" where
  "logoutUser options = request ''/user/logout''
     [(''method'', V (Str ''GET''))]
     options"

definition getUserByName :: "jsval props \<Rightarrow> config option \<Rightarrow> api_request" where
  "getUserByName params options = request (''/user/'' @ js_string (or_undef (prop_get params ''username'')))
     [(''method'', V (Str ''GET'')),
      (''params'', V (Obj (prop_spread [] params)))]
     options"

definition updateUser :: "jsval props \<Rightarrow> jsval \<Rightarrow> config option \<Rightarrow> api_request" where
  "updateUser params body options = request (''/user/'' @ js_string (or_undef (prop_get params ''username'')))
     [(''method'', V (Str ''PUT'')),
      (''params'', V (Obj (prop_spread [] params))),
      (''data'', V body)]
     options"

definition deleteUser :: "jsval props \<Rightarrow> config option \<Rightarrow> api_request" where
  "deleteUser params options = request (''/user/'' @ js_string (or_undef (prop_get params ''username'')))
     [(''method'', V (Str ''DELETE'')),
      (''params'', V (Obj (prop_spread [] params)))]
     options"

section \<open>Properties\<close>

text \<open>All functions, applied to all arguments but the options.\<close>

definition services :: "jsval props \<Rightarrow> jsval \<Rightarrow> jsval props \<Rightarrow> (config option \<Rightarrow> api_request) list" where
  "services params body entries =
     [currentUser, outLogin, login body, getNotices, rule params, updateRule, addRule, removeRule,
      getFakeCaptcha params, updatePet body, addPet body, findPetsByStatus params,
      findPetsByTags params, getPetById params, updatePetWithForm params entries, deletePet params,
      uploadFile params entries, getInventory, placeOrder body, getOrderById params, deleteOrder params,
      createUser body, createUsersWithArrayInput body, createUsersWithListInput body, loginUser params,
      logoutUser, getUserByName params, updateUser params body, deleteUser params]"

lemmas service_defs = currentUser_def outLogin_def login_def getNotices_def rule_def updateRule_def
  addRule_def removeRule_def getFakeCaptcha_def updatePet_def addPet_def findPetsByStatus_def
  findPetsByTags_def getPetById_def updatePetWithForm_def deletePet_def uploadFile_def
  getInventory_def placeOrder_def getOrderById_def deleteOrder_def createUser_def
  createUsersWithArrayInput_def createUsersWithListInput_def loginUser_def logoutUser_def
  getUserByName_def updateUser_def deleteUser_def

lemma request_options:
  "ar_url (request u d options) = ar_url (request u d None) \<and>
   prop_get (ar_config (request u d options)) k =
     (case prop_get (rev (case options of None \<Rightarrow> [] | Some os \<Rightarrow> os)) k of
        Some v \<Rightarrow> Some v | None \<Rightarrow> prop_get (ar_config (request u d None)) k)"
  using prop_get_spread[of d "case options of None \<Rightarrow> [] | Some os \<Rightarrow> os" k]
  by (cases options) (simp_all add: request_def prop_get_def[of "rev _"] cong: option.case_cong)

text \<open>
  The caller's options have the last word in every service: they never change the address, a
  member they give replaces the default, and every other member is as without options.
\<close>

theorem services_options:
  assumes "f \<in> set (services params body entries)" and "distinct (keys os)"
  shows "ar_url (f (Some os)) = ar_url (f None) \<and>
    prop_get (ar_config (f (Some os))) k =
      (case prop_get os k of Some v \<Rightarrow> Some v | None \<Rightarrow> prop_get (ar_config (f None)) k)"
proof -
  have "\<exists>u d. f = request u d"
    using assms(1) by (auto simp: services_def service_defs fun_eq_iff)
  then obtain u d where f: "f = request u d" by blast
  have "map_of (rev os) = map_of os"
    using assms(2) by (intro map_of_inject_set[THEN iffD2]) (simp_all add: keys_def rev_map[symmetric])
  with request_options[of u d "Some os" k] show ?thesis
    by (simp add: f prop_get_def[of os] prop_get_def[of "rev os"] cong: option.case_cong)
qed

text \<open>The hypotheses can hold: an option of the caller overrides the method of a service.\<close>

theorem services_options_witness:
  "prop_get (ar_config (getPetById [(''petId'', Num 7)] (Some [(''method'', V (Str ''HEAD''))]))) ''method''
     = Some (V (Str ''HEAD''))
   \<and> ar_url (getPetById [(''petId'', Num 7)] (Some [(''method'', V (Str ''HEAD''))]))
     = ar_url (getPetById [(''petId'', Num 7)] None)"
  using services_options[of "getPetById [(''petId'', Num 7)]" "[(''petId'', Num 7)]" Undef "[]"
      "[(''method'', V (Str ''HEAD''))]" "''method''"]
  by (simp add: services_def prop_get_Cons)

text \<open>What a form entry of a value is read back as.\<close>

definition form_entry_of :: "jsval \<Rightarrow> string \<Rightarrow> bool" where
  "form_entry_of v e \<longleftrightarrow> (if is_primitive v then e = js_string v else JSON_parse e = Inr (clean v))"

lemma form_value_entry: "js_wf v \<Longrightarrow> form_entry_of v (form_value v)"
  using JSON_parse_stringify[of v]
  by (cases v) (simp_all add: form_entry_of_def del: clean.simps js_wf.simps)

text \<open>
  The uploads send one form entry for each field of the body that is neither undefined nor null,
  in the order of the fields: a primitive value as its string, an object or array as a JSON text from
  which it can be read back.
\<close>

theorem upload_form:
  assumes "js_wf (Obj body)"
  shows "prop_get (ar_config (uploadFile params body None)) ''data'' = Some (FormData (form_data body))
    \<and> prop_get (ar_config (updatePetWithForm params body None)) ''data'' = Some (FormData (form_data body))
    \<and> list_all2 (\<lambda>(k, v) (k', e). k' = k \<and> form_entry_of v e)
        (filter (\<lambda>(k, v). v \<noteq> Undef \<and> v \<noteq> Null) body) (form_data body)"
proof -
  have "list_all2 (\<lambda>(k, v) (k', e). k' = k \<and> form_entry_of v e)
        (filter (\<lambda>(k, v). v \<noteq> Undef \<and> v \<noteq> Null) ps)
        (concat (map (\<lambda>ele. let item = or_undef (prop_get body ele) in
         if item \<noteq> Undef \<and> item \<noteq> Null then [(ele, form_value item)] else []) (keys ps)))"
    if "set ps \<subseteq> set body" for ps
    using that
  proof (induction ps)
    case (Cons p ps)
    obtain k v where p: "p = (k, v)" by (cases p)
    with Cons.prems assms have "prop_get body k = Some v"
      by (simp add: prop_get_def prop_ordered_def keys_def)
    moreover have "js_wf v" using Cons.prems assms p by auto
    ultimately show ?case using Cons p form_value_entry[of v] by simp
  qed simp
  from this[of body] show ?thesis
    by (simp add: uploadFile_def updatePetWithForm_def request_def prop_get_Cons form_data_def Let_def)
qed

theorem upload_form_witness:
  "form_data [(''name'', Str ''Rex''), (''status'', Null)] = [(''name'', ''Rex'')]
   \<and> prop_get (ar_config (uploadFile [] [(''name'', Str ''Rex''), (''status'', Null)] None)) ''data''
       = Some (FormData [(''name'', ''Rex'')])"
  using upload_form[of "[(''name'', Str ''Rex''), (''status'', Null)]" "[]"]
  by (simp add: prop_ordered_names array_index_name is_digit_def form_data_def Let_def prop_get_Cons)

section \<open>The barrels\<close>

text \<open>
  \<open>services/ant-design-pro/index.ts\<close> and \<open>services/swagger/index.ts\<close> export one namespace per file,
  with the names of the functions that it holds.
\<close>

definition ant_design_pro_index :: "string list props" where
  "ant_design_pro_index =
     [(''api'', [''currentUser'', ''outLogin'', ''login'', ''getNotices'', ''rule'', ''updateRule'',
        ''addRule'', ''removeRule'']),
      (''login'', [''getFakeCaptcha''])]"

definition swagger_index :: "string list props" where
  "swagger_index =
     [(''pet'', [''updatePet'', ''addPet'', ''findPetsByStatus'', ''findPetsByTags'', ''getPetById'',
        ''updatePetWithForm'', ''deletePet'', ''uploadFile'']),
      (''store'', [''getInventory'', ''placeOrder'', ''getOrderById'', ''deleteOrder'']),
      (''user'', [''createUser'', ''createUsersWithArrayInput'', ''createUsersWithListInput'', ''loginUser'',
        ''logoutUser'', ''getUserByName'', ''updateUser'', ''deleteUser''])]"

end
