(* ===== verification/Layout.thy ===== *)
theory Layout
  imports Services React
begin

text \<open>
  The frame around the pages: the runtime configuration (\<open>src/app.tsx\<close>), the access rights
  (\<open>src/access.ts\<close>), and the components of the header and footer (\<open>src/components/RightContent\<close>,
  \<open>HeaderDropdown\<close>, \<open>Footer\<close>).  The class names that the style sheets are compiled to are a parameter
  \<open>styles\<close>, and so is \<open>querystring.stringify\<close>, which the logout uses.
\<close>

section \<open>Initial state and runtime configuration\<close>

text \<open>The data of the global state; its member \<open>fetchUserInfo\<close> is the function of that name below.\<close>

record initial_state =
  is_settings :: jsval
  is_currentUser :: jsval

definition fetchUserInfo :: jsval where
  "fetchUserInfo = Obj []"

definition getInitialState :: initial_state where
  "getInitialState = \<lparr>is_settings = Obj [], is_currentUser = Undef\<rparr>"

text \<open>\<open>v?.k\<close>.\<close>

definition opt_get :: "jsval \<Rightarrow> string \<Rightarrow> jsval" where
  "opt_get v k = (case js_get v k of Inl _ \<Rightarrow> Undef | Inr w \<Rightarrow> w)"

text \<open>\<open>...v\<close> in an object, for the values that settings have: an object, or nothing.\<close>

fun spread_of :: "jsval \<Rightarrow> jsval props" where
  "spread_of (Obj ps) = ps"
| "spread_of _ = []"

definition state_settings :: "initial_state option \<Rightarrow> jsval" where
  "state_settings s = (case s of None \<Rightarrow> Undef | Some i \<Rightarrow> is_settings i)"

definition state_user :: "initial_state option \<Rightarrow> jsval" where
  "state_user s = (case s of None \<Rightarrow> Undef | Some i \<Rightarrow> is_currentUser i)"

definition layout :: "initial_state option \<Rightarrow> jsval props" where
  "layout initialState = prop_spread
     [(''disableContentMargin'', Bool False),
      (''waterMarkProps'', Obj [(''content'', opt_get (state_user initialState) ''name'')]),
      (''links'', Arr []),
      (''menuHeaderRender'', Undef)]
     (spread_of (state_settings initialState))"

text \<open>\<open>canAdmin\<close>: \<open>currentUser && currentUser.access === 'admin'\<close>.\<close>

definition access :: "initial_state option \<Rightarrow> jsval props" where
  "access initialState =
     (let currentUser = state_user initialState in
      [(''canAdmin'', if truthy currentUser
          then Bool (strict_eq (opt_get currentUser ''access'') (Str ''admin'')) else currentUser)])"

section \<open>Logging out\<close>

text \<open>
  The functions that \<open>services/ant-design-pro/api.ts\<close> exports and that can be called without a first
  argument.  An import of any other name is \<open>undefined\<close>, and calling it throws.
\<close>

definition api_exports :: "(string \<times> (config option \<Rightarrow> api_request)) list" where
  "api_exports = [(''currentUser'', currentUser), (''outLogin'', outLogin), (''getNotices'', getNotices),
     (''updateRule'', updateRule), (''addRule'', addRule), (''removeRule'', removeRule)]"

definition call_import :: "string \<Rightarrow> api_request thrown" where
  "call_import name =
     (case map_of api_exports name of None \<Rightarrow> Inl TypeError | Some f \<Rightarrow> Inr (f None))"

text \<open>What a handler of the header does, and where the browser is when it does it.\<close>

datatype header_effect =
    Call api_request
  | Push string
  | Replace string string           \<comment> \<open>path and query\<close>

record header_location =
  hl_pathname :: string
  hl_query :: "jsval props"
  hl_window :: string               \<comment> \<open>\<open>window.location.pathname\<close>\<close>

definition loginOut :: "((string \<times> string) list \<Rightarrow> string) \<Rightarrow> header_location \<Rightarrow> header_effect list thrown" where
  "loginOut qs l =
     and_then (call_import ''logout'') (\<lambda>r.
       let redirect = or_undef (prop_get (hl_query l) ''redirect'') in
       Inr (Call r #
         (if hl_window l \<noteq> ''/user/login'' \<and> \<not> truthy redirect
          then [Replace ''/user/login'' (qs [(''redirect'', hl_pathname l)])] else [])))"

text \<open>
  \<open>onMenuClick\<close>: the new state and what the click does.  \<open>loginOut\<close> is not awaited, so its exception
  is a rejection that nobody handles.
\<close>

definition onMenuClick ::
  "((string \<times> string) list \<Rightarrow> string) \<Rightarrow> header_location \<Rightarrow> string \<Rightarrow> initial_state \<Rightarrow>
     initial_state \<times> header_effect list" where
  "onMenuClick qs l key s =
     (if key = ''logout'' then (s\<lparr>is_currentUser := Undef\<rparr>, or_keep [] (loginOut qs l))
      else (s, [Push (''/account/'' @ key)]))"

section \<open>Rendering\<close>

definition HeaderDropdown ::
  "(string \<Rightarrow> string) \<Rightarrow> (jsval list \<Rightarrow> string) \<Rightarrow> jsval \<Rightarrow> (string \<times> attr) list \<Rightarrow> vnode list \<Rightarrow> vnode" where
  "HeaderDropdown styles classNames cls restProps cs =
     Elem ''Dropdown'' (AList.updates (map fst restProps) (map snd restProps)
       [(''overlayClassName'', PS (classNames [Str (styles ''container''), cls]))]) cs"

definition avatar_loading :: "(string \<Rightarrow> string) \<Rightarrow> vnode" where
  "avatar_loading styles =
     Elem ''span'' [(''className'', PS (styles ''action'' @ '' '' @ styles ''account''))]
       [Elem ''Spin'' [(''size'', PS ''small''),
          (''style'', PV (Obj [(''marginLeft'', Num 8), (''marginRight'', Num 8)]))] []]"

definition avatar_menu :: "(string \<Rightarrow> string) \<Rightarrow> bool \<Rightarrow> vnode" where
  "avatar_menu styles menu =
     Elem ''Menu'' [(''className'', PS (styles ''menu'')), (''selectedKeys'', PV (Arr [])),
         (''onClick'', PFun ''onMenuClick'')]
       (shown_if menu (Elem ''Menu.Item'' [(''key'', PS ''center'')]
          [Elem ''UserOutlined'' [] [], Text (utf8 [0x4E2A, 0x4EBA, 0x4E2D, 0x5FC3])])
        @ shown_if menu (Elem ''Menu.Item'' [(''key'', PS ''settings'')]
          [Elem ''SettingOutlined'' [] [], Text (utf8 [0x4E2A, 0x4EBA, 0x8BBE, 0x7F6E])])
        @ shown_if menu (Elem ''Menu.Divider'' [] [])
        @ [Elem ''Menu.Item'' [(''key'', PS ''logout'')]
            [Elem ''LogoutOutlined'' [] [], Text (utf8 [0x9000, 0x51FA, 0x767B, 0x5F55])]])"

definition AvatarDropdown ::
  "(string \<Rightarrow> string) \<Rightarrow> (jsval list \<Rightarrow> string) \<Rightarrow> bool \<Rightarrow> initial_state option \<Rightarrow> vnode" where
  "AvatarDropdown styles classNames menu initialState =
     (case initialState of None \<Rightarrow> avatar_loading styles
      | Some s \<Rightarrow>
          let currentUser = is_currentUser s in
          if \<not> truthy currentUser \<or> \<not> truthy (opt_get currentUser ''name'') then avatar_loading styles
          else
            HeaderDropdown styles classNames Undef [(''overlay'', PNodes [avatar_menu styles menu])]
              [Elem ''span'' [(''className'', PS (styles ''action'' @ '' '' @ styles ''account''))]
                [Elem ''Avatar'' [(''size'', PS ''small''), (''className'', PS (styles ''avatar'')),
                   (''src'', PV (opt_get currentUser ''avatar'')), (''alt'', PS ''avatar'')] [],
                 Elem ''span'' [(''className'', PS (styles ''name'' @ '' anticon''))]
                   (child (opt_get currentUser ''name''))]])"

definition GlobalHeaderRight ::
  "(string \<Rightarrow> string) \<Rightarrow> (jsval list \<Rightarrow> string) \<Rightarrow> initial_state option \<Rightarrow> vnode list" where
  "GlobalHeaderRight styles classNames initialState =
     (if \<not> truthy (state_settings initialState) then []
      else
        let navTheme = opt_get (state_settings initialState) ''navTheme'';
            lay = opt_get (state_settings initialState) ''layout'';
            className = (if (navTheme = Str ''dark'' \<and> lay = Str ''top'') \<or> lay = Str ''mix''
                         then styles ''right'' @ ''  '' @ styles ''dark'' else styles ''right'')
        in [Elem ''Space'' [(''className'', PS className)]
             [AvatarDropdown styles classNames False initialState,
              Elem ''SelectLang'' [(''className'', PS (styles ''action''))] []]])"

text \<open>The footer, for the year and the translation of its message.\<close>

definition Footer :: "nat \<Rightarrow> (string \<Rightarrow> string \<Rightarrow> string) \<Rightarrow> vnode" where
  "Footer currentYear formatMessage =
     (let defaultMessage = formatMessage ''app.copyright.produced'' (utf8 [0x8682, 0x8681, 0x96C6, 0x56E2, 0x4F53, 0x9A8C, 0x6280, 0x672F, 0x90E8, 0x51FA, 0x54C1]) in
      Elem ''DefaultFooter''
        [(''copyright'', PS (show_nat currentYear @ '' '' @ defaultMessage)),
         (''links'', PNodes
           [Elem ''link'' [(''key'', PS ''Ant Design Pro''), (''title'', PS ''Ant Design Pro''),
              (''href'', PS ''https://pro.ant.design''), (''blankTarget'', PV (Bool True))] [],
            Elem ''link'' [(''key'', PS ''github''), (''title'', PNodes [Elem ''GithubOutlined'' [] []]),
              (''href'', PS ''https://github.com/ant-design/ant-design-pro''),
              (''blankTarget'', PV (Bool True))] [],
            Elem ''link'' [(''key'', PS ''Ant Design''), (''title'', PS ''Ant Design''),
              (''href'', PS ''https://ant.design''), (''blankTarget'', PV (Bool True))] []])] [])"

text \<open>The page for unknown addresses, and what its button does.\<close>

definition NoFoundPage :: vnode where
  "NoFoundPage =
     Elem ''Result'' [(''status'', PS ''404''), (''title'', PS ''404''),
       (''subTitle'', PS ''Sorry, the page you visited does not exist.''),
       (''extra'', PNodes [Elem ''Button'' [(''type'', PS ''primary''), (''onClick'', PFun ''backHome'')]
          [Text ''Back Home'']])] []"

definition backHome :: header_effect where
  "backHome = Push ''/''"

text \<open>The debug page, around the tabs of the consoles (theory \<open>Consoles\<close>).\<close>

definition Debug :: "vnode \<Rightarrow> vnode" where
  "Debug consoleTabPanes =
     Elem ''PageContainer'' []
       [Elem ''Tabs'' [(''defaultActiveKey'', PS ''console'')]
         [Elem ''TabPane'' [(''tab'', PS (utf8 [0x63A7, 0x5236, 0x53F0])), (''key'', PS ''console'')] [consoleTabPanes]]]"

section \<open>Properties\<close>

lemma loginOut_throws: "loginOut qs l = Inl TypeError"
  by (simp add: loginOut_def call_import_def api_exports_def)

text \<open>
  Choosing logout forgets the user and does nothing else: the server is not called and the
  browser is not sent to the login page, wherever it is, because the component calls a function that
  the services do not export.
\<close>

theorem logout_does_nothing:
  "onMenuClick qs l ''logout'' s = (s\<lparr>is_currentUser := Undef\<rparr>, [])"
  by (simp add: onMenuClick_def loginOut_throws)

text \<open>The global state after a series of clicks in the menu of the avatar.\<close>

definition after_clicks ::
  "((string \<times> string) list \<Rightarrow> string) \<Rightarrow> (header_location \<times> string) list \<Rightarrow> initial_state \<Rightarrow> initial_state" where
  "after_clicks qs cs s = fold (\<lambda>(l, k) s. fst (onMenuClick qs l k s)) cs s"

lemma after_clicks_user:
  "is_currentUser s = Undef \<Longrightarrow> is_currentUser (after_clicks qs cs s) = Undef"
  unfolding after_clicks_def
  by (induction cs arbitrary: s) (auto simp: onMenuClick_def)

lemma after_clicks_settings: "is_settings (after_clicks qs cs s) = is_settings s"
  unfolding after_clicks_def
  by (induction cs arbitrary: s) (auto simp: onMenuClick_def)

text \<open>
  The program never has a current user: from its initial state on, whatever is clicked, the header
  shows the avatar's loading indicator and the language selection, no menu, and nobody is an
  administrator.
\<close>

theorem header_without_user:
  "let s = Some (after_clicks qs cs getInitialState) in
    GlobalHeaderRight styles classNames s =
      [Elem ''Space'' [(''className'', PS (styles ''right''))]
         [avatar_loading styles, Elem ''SelectLang'' [(''className'', PS (styles ''action''))] []]]
    \<and> prop_get (access s) ''canAdmin'' = Some Undef"
proof -
  have "is_currentUser (after_clicks qs cs getInitialState) = Undef"
    by (rule after_clicks_user) (simp add: getInitialState_def)
  then show ?thesis
    by (simp add: GlobalHeaderRight_def AvatarDropdown_def access_def state_user_def state_settings_def
        after_clicks_settings getInitialState_def opt_get_def prop_get_Cons Let_def)
qed

end
