(* ===== verification/Notice.thy ===== *)
theory Notice
  imports Layout
begin

text \<open>
  The notifications of the header, \<open>src/components/NoticeIcon/\<close>: \<open>index.tsx\<close> (the list of notices,
  grouping, unread counts), \<open>NoticeIcon.tsx\<close> (the tabs) and \<open>NoticeList.tsx\<close> (one tab's list).  What
  comes from packages is a parameter: \<open>fromNow\<close> (moment), \<open>groupBy\<close> (lodash), \<open>classNames\<close>, and the
  class names \<open>styles\<close>.
\<close>

section \<open>Notices\<close>

text \<open>A member of a notice as the view shows it: a value, or the coloured tag around its \<open>extra\<close>.\<close>

datatype notice_member =
    NV jsval
  | NTag jsval jsval                \<comment> \<open>colour and content\<close>

type_synonym view_notice = "notice_member props"

definition notice_colors :: "jsval props" where
  "notice_colors = [(''todo'', Str ''''), (''processing'', Str ''blue''), (''urgent'', Str ''red''),
     (''doing'', Str ''gold'')]"

definition new_notice :: "(jsval \<Rightarrow> jsval) \<Rightarrow> jsval props \<Rightarrow> view_notice" where
  "new_notice fromNow notice =
     (let n0 = map (\<lambda>(k, v). (k, NV v)) (prop_spread [] notice);
          get = (\<lambda>k. or_undef (prop_get notice k));
          n1 = (if truthy (get ''datetime'') then prop_set ''datetime'' (NV (fromNow (get ''datetime''))) n0
                else n0);
          n2 = (if truthy (get ''id'') then prop_set ''key'' (NV (get ''id'')) n1 else n1)
      in if truthy (get ''extra'') \<and> truthy (get ''status'') then
           let color = or_undef (prop_get notice_colors (js_string (get ''status'')))
           in prop_set ''extra'' (NTag color (get ''extra'')) n2
         else n2)"

definition getNoticeData ::
  "(jsval \<Rightarrow> jsval) \<Rightarrow> (view_notice list \<Rightarrow> string \<Rightarrow> view_notice list props) \<Rightarrow>
     jsval props list \<Rightarrow> view_notice list props" where
  "getNoticeData fromNow groupBy notices =
     (if notices = [] then []
      else
        let newNotices = map (new_notice fromNow) notices
        in groupBy newNotices ''type'')"

text \<open>A member of a notice in the view, as a value; a tag is an element, hence truthy.\<close>

definition view_get :: "view_notice \<Rightarrow> string \<Rightarrow> jsval" where
  "view_get n k = (case prop_get n k of None \<Rightarrow> Undef | Some (NV v) \<Rightarrow> v | Some (NTag c e) \<Rightarrow> Obj [])"

definition getUnreadData :: "view_notice list props \<Rightarrow> nat props" where
  "getUnreadData noticeData =
     fold (\<lambda>key unreadMsg.
        let value = (case prop_get noticeData key of None \<Rightarrow> [] | Some ns \<Rightarrow> ns);
            u1 = (if prop_get unreadMsg key \<in> {None, Some 0} then prop_set key 0 unreadMsg else unreadMsg)
        in prop_set key (length (filter (\<lambda>item. \<not> truthy (view_get item ''read'')) value)) u1)
       (keys noticeData) []"

text \<open>\<open>setNotices(data || [])\<close>, when the answer to \<open>getNotices\<close> has come.\<close>

definition noticesEffect :: "jsval props list option \<Rightarrow> jsval props list" where
  "noticesEffect d = (case d of None \<Rightarrow> [] | Some ns \<Rightarrow> ns)"

definition changeReadState :: "jsval \<Rightarrow> jsval props list \<Rightarrow> jsval props list" where
  "changeReadState nid notices =
     map (\<lambda>item. let notice = prop_spread [] item in
        if strict_eq (or_undef (prop_get notice ''id'')) nid
        then prop_set ''read'' (Bool True) notice else notice) notices"

text \<open>The second component is the message of success.\<close>

definition clearReadState :: "string \<Rightarrow> string \<Rightarrow> jsval props list \<Rightarrow> jsval props list \<times> string" where
  "clearReadState title0 key notices =
     (map (\<lambda>item. let notice = prop_spread [] item in
        if strict_eq (or_undef (prop_get notice ''type'')) (Str key)
        then prop_set ''read'' (Bool True) notice else notice) notices,
      (utf8 [0x6E05, 0x7A7A, 0x4E86]) @ '' '' @ title0)"

section \<open>Tabs\<close>

text \<open>The properties of a tab (\<open>NoticeIconTabProps\<close>) that are data; \<open>None\<close> is \<open>undefined\<close>.\<close>

record notice_tab =
  nt_list :: "view_notice list option"
  nt_title :: string
  nt_count :: "nat option"
  nt_tabKey :: string
  nt_emptyText :: "string option"
  nt_clearText :: "string option"
  nt_viewMoreText :: "string option"
  nt_showClear :: "bool option"
  nt_showViewMore :: "bool option"

text \<open>What a pane gets of the tab's properties and the icon's: \<open>NoticeIcon\<close> does not pass \<open>emptyText\<close> on.\<close>

definition pane_list :: "string option \<Rightarrow> string option \<Rightarrow> notice_tab \<Rightarrow> notice_tab" where
  "pane_list clearText viewMoreText c =
     \<lparr>nt_list = nt_list c, nt_title = nt_title c, nt_count = None, nt_tabKey = nt_tabKey c,
      nt_emptyText = None, nt_clearText = clearText, nt_viewMoreText = viewMoreText,
      nt_showClear = nt_showClear c, nt_showViewMore = nt_showViewMore c\<rparr>"

definition tab_title :: "notice_tab \<Rightarrow> string" where
  "tab_title c =
     (let len = (case nt_list c of None \<Rightarrow> 0 | Some ns \<Rightarrow> length ns);
          msgCount = (case nt_count c of Some n \<Rightarrow> n | None \<Rightarrow> len)
      in if msgCount > 0 then nt_title c @ '' ('' @ show_nat msgCount @ '')'' else nt_title c)"

text \<open>\<open>NoticeList\<close>; an absent text is \<open>undefined\<close> and renders nothing.\<close>

definition opt_text :: "string option \<Rightarrow> vnode list" where
  "opt_text t = (case t of None \<Rightarrow> [] | Some s \<Rightarrow> [Text s])"

definition view_child :: "view_notice \<Rightarrow> string \<Rightarrow> vnode list" where
  "view_child n k =
     (case prop_get n k of None \<Rightarrow> [] | Some (NV v) \<Rightarrow> child v
      | Some (NTag color extra) \<Rightarrow>
          [Elem ''Tag'' [(''color'', PV color), (''style'', PV (Obj [(''marginRight'', Num 0)]))] (child extra)])"

definition render_notice ::
  "(string \<Rightarrow> string) \<Rightarrow> (jsval list \<Rightarrow> string) \<Rightarrow> nat \<Rightarrow> view_notice \<Rightarrow> vnode" where
  "render_notice styles classNames i item =
     (let itemCls = classNames [Str (styles ''item''), Obj [(styles ''read'', view_get item ''read'')]];
          leftIcon = (if truthy (view_get item ''avatar'') then
              (case view_get item ''avatar'' of
                 Str a \<Rightarrow> [Elem ''Avatar'' [(''className'', PS (styles ''avatar'')), (''src'', PS a)] []]
               | v \<Rightarrow> [Elem ''span'' [(''className'', PS (styles ''iconElement''))] (child v)])
            else [])
      in Elem ''List.Item''
           [(''className'', PS itemCls), (''key'', PV (js_or (view_get item ''key'') (Num (int i)))),
            (''onClick'', PFun ''onClick'')]
           [Elem ''List.Item.Meta''
              [(''className'', PS (styles ''meta'')), (''avatar'', PNodes leftIcon),
               (''title'', PNodes [Elem ''div'' [(''className'', PS (styles ''title''))]
                  (view_child item ''title'' @
                   [Elem ''div'' [(''className'', PS (styles ''extra''))] (view_child item ''extra'')])]),
               (''description'', PNodes [Elem ''div'' []
                  [Elem ''div'' [(''className'', PS (styles ''description''))] (view_child item ''description''),
                   Elem ''div'' [(''className'', PS (styles ''datetime''))] (view_child item ''datetime'')]])]
              []])"

definition NoticeList :: "(string \<Rightarrow> string) \<Rightarrow> (jsval list \<Rightarrow> string) \<Rightarrow> notice_tab \<Rightarrow> vnode" where
  "NoticeList styles classNames c =
     (let list1 = (case nt_list c of None \<Rightarrow> [] | Some ns \<Rightarrow> ns);
          showClear = (case nt_showClear c of None \<Rightarrow> True | Some b \<Rightarrow> b);
          showViewMore = (case nt_showViewMore c of None \<Rightarrow> False | Some b \<Rightarrow> b)
      in if list1 = [] then
           Elem ''div'' [(''className'', PS (styles ''notFound''))]
             [Elem ''img''
                [(''src'', PS ''https://gw.alipayobjects.com/zos/rmsportal/sAuJeJzSKbUmHfBQRzmZ.svg''),
                 (''alt'', PS ''not found'')] [],
              Elem ''div'' [] (opt_text (nt_emptyText c))]
         else
           Elem ''div'' []
             [Elem ''List'' [(''className'', PS (styles ''list'')),
                (''renderItem'', PNodes (map (\<lambda>(i, item). render_notice styles classNames i item)
                   (enumerate 0 list1)))] [],
              Elem ''div'' [(''className'', PS (styles ''bottomBar''))]
                (shown_if showClear (Elem ''div'' [(''onClick'', PFun ''onClear'')]
                   (opt_text (nt_clearText c) @ [Text '' '', Text (nt_title c)]))
                 @ shown_if showViewMore (Elem ''div'' [(''onClick'', PFun ''onViewMore'')]
                     (opt_text (nt_viewMoreText c))))])"

text \<open>
  \<open>NoticeIconProps\<close>, as far as they are data; of a callback, the name it is bound to.  \<open>ni_children\<close>
  are the properties of the tabs.  The style, the empty image and \<open>clearClose\<close> are not read.
\<close>

record notice_icon_props =
  ni_count :: jsval
  ni_bell :: "vnode option"
  ni_className :: jsval
  ni_loading :: jsval
  ni_onClear :: "string option"
  ni_onItemClick :: "string option"
  ni_onViewMore :: "string option"
  ni_onTabChange :: "string option"
  ni_onPopupVisibleChange :: "string option"
  ni_popupVisible :: jsval
  ni_clearText :: "string option"
  ni_viewMoreText :: "string option"
  ni_clearClose :: bool
  ni_emptyImage :: string
  ni_children :: "notice_tab list option"

text \<open>\<open>NoticeIcon.defaultProps\<close>.\<close>

definition defaultEmptyImage :: string where
  "defaultEmptyImage = ''https://gw.alipayobjects.com/zos/rmsportal/wAhyIChODzsoKIOBHcBk.svg''"

text \<open>A callback property that is given.\<close>

definition bound :: "string \<Rightarrow> string option \<Rightarrow> (string \<times> attr) list" where
  "bound k f = (case f of None \<Rightarrow> [] | Some g \<Rightarrow> [(k, PFun g)])"

definition getNotificationBox ::
  "(string \<Rightarrow> string) \<Rightarrow> (jsval list \<Rightarrow> string) \<Rightarrow> notice_icon_props \<Rightarrow> vnode option" where
  "getNotificationBox styles classNames props =
     (case ni_children props of None \<Rightarrow> None
      | Some tabs \<Rightarrow> Some
          (Elem ''Spin'' [(''spinning'', PV (ni_loading props)), (''delay'', PV (Num 300))]
             [Elem ''Tabs''
               ((''className'', PS (styles ''tabs'')) # bound ''onChange'' (ni_onTabChange props))
               (map (\<lambda>c. Elem ''TabPane'' [(''tab'', PS (tab_title c)), (''key'', PS (nt_tabKey c))]
                  [NoticeList styles classNames (pane_list (ni_clearText props) (ni_viewMoreText props) c)])
                 tabs)]))"

text \<open>\<open>NoticeIcon\<close>; \<open>visible\<close> is what \<open>useMergedState\<close> returns for \<open>popupVisible\<close>.\<close>

definition NoticeIcon ::
  "(string \<Rightarrow> string) \<Rightarrow> (jsval list \<Rightarrow> string) \<Rightarrow> notice_icon_props \<Rightarrow> bool \<Rightarrow> vnode" where
  "NoticeIcon styles classNames props visible =
     (let noticeButtonClass = classNames [ni_className props, Str (styles ''noticeButton'')];
          notificationBox = getNotificationBox styles classNames props;
          NoticeBellIcon = (case ni_bell props of Some b \<Rightarrow> b
             | None \<Rightarrow> Elem ''BellOutlined'' [(''className'', PS (styles ''icon''))] []);
          trigger = Elem ''span''
            [(''className'', PS (classNames [Str noticeButtonClass, Obj [(''opened'', Bool visible)]]))]
            [Elem ''Badge'' [(''count'', PV (ni_count props)),
               (''style'', PV (Obj [(''boxShadow'', Str ''none'')])), (''className'', PS (styles ''badge''))]
              [NoticeBellIcon]]
      in case notificationBox of None \<Rightarrow> trigger
         | Some box \<Rightarrow>
             HeaderDropdown styles classNames (Str (styles ''popover''))
               [(''placement'', PS ''bottomRight''), (''overlay'', PNodes [box]),
                (''trigger'', PV (Arr [Str ''click''])), (''visible'', PV (Bool visible)),
                (''onVisibleChange'', PFun ''setVisible'')] [trigger])"

text \<open>The tabs of \<open>NoticeIconView\<close>, for the present notices.\<close>

definition notice_tab_of ::
  "view_notice list props \<Rightarrow> string \<Rightarrow> string \<Rightarrow> string \<Rightarrow> notice_tab" where
  "notice_tab_of noticeData key title0 emptyText =
     \<lparr>nt_list = prop_get noticeData key, nt_title = title0,
      nt_count = prop_get (getUnreadData noticeData) key, nt_tabKey = key,
      nt_emptyText = Some emptyText, nt_clearText = None, nt_viewMoreText = None,
      nt_showClear = None, nt_showViewMore = Some True\<rparr>"

definition notice_tabs :: "view_notice list props \<Rightarrow> notice_tab list" where
  "notice_tabs noticeData =
     [notice_tab_of noticeData ''notification'' (utf8 [0x901A, 0x77E5]) (utf8 [0x4F60, 0x5DF2, 0x67E5, 0x770B, 0x6240, 0x6709, 0x901A, 0x77E5]),
      notice_tab_of noticeData ''message'' (utf8 [0x6D88, 0x606F]) (utf8 [0x60A8, 0x5DF2, 0x8BFB, 0x5B8C, 0x6240, 0x6709, 0x6D88, 0x606F]),
      notice_tab_of noticeData ''event'' (utf8 [0x5F85, 0x529E]) (utf8 [0x4F60, 0x5DF2, 0x5B8C, 0x6210, 0x6240, 0x6709, 0x5F85, 0x529E])]"

text \<open>What \<open>NoticeIconView\<close> gives the icon.\<close>

definition notice_icon :: "(string \<Rightarrow> string) \<Rightarrow> jsval \<Rightarrow> view_notice list props \<Rightarrow> notice_icon_props" where
  "notice_icon styles user noticeData =
     \<lparr>ni_count = js_and user (opt_get user ''unreadCount''), ni_bell = None,
      ni_className = Str (styles ''action''), ni_loading = Bool False, ni_onClear = Some ''clearReadState'',
      ni_onItemClick = Some ''changeReadState'', ni_onViewMore = Some ''info'', ni_onTabChange = None,
      ni_onPopupVisibleChange = None, ni_popupVisible = Undef,
      ni_clearText = Some (utf8 [0x6E05, 0x7A7A]),
      ni_viewMoreText = Some (utf8 [0x67E5, 0x770B, 0x66F4, 0x591A]), ni_clearClose = True,
      ni_emptyImage = defaultEmptyImage, ni_children = Some (notice_tabs noticeData)\<rparr>"

definition NoticeIconView ::
  "(string \<Rightarrow> string) \<Rightarrow> (jsval list \<Rightarrow> string) \<Rightarrow> initial_state option \<Rightarrow> bool \<Rightarrow>
     view_notice list props \<Rightarrow> vnode" where
  "NoticeIconView styles classNames initialState visible noticeData =
     NoticeIcon styles classNames (notice_icon styles (state_user initialState) noticeData) visible"

section \<open>Properties\<close>

lemma unread_step:
  "prop_get (fold (\<lambda>key u. prop_set key (f key) (if prop_get u key \<in> {None, Some 0} then prop_set key (0 :: nat) u else u)) ks u0) k
     = (if k \<in> set ks then Some (f k) else prop_get u0 k)"
  by (induction ks arbitrary: u0) auto

lemma unread_count:
  "prop_get (getUnreadData d) k =
     map_option (\<lambda>ns. length (filter (\<lambda>item. \<not> truthy (view_get item ''read'')) ns)) (prop_get d k)"
proof -
  have "getUnreadData d = fold (\<lambda>key u. prop_set key
      (length (filter (\<lambda>item. \<not> truthy (view_get item ''read''))
         (case prop_get d key of None \<Rightarrow> [] | Some ns \<Rightarrow> ns)))
      (if prop_get u key \<in> {None, Some 0} then prop_set key 0 u else u)) (keys d) []"
    by (simp add: getUnreadData_def Let_def)
  then show ?thesis
    using prop_get_None[of d k] by (simp only: unread_step) (auto split: option.split)
qed

lemma get_map_NV: "prop_get (map (\<lambda>(k, v). (k, NV v)) ps) k = map_option NV (prop_get ps k)"
  by (simp add: prop_get_def map_of_map)

lemma get_spread_Nil: "distinct (keys ps) \<Longrightarrow> prop_get (prop_spread [] ps) k = prop_get ps k"
proof -
  assume "distinct (keys ps)"
  then have "map_of (rev ps) = map_of ps"
    by (intro map_of_inject_set[THEN iffD2]) (simp_all add: keys_def rev_map[symmetric])
  then show ?thesis by (simp add: prop_get_spread) (simp add: prop_get_def split: option.split)
qed

text \<open>The members that the view does not rewrite.\<close>

lemma view_get_new_notice:
  assumes "distinct (keys n)" and "k \<notin> {''datetime'', ''key'', ''extra''}"
  shows "view_get (new_notice fromNow n) k = or_undef (prop_get n k)"
  using assms(2) get_spread_Nil[OF assms(1), of k]
  by (auto simp: view_get_def new_notice_def Let_def get_map_NV split: option.split)

lemma tab_title_read:
  "filter (\<lambda>item. \<not> truthy (view_get item ''read''))
     (case prop_get d key of None \<Rightarrow> [] | Some g \<Rightarrow> g) = [] \<Longrightarrow>
   tab_title (notice_tab_of d key title0 emptyText) = title0"
  by (cases "prop_get d key") (simp_all add: tab_title_def notice_tab_of_def unread_count)

text \<open>
  What lodash documents of \<open>groupBy\<close>: the group under a key holds those elements of the list, and no
  others, of which the member in question is this key as a string, in their order.
\<close>

definition groups_by :: "(view_notice list \<Rightarrow> string \<Rightarrow> view_notice list props) \<Rightarrow> bool" where
  "groups_by groupBy \<longleftrightarrow> (\<forall>ns m k.
     (case prop_get (groupBy ns m) k of None \<Rightarrow> [] | Some g \<Rightarrow> g)
       = filter (\<lambda>n. js_string (view_get n m) = k) ns)"

text \<open>
  Clearing a tab marks all its notices as read and no others, and the tab's title is then shown
  without a count, whatever notices there are (the type of each being a string).
\<close>

theorem clear_tab:
  assumes "groups_by groupBy"
    and "\<forall>n \<in> set notices. distinct (keys n) \<and> (\<exists>t. prop_get n ''type'' = Some (Str t))"
  shows "let notices' = fst (clearReadState title0 key notices);
             noticeData = getNoticeData fromNow groupBy notices' in
    map (\<lambda>n. prop_get n ''read'') notices' =
      map (\<lambda>n. if prop_get n ''type'' = Some (Str key) then Some (Bool True) else prop_get n ''read'') notices
    \<and> tab_title (notice_tab_of noticeData key title0 emptyText) = title0"
proof -
  let ?f = "\<lambda>item. let notice = prop_spread [] item in
        if strict_eq (or_undef (prop_get notice ''type'')) (Str key)
        then prop_set ''read'' (Bool True) notice else notice"
  let ?ns = "map ?f notices"
  have f: "prop_get (?f n) ''read'' =
        (if prop_get n ''type'' = Some (Str key) then Some (Bool True) else prop_get n ''read'')"
      "prop_get (?f n) ''type'' = prop_get n ''type''" "distinct (keys (?f n))" if "n \<in> set notices" for n
  proof -
    have n: "distinct (keys n)" "\<exists>t. prop_get n ''type'' = Some (Str t)" using assms(2) that by blast+
    then show "prop_get (?f n) ''read'' =
        (if prop_get n ''type'' = Some (Str key) then Some (Bool True) else prop_get n ''read'')"
      "prop_get (?f n) ''type'' = prop_get n ''type''"
      by (auto simp: Let_def get_spread_Nil)
    have "prop_ordered (prop_spread [] n)" by (rule prop_ordered_spread) simp
    then have "prop_ordered (?f n)" by (simp add: Let_def)
    then show "distinct (keys (?f n))" by (simp add: prop_ordered_def)
  qed
  have read: "truthy (view_get (new_notice fromNow m) ''read'')"
    if "m \<in> set ?ns" "js_string (view_get (new_notice fromNow m) ''type'') = key" for m
  proof -
    have "m \<in> ?f ` set notices" using that(1) by (simp only: set_map)
    then obtain n where m: "m = ?f n" and "n \<in> set notices" by (rule imageE)
    then have n: "n \<in> set notices" "m = ?f n" by simp_all
    obtain t where t: "prop_get n ''type'' = Some (Str t)" using assms(2) n(1) by blast
    have "view_get (new_notice fromNow m) ''type'' = Str t"
      using f[OF n(1)] n t by (simp add: view_get_new_notice del: Let_def)
    with that(2) have "t = key" by simp
    then have "prop_get m ''read'' = Some (Bool True)" using f(1)[OF n(1)] n t by simp
    then show ?thesis using f(3)[OF n(1)] n by (simp add: view_get_new_notice)
  qed
  have "filter (\<lambda>item. \<not> truthy (view_get item ''read''))
      (case prop_get (getNoticeData fromNow groupBy ?ns) key of None \<Rightarrow> [] | Some g \<Rightarrow> g) = []"
  proof (cases "?ns = []")
    case False
    then have "(case prop_get (getNoticeData fromNow groupBy ?ns) key of None \<Rightarrow> [] | Some g \<Rightarrow> g)
        = filter (\<lambda>n. js_string (view_get n ''type'') = key) (map (new_notice fromNow) ?ns)"
      using assms(1) unfolding getNoticeData_def groups_by_def Let_def by presburger
    with read show ?thesis by (auto simp: filter_empty_conv)
  qed (simp add: getNoticeData_def)
  then have "tab_title (notice_tab_of (getNoticeData fromNow groupBy ?ns) key title0 emptyText) = title0"
    by (rule tab_title_read)
  with f(1) show ?thesis by (simp add: clearReadState_def)
qed

text \<open>A grouping as documented, one group per key that occurs.\<close>

definition simple_group_by :: "view_notice list \<Rightarrow> string \<Rightarrow> view_notice list props" where
  "simple_group_by ns m =
     map (\<lambda>k. (k, filter (\<lambda>n. js_string (view_get n m) = k) ns))
       (remdups (map (\<lambda>n. js_string (view_get n m)) ns))"

lemma simple_groups: "groups_by simple_group_by"
  unfolding groups_by_def
proof (intro allI)
  fix ns m k
  have map: "map_of (map (\<lambda>k. (k, f k)) ks) k = (if k \<in> set ks then Some (f k) else None)"
    for f :: "string \<Rightarrow> view_notice list" and ks
    by (induction ks) auto
  show "(case prop_get (simple_group_by ns m) k of None \<Rightarrow> [] | Some g \<Rightarrow> g)
       = filter (\<lambda>n. js_string (view_get n m) = k) ns"
    by (cases "k \<in> (\<lambda>n. js_string (view_get n m)) ` set ns")
      (auto simp: simple_group_by_def prop_get_def map intro!: filter_False[symmetric])
qed

theorem clear_tab_witness:
  "tab_title (notice_tab_of (getNoticeData (\<lambda>v. v) simple_group_by
      (fst (clearReadState ''News'' ''message''
        [[(''id'', Str ''1''), (''type'', Str ''message'')], [(''id'', Str ''2''), (''type'', Str ''event'')]])))
      ''message'' ''News'' '''') = ''News''"
  using clear_tab[OF simple_groups, of "[[(''id'', Str ''1''), (''type'', Str ''message'')],
      [(''id'', Str ''2''), (''type'', Str ''event'')]]" "''News''" "''message''" "\<lambda>v. v" "''''"]
  by (simp add: prop_get_Cons Let_def)

end
