(* ===== verification/HeaderSearch.thy ===== *)
theory HeaderSearch
  imports React
begin

text \<open>
  The search box of the header, \<open>components/HeaderSearch/index.tsx\<close>.  Its two states, the text and
  whether the box is open, are kept by rc-util's \<open>useMergedState\<close>, which decides between the
  component's own state and what its user controls; the hook is not part of the repository, so a
  render is modelled for the two merged values that the hook has returned, and the handlers as the
  calls they make, the hook's setters included.  The style sheet and \<open>classNames\<close> are parameters.
\<close>

section \<open>Properties and hooks\<close>

text \<open>\<open>HeaderSearchProps\<close>: for a callback, whether it is given; \<open>undefined\<close> for an absent value.\<close>

record header_search_props =
  hs_onSearch :: bool
  hs_onChange :: bool
  hs_onVisibleChange :: bool
  hs_className :: jsval
  hs_placeholder :: jsval
  hs_options :: jsval
  hs_defaultVisible :: jsval
  hs_visible :: jsval
  hs_defaultValue :: jsval
  hs_value :: jsval

text \<open>The arguments of a call of \<open>useMergedState\<close>: default, controlled value, name of the callback.\<close>

record merged_state_call =
  ms_default :: jsval
  ms_value :: jsval
  ms_onChange :: "string option"

definition value_hook :: "header_search_props \<Rightarrow> merged_state_call" where
  "value_hook props = \<lparr>ms_default = hs_defaultValue props, ms_value = hs_value props,
     ms_onChange = (if hs_onChange props then Some ''onChange'' else None)\<rparr>"

definition search_mode_hook :: "header_search_props \<Rightarrow> merged_state_call" where
  "search_mode_hook props = \<lparr>ms_default = js_nullish (hs_defaultVisible props) (Bool False),
     ms_value = hs_visible props,
     ms_onChange = (if hs_onVisibleChange props then Some ''onVisibleChange'' else None)\<rparr>"

section \<open>Handlers\<close>

datatype search_call =
    SetValue jsval
  | SetSearchMode bool
  | FocusInput
  | OnVisibleChange jsval
  | OnSearch jsval

text \<open>\<open>input\<close> tells whether the reference to the input is set.\<close>

definition onSearchClick :: "jsval \<Rightarrow> bool \<Rightarrow> search_call list" where
  "onSearchClick searchMode input =
     SetSearchMode True # (if truthy searchMode \<and> input then [FocusInput] else [])"

definition onTransitionEnd :: "header_search_props \<Rightarrow> jsval \<Rightarrow> string \<Rightarrow> search_call list" where
  "onTransitionEnd props searchMode propertyName =
     (if propertyName = ''width'' \<and> \<not> truthy searchMode then
        (if hs_onVisibleChange props then [OnVisibleChange searchMode] else [])
      else [])"

definition onSearchKeyDown :: "header_search_props \<Rightarrow> jsval \<Rightarrow> string \<Rightarrow> search_call list" where
  "onSearchKeyDown props v k =
     (if k = ''Enter'' then (if hs_onSearch props then [OnSearch v] else []) else [])"

definition onSearchBlur :: "search_call list" where
  "onSearchBlur = [SetSearchMode False]"

datatype search_event =
    SearchClick bool
  | TransitionEnd string
  | KeyDown string
  | SearchBlur
  | SearchInput jsval               \<comment> \<open>\<open>onChange\<close> of the completion\<close>

fun search_step :: "header_search_props \<Rightarrow> jsval \<Rightarrow> jsval \<Rightarrow> search_event \<Rightarrow> search_call list" where
  "search_step props v m (SearchClick input) = onSearchClick m input"
| "search_step props v m (TransitionEnd p) = onTransitionEnd props m p"
| "search_step props v m (KeyDown k) = onSearchKeyDown props v k"
| "search_step props v m SearchBlur = onSearchBlur"
| "search_step props v m (SearchInput t) = [SetValue t]"

section \<open>Rendering\<close>

definition input_class :: "(string \<Rightarrow> string) \<Rightarrow> (jsval list \<Rightarrow> string) \<Rightarrow> jsval \<Rightarrow> string" where
  "input_class styles classNames searchMode =
     classNames [Str (styles ''input''), Obj [(styles ''show'', searchMode)]]"

definition HeaderSearch ::
  "(string \<Rightarrow> string) \<Rightarrow> (jsval list \<Rightarrow> string) \<Rightarrow> header_search_props \<Rightarrow> jsval \<Rightarrow> jsval \<Rightarrow> vnode" where
  "HeaderSearch styles classNames props v searchMode =
     Elem ''div''
       [(''className'', PS (classNames [hs_className props, Str (styles ''headerSearch'')])),
        (''onClick'', PFun ''onClick''), (''onTransitionEnd'', PFun ''onTransitionEnd'')]
       [Elem ''SearchOutlined'' [(''key'', PS ''Icon''), (''style'', PV (Obj [(''cursor'', Str ''pointer'')]))] [],
        Elem ''AutoComplete''
          [(''key'', PS ''AutoComplete''), (''className'', PS (input_class styles classNames searchMode)),
           (''value'', PV v), (''options'', PV (hs_options props)), (''onChange'', PFun ''setValue'')]
          [Elem ''Input''
             [(''size'', PS ''small''), (''ref'', PFun ''inputRef''),
              (''defaultValue'', PV (hs_defaultValue props)), (''aria-label'', PV (hs_placeholder props)),
              (''placeholder'', PV (hs_placeholder props)), (''onKeyDown'', PFun ''onKeyDown''),
              (''onBlur'', PFun ''onBlur'')] []]]"

section \<open>What reaches the user of the box\<close>

definition announced :: "search_call list \<Rightarrow> search_call list" where
  "announced cs = filter (\<lambda>c. case c of OnVisibleChange _ \<Rightarrow> True | OnSearch _ \<Rightarrow> True | _ \<Rightarrow> False) cs"

text \<open>
  Besides what the hook announces, only two events reach the user of the box: the end of a width
  transition of the closed box, and the enter key, with the current text.
\<close>

lemma search_announcements:
  "announced (search_step props v m ev) =
     (if ev = TransitionEnd ''width'' \<and> \<not> truthy m \<and> hs_onVisibleChange props then [OnVisibleChange m]
      else if ev = KeyDown ''Enter'' \<and> hs_onSearch props then [OnSearch v] else [])"
  by (cases ev) (auto simp: announced_def onSearchClick_def onTransitionEnd_def onSearchKeyDown_def
      onSearchBlur_def)

text \<open>The box never sets the text itself but from the completion.\<close>

lemma search_sets_value: "SetValue t \<in> set (search_step props v m ev) \<longleftrightarrow> ev = SearchInput t"
  by (cases ev) (auto simp: onSearchClick_def onTransitionEnd_def onSearchKeyDown_def onSearchBlur_def)

end
