(* ===== verification/Config.thy ===== *)
theory Config
  imports Json
begin

text \<open>
  The build configuration of the console, \<open>config/*.ts\<close>, as the values that the files export, and
  the test harness (\<open>tests/run-tests.js\<close>, \<open>tests/setupTests.js\<close>, \<open>jest.config.js\<close>,
  \<open>playwright.config.ts\<close>, \<open>src/e2e/baseLayout.e2e.spec.ts\<close>).  \<open>defineConfig\<close> of umi is the identity;
  \<open>join\<close> of node's path module is a parameter.
\<close>

section \<open>Settings and routes\<close>

definition defaultSettings :: "jsval props" where
  "defaultSettings =
     [(''navTheme'', Str ''dark''), (''primaryColor'', Str ''#1890ff''), (''layout'', Str ''top''),
      (''contentWidth'', Str ''Fluid''), (''fixedHeader'', Bool False), (''fixSiderbar'', Bool True),
      (''colorWeak'', Bool False), (''title'', Str (''WEB'' @ utf8 [0x63A7, 0x5236, 0x53F0])), (''pwa'', Bool False),
      (''iconfontUrl'', Str '''')]"

text \<open>A route of umi; \<open>None\<close> is an absent member.\<close>

datatype route = Route (rt_path: "string option") (rt_name: "string option") (rt_icon: "string option")
  (rt_component: "string option") (rt_redirect: "string option") (rt_routes: "route list option")

definition routes :: "route list" where
  "routes =
     [Route (Some ''/debug'') (Some ''debug'') (Some ''smile'') (Some ''./debug'') None None,
      Route (Some ''/gm'') (Some ''gm'') (Some ''smile'') (Some ''./gm'') None None,
      Route (Some ''/'') None None None (Some ''/debug'') None,
      Route None None None (Some ''./404'') None None]"

fun route_json :: "route \<Rightarrow> jsval" where
  "route_json (Route p n i c r rs) = Obj
     (concat (map (\<lambda>(k, v). case v of None \<Rightarrow> [] | Some s \<Rightarrow> [(k, Str s)])
        [(''path'', p), (''name'', n), (''icon'', i), (''component'', c), (''redirect'', r)])
      @ (case rs of None \<Rightarrow> [] | Some sub \<Rightarrow> [(''routes'', Arr (map route_json sub))]))"

definition proxy :: "jsval props" where
  "proxy =
     [(''dev'', Obj [(''/api/'', Obj [(''target'', Str ''https://preview.pro.ant.design''),
         (''changeOrigin'', Bool True)])]),
      (''test'', Obj [(''/api/'', Obj [(''target'', Str ''https://proapi.azurewebsites.net''),
         (''changeOrigin'', Bool True), (''pathRewrite'', Obj [(''^'', Str '''')])])]),
      (''pre'', Obj [(''/api/'', Obj [(''target'', Str ''your pre url''),
         (''changeOrigin'', Bool True), (''pathRewrite'', Obj [(''^'', Str '''')])])])]"

text \<open>The proxy for the value of the environment variable \<open>REACT_APP_ENV\<close>.\<close>

definition proxy_for :: "string option \<Rightarrow> jsval" where
  "proxy_for REACT_APP_ENV = or_undef (prop_get proxy
     (case REACT_APP_ENV of None \<Rightarrow> ''dev'' | Some e \<Rightarrow> if e = '''' then ''dev'' else e))"

text \<open>The configuration, with the theme as far as it differs between the two consoles as an argument.\<close>

definition config_with ::
  "jsval props \<Rightarrow> (string list \<Rightarrow> string) \<Rightarrow> string \<Rightarrow> string option \<Rightarrow> route list \<Rightarrow> jsval props" where
  "config_with theme join dirname REACT_APP_ENV rs =
     [(''hash'', Bool True),
      (''antd'', Obj []),
      (''dva'', Obj [(''hmr'', Bool True)]),
      (''layout'', Obj (prop_spread [(''locale'', Bool True), (''siderWidth'', Num 208)] defaultSettings)),
      (''locale'', Obj [(''default'', Str ''zh-CN''), (''antd'', Bool True), (''baseNavigator'', Bool True)]),
      (''dynamicImport'', Obj [(''loading'', Str ''@ant-design/pro-layout/es/PageLoading'')]),
      (''targets'', Obj [(''ie'', Num 11)]),
      (''routes'', Arr (map route_json rs)),
      (''theme'', Obj theme),
      (''esbuild'', Obj []),
      (''title'', Bool False),
      (''ignoreMomentLocale'', Bool True),
      (''proxy'', proxy_for REACT_APP_ENV),
      (''manifest'', Obj [(''basePath'', Str ''/'')]),
      (''fastRefresh'', Obj []),
      (''openAPI'', Arr
        [Obj [(''requestLibPath'', Str (''import { request } from '' @ [CHR 0x27] @ ''umi'' @ [CHR 0x27])),
           (''schemaPath'', Str (join [dirname, ''oneapi.json''])), (''mock'', Bool False)],
         Obj [(''requestLibPath'', Str (''import { request } from '' @ [CHR 0x27] @ ''umi'' @ [CHR 0x27])),
           (''schemaPath'', Str ''https://gw.alipayobjects.com/os/antfincdn/CA1dOm%2631B/openapi.json''),
           (''projectName'', Str ''swagger'')]]),
      (''nodeModulesTransform'', Obj [(''type'', Str ''none'')]),
      (''mfsu'', Obj []),
      (''webpack5'', Obj []),
      (''exportStatic'', Obj []),
      (''base'', Str ''/dist/''),
      (''publicPath'', Str ''/dist/'')]"

definition config_theme :: "jsval props" where
  "config_theme = [(''primary-color'', or_undef (prop_get defaultSettings ''primaryColor'')),
     (''root-entry-name'', Str ''default'')]"

definition umi_config :: "(string list \<Rightarrow> string) \<Rightarrow> string \<Rightarrow> string option \<Rightarrow> jsval props" where
  "umi_config join dirname REACT_APP_ENV = config_with config_theme join dirname REACT_APP_ENV routes"

definition config_dev :: "jsval props" where
  "config_dev =
     [(''plugins'', Arr [Str ''react-dev-inspector/plugins/umi/react-inspector'']),
      (''inspectorConfig'', Obj [(''exclude'', Arr []), (''babelPlugins'', Arr []), (''babelOptions'', Obj [])])]"

definition jest_config :: "jsval props" where
  "jest_config =
     [(''testURL'', Str ''http://localhost:8000''), (''verbose'', Bool False),
      (''extraSetupFiles'', Arr [Str ''./tests/setupTests.js'']),
      (''globals'', Obj [(''ANT_DESIGN_PRO_ONLY_DO_NOT_USE_IN_YOUR_PRODUCTION'', Bool False),
         (''localStorage'', Null)])]"

text \<open>\<open>playwright.config.ts\<close>, for the variable \<open>CI\<close> of the environment and the package's devices.\<close>

definition playwright_config :: "string option \<Rightarrow> (string \<Rightarrow> jsval props) \<Rightarrow> jsval props" where
  "playwright_config CI devices =
     (let ci = (CI \<noteq> None \<and> CI \<noteq> Some '''') in
      [(''forbidOnly'', Bool ci), (''retries'', Num (if ci then 2 else 0)),
       (''use'', Obj [(''trace'', Str ''on-first-retry'')]),
       (''projects'', Arr
         [Obj [(''name'', Str ''chromium''), (''use'', Obj (prop_spread [] (devices ''Desktop Chrome'')))],
          Obj [(''name'', Str ''firefox''), (''use'', Obj (prop_spread [] (devices ''Desktop Firefox'')))]])])"

text \<open>The mock of \<open>localStorage\<close>: every function is one that does nothing.\<close>

definition localStorageMock :: "string props" where
  "localStorageMock = [(''getItem'', ''jest.fn()''), (''setItem'', ''jest.fn()''),
     (''removeItem'', ''jest.fn()''), (''clear'', ''jest.fn()'')]"

section \<open>The end-to-end tests\<close>

text \<open>\<open>s.replace(/\/{1,}/g, '/')\<close>: every run of slashes becomes one.\<close>

fun squeeze :: "string \<Rightarrow> string" where
  "squeeze [] = []"
| "squeeze [c] = [c]"
| "squeeze (c # d # cs) =
     (if c = CHR ''/'' \<and> d = CHR ''/'' then squeeze (d # cs) else c # squeeze (d # cs))"

definition starts_with_slash :: "string \<Rightarrow> bool" where
  "starts_with_slash s \<longleftrightarrow> (case s of [] \<Rightarrow> False | c # cs \<Rightarrow> c = CHR ''/'')"

definition given_path :: "route \<Rightarrow> string" where
  "given_path item = (case rt_path item of None \<Rightarrow> '''' | Some p \<Rightarrow> p)"

text \<open>
  \<open>formatter\<close>; \<open>uniq\<close> of lodash keeps the first occurrence of each element, \<open>rev (remdups (rev xs))\<close>.
\<close>

definition uniq :: "'a list \<Rightarrow> 'a list" where
  "uniq xs = rev (remdups (rev xs))"

lemma sub_routes_smaller:
  "item \<in> set rs \<Longrightarrow> rt_routes item = Some sub \<Longrightarrow> size_list size sub < size_list size rs"
proof (induction rs)
  case (Cons r rs)
  then show ?case by (cases r) auto
qed simp

function (sequential) formatter :: "route list \<Rightarrow> string \<Rightarrow> string list" where
  "formatter rs parentPath =
     (let fixedParentPath = squeeze parentPath
      in uniq (filter (\<lambda>item. item \<noteq> '''') (concat (map (\<lambda>item.
          (let p = given_path item in
             (if p \<noteq> '''' \<and> \<not> starts_with_slash p then [squeeze (fixedParentPath @ ''/'' @ p)] else [])
             @ (if p \<noteq> '''' \<and> starts_with_slash p then [squeeze p] else [])
             @ (case rt_routes item of None \<Rightarrow> []
                | Some sub \<Rightarrow>
                    formatter sub (if p \<noteq> '''' then fixedParentPath @ ''/'' @ p else parentPath)))) rs))))"
  by pat_completeness auto
termination
  by (relation "measure (\<lambda>(rs, _). size_list size rs)") (auto dest: sub_routes_smaller)

declare formatter.simps [simp del]

text \<open>
  What a test does with the browser.  \<open>testPage\<close> returns an \<open>async\<close> function, a closure that has done
  nothing yet; calling it gives a promise of the calls.  \<open>await\<close> waits for a promise, and gives any
  other value back as it is.
\<close>

datatype page_call =
    SetItem string string
  | Goto string
  | WaitForSelector string nat
  | CountFooters
  | ExpectTruthy

datatype test_value =
    AsyncFunction "page_call list"
  | Promise "page_call list"

fun call_async :: "test_value \<Rightarrow> test_value" where
  "call_async (AsyncFunction cs) = Promise cs"
| "call_async (Promise cs) = Promise cs"

fun await_calls :: "test_value \<Rightarrow> page_call list" where
  "await_calls (Promise cs) = cs"
| "await_calls (AsyncFunction cs) = []"

definition BASE_URL :: "string option \<Rightarrow> string" where
  "BASE_URL PORT = ''http://localhost:'' @
     (case PORT of None \<Rightarrow> ''8001'' | Some p \<Rightarrow> if p = '''' then ''8001'' else p)"

definition testPage :: "string option \<Rightarrow> string \<Rightarrow> test_value" where
  "testPage PORT path = AsyncFunction
     [SetItem ''antd-pro-authority'' ''[\"admin\"]'', Goto (BASE_URL PORT @ path),
      WaitForSelector ''footer'' 2000, CountFooters, ExpectTruthy]"

text \<open>The tests: a title and what the body does, for each route.\<close>

definition e2e_tests :: "string option \<Rightarrow> (string \<times> page_call list) list" where
  "e2e_tests PORT =
     map (\<lambda>rt. (''test route page '' @ rt, await_calls (testPage PORT rt))) (formatter routes '''')"

section \<open>The test run\<close>

text \<open>\<open>tests/run-tests.js\<close>: its flag and what it has done.\<close>

datatype run_effect =
    Spawn string "string list"
  | Print string
  | KillPort string
  | KillServer
  | Exit int

record test_run =
  once :: bool
  run_log :: "run_effect list"

definition npm :: "bool \<Rightarrow> string" where
  "npm windows = (if windows then ''npm.cmd'' else ''npm'')"

text \<open>The environment of the server: that of the runner, with these variables set (as strings).\<close>

definition test_env :: "string props \<Rightarrow> string props" where
  "test_env env = prop_spread env
     [(''BROWSER'', ''none''), (''TEST'', ''true''), (''UMI_UI'', ''none''), (''PROGRESS'', ''none'')]"

definition test_run0 :: "bool \<Rightarrow> test_run" where
  "test_run0 windows = \<lparr>once = False, run_log = [Spawn (npm windows) [''run'', ''serve''],
     Print ''Starting development server for e2e tests...'']\<rparr>"

text \<open>\<open>s.indexOf(t) >= 0\<close>.\<close>

fun occurs_in :: "string \<Rightarrow> string \<Rightarrow> bool" where
  "occurs_in t [] = (t = [])"
| "occurs_in t (c # cs) = (take (length t) (c # cs) = t \<or> occurs_in t cs)"

definition serving :: string where
  "serving = ''Serving your umi project!''"

definition onStdout :: "bool \<Rightarrow> string \<Rightarrow> test_run \<Rightarrow> test_run" where
  "onStdout windows chunk r =
     (let r1 = r\<lparr>run_log := run_log r @ [Print chunk]\<rparr> in
      if \<not> once r1 \<and> occurs_in serving chunk then
        r1\<lparr>once := True, run_log := run_log r1 @
          [Print ''Development server is started, ready to run tests.'',
           Spawn (npm windows) [''run'', ''playwright'']]\<rparr>
      else r1)"

definition onStderr :: "string \<Rightarrow> test_run \<Rightarrow> test_run" where
  "onStderr chunk r = r\<lparr>run_log := run_log r @ [Print chunk]\<rparr>"

definition onServerExit :: "string option \<Rightarrow> test_run \<Rightarrow> test_run" where
  "onServerExit PORT r = r\<lparr>run_log := run_log r @
     [KillPort (case PORT of None \<Rightarrow> ''8000'' | Some p \<Rightarrow> if p = '''' then ''8000'' else p)]\<rparr>"

definition onTestExit :: "int \<Rightarrow> test_run \<Rightarrow> test_run" where
  "onTestExit code r = r\<lparr>run_log := run_log r @ [Print (show_int code), KillServer, Exit code]\<rparr>"

section \<open>Properties\<close>

lemma squeeze_first: "starts_with_slash (squeeze s) = starts_with_slash s" "squeeze s = [] \<longleftrightarrow> s = []"
  by (induction s rule: squeeze.induct) (auto simp: starts_with_slash_def)

lemma squeeze_no_double: "squeeze s ! i = CHR ''/'' \<Longrightarrow> Suc i < length (squeeze s) \<Longrightarrow> squeeze s ! Suc i \<noteq> CHR ''/''"
proof (induction s arbitrary: i rule: squeeze.induct)
  case (3 c d cs)
  have hd: "squeeze (d # cs) ! 0 = d"
    by (induction "d # cs" arbitrary: d cs rule: squeeze.induct) auto
  show ?case
  proof (cases "c = CHR ''/'' \<and> d = CHR ''/''")
    case True
    with 3 show ?thesis by simp
  next
    case False
    with 3 hd show ?thesis by (cases i) auto
  qed
qed simp_all

definition clean_path :: "string \<Rightarrow> bool" where
  "clean_path p \<longleftrightarrow> starts_with_slash p \<and>
     (\<forall>i. Suc i < length p \<longrightarrow> \<not> (p ! i = CHR ''/'' \<and> p ! Suc i = CHR ''/''))"

lemma clean_path_squeeze: "starts_with_slash s \<Longrightarrow> clean_path (squeeze s)"
  by (auto simp: clean_path_def squeeze_first dest: squeeze_no_double)

lemma set_uniq [simp]: "set (uniq xs) = set xs" "distinct (uniq xs)"
  by (simp_all add: uniq_def)

text \<open>
  The tested paths are well formed, whatever the routes and however they are nested: no path is
  tested twice, and each starts with a slash and contains no two slashes in a row.
\<close>

theorem formatter_paths:
  assumes "parentPath = '''' \<or> starts_with_slash parentPath"
  shows "distinct (formatter rs parentPath) \<and> (\<forall>p \<in> set (formatter rs parentPath). clean_path p)"
  using assms
proof (induction rs parentPath rule: formatter.induct)
  case (1 rs parentPath)
  let ?fixed = "squeeze parentPath"
  have fixed: "?fixed = '''' \<or> starts_with_slash ?fixed" using "1.prems" by (auto simp: squeeze_first)
  then have slash: "starts_with_slash (?fixed @ ''/'' @ q)" for q
    by (cases ?fixed) (auto simp: starts_with_slash_def)
  have "clean_path p"
    if p: "p \<in> set (formatter rs parentPath)" for p
  proof -
    obtain item where item: "item \<in> set rs" and cases: "p = squeeze (?fixed @ ''/'' @ given_path item)
      \<or> (starts_with_slash (given_path item) \<and> p = squeeze (given_path item))
      \<or> (\<exists>sub. rt_routes item = Some sub \<and> p \<in> set (formatter sub
            (if given_path item \<noteq> '''' then ?fixed @ ''/'' @ given_path item else parentPath)))"
      using p[unfolded formatter.simps[of rs parentPath]] by (auto simp: Let_def dest!: sym[of "Some _" "rt_routes _"] split: if_splits option.splits)
    show ?thesis
      using cases
    proof (elim disjE exE conjE)
      fix sub
      assume sub: "rt_routes item = Some sub" "p \<in> set (formatter sub
            (if given_path item \<noteq> '''' then ?fixed @ ''/'' @ given_path item else parentPath))"
      show ?thesis
        using "1.IH"[OF refl item refl sub(1)] slash "1.prems" sub(2) by (simp split: if_splits)
    qed (use slash in \<open>simp_all add: clean_path_squeeze\<close>)
  qed
  moreover have "distinct (formatter rs parentPath)"
    by (subst formatter.simps) (simp add: Let_def)
  ultimately show ?case by blast
qed

theorem formatter_paths_witness:
  "formatter routes '''' = [''/debug'', ''/gm'', ''/''] \<and> clean_path ''/debug'' \<and> clean_path ''/gm''"
  using formatter_paths[of "''''" routes]
  by (simp add: formatter.simps routes_def given_path_def starts_with_slash_def uniq_def Let_def)

text \<open>
  The end-to-end tests pass without testing anything: there is one for each of the paths /debug,
  /gm and /, and none of them opens a page or checks a footer, because the test awaits the function
  that testPage returns instead of calling it.
\<close>

theorem e2e_tests_do_nothing:
  "e2e_tests PORT = [(''test route page /debug'', []), (''test route page /gm'', []), (''test route page /'', [])]
   \<and> await_calls (call_async (testPage PORT p)) =
      [SetItem ''antd-pro-authority'' ''[\"admin\"]'', Goto (BASE_URL PORT @ p),
       WaitForSelector ''footer'' 2000, CountFooters, ExpectTruthy]"
  by (simp add: e2e_tests_def testPage_def formatter.simps routes_def given_path_def
      starts_with_slash_def uniq_def Let_def)

definition playwright_runs :: "bool \<Rightarrow> test_run \<Rightarrow> nat" where
  "playwright_runs windows r = length (filter (\<lambda>e. e = Spawn (npm windows) [''run'', ''playwright'']) (run_log r))"

lemma stdout_runs:
  "playwright_runs w (fold (onStdout w) chunks r) = playwright_runs w r
     + (if \<not> once r \<and> (\<exists>c \<in> set chunks. occurs_in serving c) then 1 else 0)"
proof (induction chunks arbitrary: r)
  case (Cons c chunks)
  have "playwright_runs w (onStdout w c r) = playwright_runs w r + (if \<not> once r \<and> occurs_in serving c then 1 else 0)"
    "once (onStdout w c r) = (once r \<or> occurs_in serving c)"
    by (simp_all add: onStdout_def playwright_runs_def Let_def)
  with Cons show ?case by simp
qed simp

text \<open>
  The test runner starts playwright exactly once if some chunk of the server's output contains
  the announcement that the server is up, however often it is repeated, and otherwise never; an
  announcement that is split over two chunks is not seen.
\<close>

theorem playwright_once:
  "playwright_runs w (fold (onStdout w) chunks (test_run0 w)) =
     (if \<exists>c \<in> set chunks. occurs_in serving c then 1 else 0)"
  by (simp add: stdout_runs) (simp add: test_run0_def playwright_runs_def)

section \<open>Configuration of the linters\<close>

text \<open>
  \<open>.eslintrc.js\<close>, \<open>.prettierrc.js\<close> and \<open>.stylelintrc.js\<close>, for what \<open>require.resolve\<close> finds and for
  the members that \<open>@umijs/fabric\<close> exports.
\<close>

definition eslint_config :: "(string \<Rightarrow> string) \<Rightarrow> jsval props" where
  "eslint_config resolve =
     [(''extends'', Arr [Str (resolve ''@umijs/fabric/dist/eslint'')]),
      (''globals'', Obj
        [(''ANT_DESIGN_PRO_ONLY_DO_NOT_USE_IN_YOUR_PRODUCTION'', Bool True), (''page'', Bool True),
         (''REACT_APP_ENV'', Bool True)])]"

definition prettier_config :: "jsval props props \<Rightarrow> jsval props" where
  "prettier_config fabric =
     prop_spread [] (case prop_get fabric ''prettier'' of None \<Rightarrow> [] | Some c \<Rightarrow> c)"

definition stylelint_config :: "jsval props props \<Rightarrow> jsval props" where
  "stylelint_config fabric =
     prop_spread [] (case prop_get fabric ''stylelint'' of None \<Rightarrow> [] | Some c \<Rightarrow> c)"

end
