(* ===== verification/Pwa.thy ===== *)
theory Pwa
  imports Config
begin

text \<open>
  Offline support: the script of the page (\<open>src/global.tsx\<close>) and the service worker
  (\<open>src/service-worker.js\<close>), and the protocol between them by which a page changes to a new
  version.  The browser and workbox are not part of the repository; of them the model has the
  documented order of events: promise callbacks run after the code that is running, and messages on
  a channel arrive in order.
\<close>

section \<open>The page's script\<close>

datatype pwa_effect =
    Warning string
  | OpenNotification string string string string   \<comment> \<open>key, message, description, button\<close>
  | CloseNotification string
  | DeleteCache string
  | ReloadPage
  | Unregister nat

text \<open>
  What the browser offers: its caches, if it has any, its service workers' registrations, and the one
  that controls the page.
\<close>

record browser =
  b_https :: bool
  b_caches :: "string list option"
  b_serviceWorker :: bool
  b_getRegistrations :: bool
  b_registrations :: "nat list"
  b_registration :: "nat option"

definition clearCache :: "browser \<Rightarrow> pwa_effect list" where
  "clearCache b = (case b_caches b of None \<Rightarrow> [] | Some ks \<Rightarrow> map DeleteCache ks)"

text \<open>
  Loading the page: the events it listens to, and its effects in the order of the code (each of the
  three groups is the callback of a promise of its own).
\<close>

definition global_start :: "bool \<Rightarrow> browser \<Rightarrow> string list \<times> pwa_effect list" where
  "global_start pwa b =
     (if pwa then ([''sw.offline'', ''sw.updated''], [])
      else if b_serviceWorker b \<and> b_https b then
        ([], (if b_getRegistrations b then map Unregister (b_registrations b) else [])
             @ (case b_registration b of None \<Rightarrow> [] | Some sw \<Rightarrow> [Unregister sw])
             @ clearCache b)
      else ([], []))"

definition onOffline :: "(string \<Rightarrow> string) \<Rightarrow> pwa_effect list" where
  "onOffline formatMessage = [Warning (formatMessage ''app.pwa.offline'')]"

text \<open>The listener of \<open>sw.updated\<close>, at a time in milliseconds; the button's handler is \<open>clickUpdate\<close>.\<close>

definition onUpdated :: "(string \<Rightarrow> string) \<Rightarrow> nat \<Rightarrow> pwa_effect list" where
  "onUpdated formatMessage now =
     [OpenNotification (''open'' @ show_nat now) (formatMessage ''app.pwa.serviceworker.updated'')
        (formatMessage ''app.pwa.serviceworker.updated.hint'')
        (formatMessage ''app.pwa.serviceworker.updated.ok'')]"

section \<open>The service worker\<close>

text \<open>
  What the worker tells workbox when it starts, before its routes: the names of its caches, that it
  takes over all pages at once, the files to precache (the build's manifest, if it left one), and the
  page for navigations.
\<close>

datatype workbox_call =
    SetCacheNameDetails string string   \<comment> \<open>prefix and suffix\<close>
  | ClientsClaim
  | PrecacheAndRoute jsval
  | RegisterNavigationRoute string
  | RegisterNetworkFirst string         \<comment> \<open>the source of the regular expression\<close>

definition worker_start :: "jsval \<Rightarrow> workbox_call list" where
  "worker_start precacheManifest =
     [SetCacheNameDetails ''antd-pro'' ''v5'', ClientsClaim,
      PrecacheAndRoute (js_or precacheManifest (Arr [])),
      RegisterNavigationRoute ''/index.html'',
      RegisterNetworkFirst ''/api/'', RegisterNetworkFirst ''^https://gw.alipayobjects.com/'',
      RegisterNetworkFirst ''^https://cdnjs.cloudflare.com/'', RegisterNetworkFirst ''/color.less'']"

text \<open>The addresses that are served from the network first: one predicate per registered route.\<close>

fun color_less :: "string \<Rightarrow> bool" where
  "color_less [] = False"
| "color_less (c # cs) =
     ((take 6 (c # cs) = ''/color'' \<and> take 4 (drop 7 (c # cs)) = ''less''
        \<and> (c # cs) ! 6 \<noteq> CHR 0x0A \<and> (c # cs) ! 6 \<noteq> CHR 0x0D) \<or> color_less cs)"

definition begins_with :: "string \<Rightarrow> string \<Rightarrow> bool" where
  "begins_with p s \<longleftrightarrow> take (length p) s = p"

definition network_first_routes :: "(string \<Rightarrow> bool) list" where
  "network_first_routes =
     [occurs_in ''/api/'',
      begins_with ''https://gw.alipayobjects.com/'',
      begins_with ''https://cdnjs.cloudflare.com/'',
      color_less]"

text \<open>
  The handler of messages: whether there is a port to reply on, the message, and what \<open>skipWaiting\<close>
  will give, \<open>None\<close> for success.  The result says whether the worker is active afterwards and what it
  replies.
\<close>

definition onWorkerMessage :: "bool \<Rightarrow> jsval \<Rightarrow> jsval option \<Rightarrow> bool \<times> jsval list" where
  "onWorkerMessage replyPort message result =
     (if replyPort \<and> truthy message \<and>
         (case js_get message ''type'' of Inr t \<Rightarrow> strict_eq t (Str ''skip-waiting'') | Inl _ \<Rightarrow> False)
      then (case result of None \<Rightarrow> (True, [Obj [(''error'', Null)]])
            | Some e \<Rightarrow> (False, [Obj [(''error'', e)]]))
      else (False, []))"

section \<open>The protocol\<close>

text \<open>Where \<open>reloadSW\<close> of one notification is.\<close>

datatype reload_state = Notified | Waiting_reply | Returned | Rejected jsval

text \<open>
  \<open>u_keys\<close>: \<open>clearCache\<close> has asked for the names of the caches and the answer has not come yet.
\<close>

record update =
  u_waiting :: bool                 \<comment> \<open>\<open>e.detail.waiting\<close>\<close>
  u_state :: reload_state
  u_to_worker :: "jsval list"
  u_to_page :: "jsval list"
  u_active :: bool                  \<comment> \<open>the new worker has taken over\<close>
  u_keys :: bool
  u_log :: "pwa_effect list"

definition update0 :: "bool \<Rightarrow> update" where
  "update0 w = \<lparr>u_waiting = w, u_state = Notified, u_to_worker = [], u_to_page = [], u_active = False,
     u_keys = False, u_log = []\<rparr>"

text \<open>The button's handler, up to the \<open>await\<close> of \<open>reloadSW\<close>.\<close>

definition clickUpdate :: "string \<Rightarrow> update \<Rightarrow> update" where
  "clickUpdate key u =
     (let u1 = u\<lparr>u_log := u_log u @ [CloseNotification key]\<rparr> in
      if \<not> u_waiting u1 then u1\<lparr>u_state := Returned\<rparr>
      else u1\<lparr>u_state := Waiting_reply,
              u_to_worker := u_to_worker u1 @ [Obj [(''type'', Str ''skip-waiting'')]]\<rparr>)"

text \<open>The reply, and what \<open>reloadSW\<close> does after it.\<close>

definition onReply :: "browser \<Rightarrow> jsval \<Rightarrow> update \<Rightarrow> update" where
  "onReply b dat u =
     (case js_get dat ''error'' of Inl _ \<Rightarrow> u
      | Inr e \<Rightarrow>
          if truthy e then u\<lparr>u_state := Rejected e\<rparr>
          else
            let u1 = u\<lparr>u_keys := b_caches b \<noteq> None\<rparr>
            in u1\<lparr>u_log := u_log u1 @ [ReloadPage], u_state := Returned\<rparr>)"

definition onCacheKeys :: "browser \<Rightarrow> update \<Rightarrow> update" where
  "onCacheKeys b u = u\<lparr>u_keys := False, u_log := u_log u @ clearCache b\<rparr>"

text \<open>
  The steps: the click, the worker's message handler, the reply, the names of the caches.  An error of
  \<open>skipWaiting\<close> is an exception, hence an object.
\<close>

inductive update_step :: "browser \<Rightarrow> update \<Rightarrow> update \<Rightarrow> bool" for b where
  click: "u_state u = Notified \<Longrightarrow> update_step b u (clickUpdate key u)"
| worker: "u_to_worker u = m # ms \<Longrightarrow> (\<forall>e. result = Some e \<longrightarrow> truthy e) \<Longrightarrow>
    update_step b u (u\<lparr>u_to_worker := ms, u_active := u_active u \<or> fst (onWorkerMessage True m result),
      u_to_page := u_to_page u @ snd (onWorkerMessage True m result)\<rparr>)"
| reply: "u_to_page u = m # ms \<Longrightarrow> u_state u = Waiting_reply \<Longrightarrow>
    update_step b u (onReply b m (u\<lparr>u_to_page := ms\<rparr>))"
| keys: "u_keys u \<Longrightarrow> update_step b u (onCacheKeys b u)"

inductive_cases update_stepE: "update_step b u u'"

inductive update_reach :: "browser \<Rightarrow> bool \<Rightarrow> update \<Rightarrow> bool" for b w where
  start: "update_reach b w (update0 w)"
| step: "update_reach b w u \<Longrightarrow> update_step b u u' \<Longrightarrow> update_reach b w u'"

section \<open>Properties\<close>

text \<open>The phases of an update: notified, asked, answered, done.\<close>

definition update_inv :: "update \<Rightarrow> bool" where
  "update_inv u \<longleftrightarrow>
     (\<forall>m \<in> set (u_to_worker u). m = Obj [(''type'', Str ''skip-waiting'')])
     \<and> (\<forall>m \<in> set (u_to_page u). \<exists>e. m = Obj [(''error'', e)] \<and> (\<not> truthy e \<longrightarrow> u_active u))
     \<and> (case u_state u of
          Notified \<Rightarrow> u_to_worker u = [] \<and> u_to_page u = [] \<and> \<not> u_keys u \<and> u_log u = []
        | Waiting_reply \<Rightarrow> length (u_to_worker u) + length (u_to_page u) = 1 \<and> \<not> u_keys u
            \<and> (\<exists>k. u_log u = [CloseNotification k])
        | Returned \<Rightarrow> u_to_worker u = [] \<and> u_to_page u = [] \<and>
            ((\<not> u_waiting u \<and> \<not> u_keys u \<and> (\<exists>k. u_log u = [CloseNotification k]))
             \<or> (u_active u \<and> (\<exists>k ds. u_log u = [CloseNotification k, ReloadPage] @ map DeleteCache ds
                  \<and> (u_keys u \<longrightarrow> ds = []))))
        | Rejected e \<Rightarrow> truthy e \<and> \<not> u_keys u \<and> u_to_worker u = [] \<and> u_to_page u = []
            \<and> (\<exists>k. u_log u = [CloseNotification k]))"

lemma update_inv_step:
  assumes "update_inv u" and "update_step b u u'"
  shows "update_inv u'"
  using assms(2)
proof (cases rule: update_step.cases)
  case (click key)
  with assms(1) show ?thesis by (simp add: update_inv_def clickUpdate_def Let_def)
next
  case (worker m ms result)
  have m: "m = Obj [(''type'', Str ''skip-waiting'')]"
    using assms(1) worker(2) by (simp add: update_inv_def)
  then have r: "onWorkerMessage True m result = (case result of None \<Rightarrow> (True, [Obj [(''error'', Null)]])
            | Some e \<Rightarrow> (False, [Obj [(''error'', e)]]))"
    by (simp add: onWorkerMessage_def prop_get_Cons)
  have st: "u_state u = Waiting_reply"
    using assms(1) worker(2) by (auto simp: update_inv_def split: reload_state.splits)
  with assms(1) worker r show ?thesis
    by (cases result) (auto simp: update_inv_def)
next
  case (reply m ms)
  then obtain e where "m = Obj [(''error'', e)]" "\<not> truthy e \<longrightarrow> u_active u"
    using assms(1) by (auto simp: update_inv_def)
  with reply assms(1) show ?thesis
    by (auto simp: update_inv_def onReply_def prop_get_Cons Let_def)
next
  case keys
  with assms(1) show ?thesis
    by (cases "u_state u"; cases "b_caches b")
      (auto simp: update_inv_def onCacheKeys_def clearCache_def)
qed

lemma update_inv_reach: "update_reach b w u \<Longrightarrow> update_inv u"
proof (induction rule: update_reach.induct)
  case start
  show ?case by (simp add: update_inv_def update0_def)
qed (rule update_inv_step)

text \<open>
  C24.  The page reloads at most once per notification, only after the new service worker has taken
  over, and not at all if the worker could not take over.
\<close>

theorem reload_safe:
  assumes "update_reach b w u"
  shows "count_list (u_log u) ReloadPage \<le> 1
    \<and> (ReloadPage \<in> set (u_log u) \<longrightarrow> u_active u \<and> u_state u = Returned)
    \<and> (\<forall>e. u_state u = Rejected e \<longrightarrow> ReloadPage \<notin> set (u_log u))"
proof -
  have "count_list (map DeleteCache ds) ReloadPage = 0" for ds by (induction ds) auto
  then show ?thesis
    using update_inv_reach[OF assms] by (cases "u_state u") (auto simp: update_inv_def)
qed

lemma log_shape:
  assumes "l = before @ ReloadPage # after"
    and "l = [] \<or> l = [CloseNotification k] \<or> l = [CloseNotification k, ReloadPage] @ map DeleteCache ds"
  shows "before = [CloseNotification k]"
proof -
  have "ReloadPage \<notin> set (map DeleteCache ds)" by auto
  then have "xs @ ReloadPage # after \<noteq> map DeleteCache ds" for xs
    by (metis in_set_conv_decomp)
  with assms show ?thesis
    by (cases before; cases "tl before") auto
qed

text \<open>
  The caches are not cleared before the page is reloaded: reloadSW does not wait for
  clearCache, and so at the time of the reload no cache has been deleted yet.
\<close>

theorem reload_before_clear:
  assumes "update_reach b w u" and "u_log u = before @ ReloadPage # after"
  shows "\<forall>c. DeleteCache c \<notin> set before"
proof -
  obtain k ds where "u_log u = [] \<or> u_log u = [CloseNotification k]
      \<or> u_log u = [CloseNotification k, ReloadPage] @ map DeleteCache ds"
    using update_inv_reach[OF assms(1)] by (cases "u_state u") (auto simp: update_inv_def)
  with assms(2) have "before = [CloseNotification k]" by (rule log_shape)
  then show ?thesis by simp
qed

text \<open>A whole update in a browser with one cache.\<close>

definition a_browser :: browser where
  "a_browser = \<lparr>b_https = True, b_caches = Some [''antd-pro-v5''], b_serviceWorker = True,
     b_getRegistrations = True, b_registrations = [0], b_registration = Some 0\<rparr>"

definition a_run :: update where
  "a_run = \<lparr>u_waiting = True, u_state = Returned, u_to_worker = [], u_to_page = [], u_active = True,
     u_keys = False, u_log = [CloseNotification ''k'', ReloadPage, DeleteCache ''antd-pro-v5'']\<rparr>"

lemma a_run_reach: "update_reach a_browser True a_run"
proof -
  let ?u1 = "clickUpdate ''k'' (update0 True)"
  let ?m = "Obj [(''type'', Str ''skip-waiting'')]"
  let ?u2 = "?u1\<lparr>u_to_worker := [], u_active := u_active ?u1 \<or> fst (onWorkerMessage True ?m None),
      u_to_page := u_to_page ?u1 @ snd (onWorkerMessage True ?m None)\<rparr>"
  let ?u3 = "onReply a_browser (Obj [(''error'', Null)]) (?u2\<lparr>u_to_page := []\<rparr>)"
  have "update_reach a_browser True ?u1"
    by (rule update_reach.step[OF update_reach.start], rule update_step.click) (simp add: update0_def)
  then have "update_reach a_browser True ?u2"
    by (rule update_reach.step, intro update_step.worker) (simp_all add: update0_def clickUpdate_def)
  then have "update_reach a_browser True ?u3"
    by (rule update_reach.step, intro update_step.reply)
      (simp_all add: update0_def clickUpdate_def onWorkerMessage_def prop_get_Cons)
  then have "update_reach a_browser True (onCacheKeys a_browser ?u3)"
    by (rule update_reach.step, intro update_step.keys)
      (simp add: update0_def clickUpdate_def onReply_def prop_get_Cons a_browser_def Let_def)
  moreover have "onCacheKeys a_browser ?u3 = a_run"
    by (simp add: update0_def clickUpdate_def onReply_def prop_get_Cons a_browser_def a_run_def
        onCacheKeys_def clearCache_def onWorkerMessage_def Let_def)
  ultimately show ?thesis by simp
qed

theorem reload_safe_witness:
  "ReloadPage \<in> set (u_log a_run) \<and> count_list (u_log a_run) ReloadPage \<le> 1 \<and> u_active a_run"
  using reload_safe[OF a_run_reach] by (simp add: a_run_def)

theorem reload_before_clear_witness:
  "\<forall>c. DeleteCache c \<notin> set [CloseNotification ''k'']"
  by (rule reload_before_clear[OF a_run_reach, of _ "[DeleteCache ''antd-pro-v5'']"]) (simp add: a_run_def)

text \<open>
  With the settings of the repository, which switch the offline support off, loading the page in
  any browser listens to no event of a service worker; and on https it unregisters every service
  worker there is and asks for the deletion of every cache.
\<close>

theorem pwa_disabled:
  "let (events, effects) = global_start (truthy (or_undef (prop_get defaultSettings ''pwa''))) b in
    events = []
    \<and> (b_serviceWorker b \<and> b_https b \<and> b_getRegistrations b \<longrightarrow>
        set effects = Unregister ` (set (b_registrations b) \<union> set_option (b_registration b))
          \<union> DeleteCache ` (case b_caches b of None \<Rightarrow> {} | Some cs \<Rightarrow> set cs))
    \<and> (\<not> (b_serviceWorker b \<and> b_https b) \<longrightarrow> effects = [])"
  by (auto simp: global_start_def defaultSettings_def prop_get_Cons clearCache_def Let_def
      split: option.splits)

theorem pwa_disabled_witness:
  "set (snd (global_start False a_browser)) = {Unregister 0, DeleteCache ''antd-pro-v5''}"
  using pwa_disabled[of a_browser]
  by (auto simp: a_browser_def global_start_def defaultSettings_def prop_get_Cons clearCache_def)

section \<open>Every update ends\<close>

text \<open>How many steps an update can still take.\<close>

definition steps_left :: "update \<Rightarrow> nat" where
  "steps_left u = (if u_state u = Notified then 4 else 0) + 3 * length (u_to_worker u)
     + 2 * length (u_to_page u) + (if u_keys u then 1 else 0)"

lemma worker_one_reply: "length (snd (onWorkerMessage port m result)) \<le> 1"
  by (auto simp: onWorkerMessage_def split: option.splits)

lemma steps_left_decrease: "update_step b u u' \<Longrightarrow> steps_left u' < steps_left u"
proof (cases rule: update_step.cases)
  fix m ms result
  assume "u' = u\<lparr>u_to_worker := ms, u_active := u_active u \<or> fst (onWorkerMessage True m result),
      u_to_page := u_to_page u @ snd (onWorkerMessage True m result)\<rparr>" "u_to_worker u = m # ms"
  then show ?thesis using worker_one_reply[of True m result] by (simp add: steps_left_def)
qed (auto simp: steps_left_def clickUpdate_def onReply_def onCacheKeys_def Let_def split: sum.splits if_splits)

lemma steps_bounded: "(update_step b ^^ n) u u' \<Longrightarrow> n + steps_left u' \<le> steps_left u"
proof (induction n arbitrary: u')
  case (Suc n)
  then obtain v where v: "(update_step b ^^ n) u v" "update_step b v u'" by auto
  from Suc.IH[OF v(1)] steps_left_decrease[OF v(2)] show ?case by simp
qed simp

lemma steps_reach: "(update_step b ^^ n) (update0 w) u \<Longrightarrow> update_reach b w u"
  by (induction n arbitrary: u) (auto intro: update_reach.start update_reach.step)

lemma steps_append: "(update_step b ^^ n) u v \<Longrightarrow> update_step b v v' \<Longrightarrow> (update_step b ^^ Suc n) u v'"
  by auto

lemma reach_steps: "update_reach b w u \<Longrightarrow> \<exists>n. (update_step b ^^ n) (update0 w) u"
proof (induction rule: update_reach.induct)
  case start
  show ?case by (rule exI[of _ 0]) simp
next
  case (step u u')
  then show ?case using steps_append by metis
qed

text \<open>What a finished update has done.\<close>

definition update_done :: "browser \<Rightarrow> update \<Rightarrow> bool" where
  "update_done b u \<longleftrightarrow>
     (\<exists>k. u_state u = Returned \<and> \<not> u_waiting u \<and> u_log u = [CloseNotification k])
     \<or> (\<exists>k. u_state u = Returned \<and> u_waiting u \<and> u_active u
          \<and> u_log u = [CloseNotification k, ReloadPage] @ clearCache b)
     \<or> (\<exists>k e. u_state u = Rejected e \<and> u_waiting u \<and> truthy e \<and> u_log u = [CloseNotification k])"

definition update_log_inv :: "browser \<Rightarrow> update \<Rightarrow> bool" where
  "update_log_inv b u \<longleftrightarrow>
     (u_state u = Notified \<or> u_state u = Returned \<or> u_waiting u)
     \<and> (u_keys u \<longrightarrow> u_state u = Returned \<and> u_waiting u)
     \<and> (u_state u = Returned \<longrightarrow> \<not> u_waiting u \<longrightarrow> (\<exists>k. u_log u = [CloseNotification k]))
     \<and> (u_state u = Returned \<longrightarrow> u_waiting u \<longrightarrow>
          (\<exists>k. u_log u = [CloseNotification k, ReloadPage] @ (if u_keys u then [] else clearCache b)))"

lemma update_log_inv_step:
  assumes "update_inv u" and "update_log_inv b u" and "update_step b u u'"
  shows "update_log_inv b u'"
  using assms(3)
proof (cases rule: update_step.cases)
  case (click key)
  with assms(1,2) show ?thesis by (auto simp: update_inv_def update_log_inv_def clickUpdate_def Let_def)
next
  case (worker m ms result)
  with assms(1,2) show ?thesis by (auto simp: update_log_inv_def)
next
  case (reply m ms)
  then obtain e where "m = Obj [(''error'', e)]" using assms(1) by (auto simp: update_inv_def)
  with reply assms(1,2) show ?thesis
    by (auto simp: update_inv_def update_log_inv_def onReply_def prop_get_Cons Let_def clearCache_def)
next
  case keys
  with assms(1,2) show ?thesis by (auto simp: update_log_inv_def onCacheKeys_def)
qed

lemma update_log_inv_reach: "update_reach b w u \<Longrightarrow> update_log_inv b u"
proof (induction rule: update_reach.induct)
  case start
  show ?case by (simp add: update_log_inv_def update0_def)
qed (use update_log_inv_step update_inv_reach in blast)

lemma stuck_done:
  assumes "update_reach b w u" and stuck: "\<forall>u'. \<not> update_step b u u'"
  shows "update_done b u"
proof -
  note inv = update_inv_reach[OF assms(1)] and inv' = update_log_inv_reach[OF assms(1)]
  have "u_state u \<noteq> Notified" using stuck update_step.click by blast
  moreover have keys: "\<not> u_keys u" using stuck update_step.keys by blast
  moreover have "u_to_worker u = []"
  proof (cases "u_to_worker u")
    case (Cons m ms)
    from update_step.worker[OF this, of None b] stuck show ?thesis by simp
  qed
  moreover have "u_to_page u = [] \<or> u_state u \<noteq> Waiting_reply"
    using stuck update_step.reply by (cases "u_to_page u") blast+
  ultimately show ?thesis using inv inv'
    by (cases "u_state u") (auto simp: update_inv_def update_log_inv_def update_done_def)
qed





end
