(* ===== verification/Locales.thy ===== *)
theory Locales
  imports Pwa
begin

text \<open>
  The texts of the user interface, \<open>src/locales/zh-CN.ts\<close> and the files it merges: one property list
  per file, in the order of the file, and the merged table.
\<close>

section \<open>The files\<close>

definition locale_component :: "string props" where
  "locale_component =
     [(''component.tagSelect.expand'', (utf8 [0x5C55, 0x5F00])),
      (''component.tagSelect.collapse'', (utf8 [0x6536, 0x8D77])),
      (''component.tagSelect.all'', (utf8 [0x5168, 0x90E8]))]"

definition locale_globalHeader :: "string props" where
  "locale_globalHeader =
     [(''component.globalHeader.search'', (utf8 [0x7AD9, 0x5185, 0x641C, 0x7D22])),
      (''component.globalHeader.search.example1'', (utf8 [0x641C, 0x7D22, 0x63D0, 0x793A, 0x4E00])),
      (''component.globalHeader.search.example2'', (utf8 [0x641C, 0x7D22, 0x63D0, 0x793A, 0x4E8C])),
      (''component.globalHeader.search.example3'', (utf8 [0x641C, 0x7D22, 0x63D0, 0x793A, 0x4E09])),
      (''component.globalHeader.help'', (utf8 [0x4F7F, 0x7528, 0x6587, 0x6863])),
      (''component.globalHeader.notification'', (utf8 [0x901A, 0x77E5])),
      (''component.globalHeader.notification.empty'', (utf8 [0x4F60, 0x5DF2, 0x67E5, 0x770B, 0x6240, 0x6709, 0x901A, 0x77E5])),
      (''component.globalHeader.message'', (utf8 [0x6D88, 0x606F])),
      (''component.globalHeader.message.empty'', (utf8 [0x60A8, 0x5DF2, 0x8BFB, 0x5B8C, 0x6240, 0x6709, 0x6D88, 0x606F])),
      (''component.globalHeader.event'', (utf8 [0x5F85, 0x529E])),
      (''component.globalHeader.event.empty'', (utf8 [0x4F60, 0x5DF2, 0x5B8C, 0x6210, 0x6240, 0x6709, 0x5F85, 0x529E])),
      (''component.noticeIcon.clear'', (utf8 [0x6E05, 0x7A7A])),
      (''component.noticeIcon.cleared'', (utf8 [0x6E05, 0x7A7A, 0x4E86])),
      (''component.noticeIcon.empty'', (utf8 [0x6682, 0x65E0, 0x6570, 0x636E])),
      (''component.noticeIcon.view-more'', (utf8 [0x67E5, 0x770B, 0x66F4, 0x591A]))]"

definition locale_menu :: "string props" where
  "locale_menu =
     [(''menu.debug'', (utf8 [0x8C03, 0x8BD5])),
      (''menu.gm'', (''GM'' @ utf8 [0x6307, 0x4EE4])),
      (''menu.export-table'', (utf8 [0x5BFC, 0x8868])),
      (''menu.more-blocks'', (utf8 [0x66F4, 0x591A, 0x533A, 0x5757])),
      (''menu.home'', (utf8 [0x9996, 0x9875])),
      (''menu.admin'', (utf8 [0x7BA1, 0x7406, 0x9875])),
      (''menu.admin.sub-page'', (utf8 [0x4E8C, 0x7EA7, 0x7BA1, 0x7406, 0x9875])),
      (''menu.login'', (utf8 [0x767B, 0x5F55])),
      (''menu.register'', (utf8 [0x6CE8, 0x518C])),
      (''menu.register-result'', (utf8 [0x6CE8, 0x518C, 0x7ED3, 0x679C])),
      (''menu.dashboard'', ''Dashboard''),
      (''menu.dashboard.analysis'', (utf8 [0x5206, 0x6790, 0x9875])),
      (''menu.dashboard.monitor'', (utf8 [0x76D1, 0x63A7, 0x9875])),
      (''menu.dashboard.workplace'', (utf8 [0x5DE5, 0x4F5C, 0x53F0])),
      (''menu.exception.403'', ''403''),
      (''menu.exception.404'', ''404''),
      (''menu.exception.500'', ''500''),
      (''menu.form'', (utf8 [0x8868, 0x5355, 0x9875])),
      (''menu.form.basic-form'', (utf8 [0x57FA, 0x7840, 0x8868, 0x5355])),
      (''menu.form.step-form'', (utf8 [0x5206, 0x6B65, 0x8868, 0x5355])),
      (''menu.form.step-form.info'', (utf8 [0x5206, 0x6B65, 0x8868, 0x5355, 0xFF08, 0x586B, 0x5199, 0x8F6C, 0x8D26, 0x4FE1, 0x606F, 0xFF09])),
      (''menu.form.step-form.confirm'', (utf8 [0x5206, 0x6B65, 0x8868, 0x5355, 0xFF08, 0x786E, 0x8BA4, 0x8F6C, 0x8D26, 0x4FE1, 0x606F, 0xFF09])),
      (''menu.form.step-form.result'', (utf8 [0x5206, 0x6B65, 0x8868, 0x5355, 0xFF08, 0x5B8C, 0x6210, 0xFF09])),
      (''menu.form.advanced-form'', (utf8 [0x9AD8, 0x7EA7, 0x8868, 0x5355])),
      (''menu.list'', (utf8 [0x5217, 0x8868, 0x9875])),
      (''menu.list.table-list'', (utf8 [0x67E5, 0x8BE2, 0x8868, 0x683C])),
      (''menu.list.basic-list'', (utf8 [0x6807, 0x51C6, 0x5217, 0x8868])),
      (''menu.list.card-list'', (utf8 [0x5361, 0x7247, 0x5217, 0x8868])),
      (''menu.list.search-list'', (utf8 [0x641C, 0x7D22, 0x5217, 0x8868])),
      (''menu.list.search-list.articles'', (utf8 [0x641C, 0x7D22, 0x5217, 0x8868, 0xFF08, 0x6587, 0x7AE0, 0xFF09])),
      (''menu.list.search-list.projects'', (utf8 [0x641C, 0x7D22, 0x5217, 0x8868, 0xFF08, 0x9879, 0x76EE, 0xFF09])),
      (''menu.list.search-list.applications'', (utf8 [0x641C, 0x7D22, 0x5217, 0x8868, 0xFF08, 0x5E94, 0x7528, 0xFF09])),
      (''menu.profile'', (utf8 [0x8BE6, 0x60C5, 0x9875])),
      (''menu.profile.basic'', (utf8 [0x57FA, 0x7840, 0x8BE6, 0x60C5, 0x9875])),
      (''menu.profile.advanced'', (utf8 [0x9AD8, 0x7EA7, 0x8BE6, 0x60C5, 0x9875])),
      (''menu.result'', (utf8 [0x7ED3, 0x679C, 0x9875])),
      (''menu.result.success'', (utf8 [0x6210, 0x529F, 0x9875])),
      (''menu.result.fail'', (utf8 [0x5931, 0x8D25, 0x9875])),
      (''menu.exception'', (utf8 [0x5F02, 0x5E38, 0x9875])),
      (''menu.exception.not-permission'', ''403''),
      (''menu.exception.not-find'', ''404''),
      (''menu.exception.server-error'', ''500''),
      (''menu.exception.trigger'', (utf8 [0x89E6, 0x53D1, 0x9519, 0x8BEF])),
      (''menu.account'', (utf8 [0x4E2A, 0x4EBA, 0x9875])),
      (''menu.account.center'', (utf8 [0x4E2A, 0x4EBA, 0x4E2D, 0x5FC3])),
      (''menu.account.settings'', (utf8 [0x4E2A, 0x4EBA, 0x8BBE, 0x7F6E])),
      (''menu.account.trigger'', (utf8 [0x89E6, 0x53D1, 0x62A5, 0x9519])),
      (''menu.account.logout'', (utf8 [0x9000, 0x51FA, 0x767B, 0x5F55])),
      (''menu.editor'', (utf8 [0x56FE, 0x5F62, 0x7F16, 0x8F91, 0x5668])),
      (''menu.editor.flow'', (utf8 [0x6D41, 0x7A0B, 0x7F16, 0x8F91, 0x5668])),
      (''menu.editor.mind'', (utf8 [0x8111, 0x56FE, 0x7F16, 0x8F91, 0x5668])),
      (''menu.editor.koni'', (utf8 [0x62D3, 0x6251, 0x7F16, 0x8F91, 0x5668]))]"

definition locale_pwa :: "string props" where
  "locale_pwa =
     [(''app.pwa.offline'', (utf8 [0x5F53, 0x524D, 0x5904, 0x4E8E, 0x79BB, 0x7EBF, 0x72B6, 0x6001])),
      (''app.pwa.serviceworker.updated'', (utf8 [0x6709, 0x65B0, 0x5185, 0x5BB9])),
      (''app.pwa.serviceworker.updated.hint'', (utf8 [0x8BF7, 0x70B9, 0x51FB, 0x201C, 0x5237, 0x65B0, 0x201D, 0x6309, 0x94AE, 0x6216, 0x8005, 0x624B, 0x52A8, 0x5237, 0x65B0, 0x9875, 0x9762])),
      (''app.pwa.serviceworker.updated.ok'', (utf8 [0x5237, 0x65B0]))]"

definition locale_settingDrawer :: "string props" where
  "locale_settingDrawer =
     [(''app.setting.pagestyle'', (utf8 [0x6574, 0x4F53, 0x98CE, 0x683C, 0x8BBE, 0x7F6E])),
      (''app.setting.pagestyle.dark'', (utf8 [0x6697, 0x8272, 0x83DC, 0x5355, 0x98CE, 0x683C])),
      (''app.setting.pagestyle.light'', (utf8 [0x4EAE, 0x8272, 0x83DC, 0x5355, 0x98CE, 0x683C])),
      (''app.setting.content-width'', (utf8 [0x5185, 0x5BB9, 0x533A, 0x57DF, 0x5BBD, 0x5EA6])),
      (''app.setting.content-width.fixed'', (utf8 [0x5B9A, 0x5BBD])),
      (''app.setting.content-width.fluid'', (utf8 [0x6D41, 0x5F0F])),
      (''app.setting.themecolor'', (utf8 [0x4E3B, 0x9898, 0x8272])),
      (''app.setting.themecolor.dust'', (utf8 [0x8584, 0x66AE])),
      (''app.setting.themecolor.volcano'', (utf8 [0x706B, 0x5C71])),
      (''app.setting.themecolor.sunset'', (utf8 [0x65E5, 0x66AE])),
      (''app.setting.themecolor.cyan'', (utf8 [0x660E, 0x9752])),
      (''app.setting.themecolor.green'', (utf8 [0x6781, 0x5149, 0x7EFF])),
      (''app.setting.themecolor.daybreak'', (utf8 [0x62C2, 0x6653, 0x84DD, 0xFF08, 0x9ED8, 0x8BA4, 0xFF09])),
      (''app.setting.themecolor.geekblue'', (utf8 [0x6781, 0x5BA2, 0x84DD])),
      (''app.setting.themecolor.purple'', (utf8 [0x9171, 0x7D2B])),
      (''app.setting.navigationmode'', (utf8 [0x5BFC, 0x822A, 0x6A21, 0x5F0F])),
      (''app.setting.sidemenu'', (utf8 [0x4FA7, 0x8FB9, 0x83DC, 0x5355, 0x5E03, 0x5C40])),
      (''app.setting.topmenu'', (utf8 [0x9876, 0x90E8, 0x83DC, 0x5355, 0x5E03, 0x5C40])),
      (''app.setting.fixedheader'', (utf8 [0x56FA, 0x5B9A] @ '' Header'')),
      (''app.setting.fixedsidebar'', (utf8 [0x56FA, 0x5B9A, 0x4FA7, 0x8FB9, 0x83DC, 0x5355])),
      (''app.setting.fixedsidebar.hint'', (utf8 [0x4FA7, 0x8FB9, 0x83DC, 0x5355, 0x5E03, 0x5C40, 0x65F6, 0x53EF, 0x914D, 0x7F6E])),
      (''app.setting.hideheader'', (utf8 [0x4E0B, 0x6ED1, 0x65F6, 0x9690, 0x85CF] @ '' Header'')),
      (''app.setting.hideheader.hint'', (utf8 [0x56FA, 0x5B9A] @ '' Header '' @ utf8 [0x65F6, 0x53EF, 0x914D, 0x7F6E])),
      (''app.setting.othersettings'', (utf8 [0x5176, 0x4ED6, 0x8BBE, 0x7F6E])),
      (''app.setting.weakmode'', (utf8 [0x8272, 0x5F31, 0x6A21, 0x5F0F])),
      (''app.setting.copy'', (utf8 [0x62F7, 0x8D1D, 0x8BBE, 0x7F6E])),
      (''app.setting.copyinfo'', (utf8 [0x62F7, 0x8D1D, 0x6210, 0x529F, 0xFF0C, 0x8BF7, 0x5230] @ '' config/defaultSettings.js '' @ utf8 [0x4E2D, 0x66FF, 0x6362, 0x9ED8, 0x8BA4, 0x914D, 0x7F6E])),
      (''app.setting.production.hint'', (utf8 [0x914D, 0x7F6E, 0x680F, 0x53EA, 0x5728, 0x5F00, 0x53D1, 0x73AF, 0x5883, 0x7528, 0x4E8E, 0x9884, 0x89C8, 0xFF0C, 0x751F, 0x4EA7, 0x73AF, 0x5883, 0x4E0D, 0x4F1A, 0x5C55, 0x73B0, 0xFF0C, 0x8BF7, 0x62F7, 0x8D1D, 0x540E, 0x624B, 0x52A8, 0x4FEE, 0x6539, 0x914D, 0x7F6E, 0x6587, 0x4EF6]))]"

definition locale_settings :: "string props" where
  "locale_settings =
     [(''app.settings.menuMap.basic'', (utf8 [0x57FA, 0x672C, 0x8BBE, 0x7F6E])),
      (''app.settings.menuMap.security'', (utf8 [0x5B89, 0x5168, 0x8BBE, 0x7F6E])),
      (''app.settings.menuMap.binding'', (utf8 [0x8D26, 0x53F7, 0x7ED1, 0x5B9A])),
      (''app.settings.menuMap.notification'', (utf8 [0x65B0, 0x6D88, 0x606F, 0x901A, 0x77E5])),
      (''app.settings.basic.avatar'', (utf8 [0x5934, 0x50CF])),
      (''app.settings.basic.change-avatar'', (utf8 [0x66F4, 0x6362, 0x5934, 0x50CF])),
      (''app.settings.basic.email'', (utf8 [0x90AE, 0x7BB1])),
      (''app.settings.basic.email-message'', (utf8 [0x8BF7, 0x8F93, 0x5165, 0x60A8, 0x7684, 0x90AE, 0x7BB1] @ ''!'')),
      (''app.settings.basic.nickname'', (utf8 [0x6635, 0x79F0])),
      (''app.settings.basic.nickname-message'', (utf8 [0x8BF7, 0x8F93, 0x5165, 0x60A8, 0x7684, 0x6635, 0x79F0] @ ''!'')),
      (''app.settings.basic.profile'', (utf8 [0x4E2A, 0x4EBA, 0x7B80, 0x4ECB])),
      (''app.settings.basic.profile-message'', (utf8 [0x8BF7, 0x8F93, 0x5165, 0x4E2A, 0x4EBA, 0x7B80, 0x4ECB] @ ''!'')),
      (''app.settings.basic.profile-placeholder'', (utf8 [0x4E2A, 0x4EBA, 0x7B80, 0x4ECB])),
      (''app.settings.basic.country'', (utf8 [0x56FD, 0x5BB6] @ ''/'' @ utf8 [0x5730, 0x533A])),
      (''app.settings.basic.country-message'', (utf8 [0x8BF7, 0x8F93, 0x5165, 0x60A8, 0x7684, 0x56FD, 0x5BB6, 0x6216, 0x5730, 0x533A] @ ''!'')),
      (''app.settings.basic.geographic'', (utf8 [0x6240, 0x5728, 0x7701, 0x5E02])),
      (''app.settings.basic.geographic-message'', (utf8 [0x8BF7, 0x8F93, 0x5165, 0x60A8, 0x7684, 0x6240, 0x5728, 0x7701, 0x5E02] @ ''!'')),
      (''app.settings.basic.address'', (utf8 [0x8857, 0x9053, 0x5730, 0x5740])),
      (''app.settings.basic.address-message'', (utf8 [0x8BF7, 0x8F93, 0x5165, 0x60A8, 0x7684, 0x8857, 0x9053, 0x5730, 0x5740] @ ''!'')),
      (''app.settings.basic.phone'', (utf8 [0x8054, 0x7CFB, 0x7535, 0x8BDD])),
      (''app.settings.basic.phone-message'', (utf8 [0x8BF7, 0x8F93, 0x5165, 0x60A8, 0x7684, 0x8054, 0x7CFB, 0x7535, 0x8BDD] @ ''!'')),
      (''app.settings.basic.update'', (utf8 [0x66F4, 0x65B0, 0x57FA, 0x672C, 0x4FE1, 0x606F])),
      (''app.settings.security.strong'', (utf8 [0x5F3A])),
      (''app.settings.security.medium'', (utf8 [0x4E2D])),
      (''app.settings.security.weak'', (utf8 [0x5F31])),
      (''app.settings.security.password'', (utf8 [0x8D26, 0x6237, 0x5BC6, 0x7801])),
      (''app.settings.security.password-description'', (utf8 [0x5F53, 0x524D, 0x5BC6, 0x7801, 0x5F3A, 0x5EA6])),
      (''app.settings.security.phone'', (utf8 [0x5BC6, 0x4FDD, 0x624B, 0x673A])),
      (''app.settings.security.phone-description'', (utf8 [0x5DF2, 0x7ED1, 0x5B9A, 0x624B, 0x673A])),
      (''app.settings.security.question'', (utf8 [0x5BC6, 0x4FDD, 0x95EE, 0x9898])),
      (''app.settings.security.question-description'', (utf8 [0x672A, 0x8BBE, 0x7F6E, 0x5BC6, 0x4FDD, 0x95EE, 0x9898, 0xFF0C, 0x5BC6, 0x4FDD, 0x95EE, 0x9898, 0x53EF, 0x6709, 0x6548, 0x4FDD, 0x62A4, 0x8D26, 0x6237, 0x5B89, 0x5168])),
      (''app.settings.security.email'', (utf8 [0x5907, 0x7528, 0x90AE, 0x7BB1])),
      (''app.settings.security.email-description'', (utf8 [0x5DF2, 0x7ED1, 0x5B9A, 0x90AE, 0x7BB1])),
      (''app.settings.security.mfa'', (''MFA '' @ utf8 [0x8BBE, 0x5907])),
      (''app.settings.security.mfa-description'', (utf8 [0x672A, 0x7ED1, 0x5B9A] @ '' MFA '' @ utf8 [0x8BBE, 0x5907, 0xFF0C, 0x7ED1, 0x5B9A, 0x540E, 0xFF0C, 0x53EF, 0x4EE5, 0x8FDB, 0x884C, 0x4E8C, 0x6B21, 0x786E, 0x8BA4])),
      (''app.settings.security.modify'', (utf8 [0x4FEE, 0x6539])),
      (''app.settings.security.set'', (utf8 [0x8BBE, 0x7F6E])),
      (''app.settings.security.bind'', (utf8 [0x7ED1, 0x5B9A])),
      (''app.settings.binding.taobao'', (utf8 [0x7ED1, 0x5B9A, 0x6DD8, 0x5B9D])),
      (''app.settings.binding.taobao-description'', (utf8 [0x5F53, 0x524D, 0x672A, 0x7ED1, 0x5B9A, 0x6DD8, 0x5B9D, 0x8D26, 0x53F7])),
      (''app.settings.binding.alipay'', (utf8 [0x7ED1, 0x5B9A, 0x652F, 0x4ED8, 0x5B9D])),
      (''app.settings.binding.alipay-description'', (utf8 [0x5F53, 0x524D, 0x672A, 0x7ED1, 0x5B9A, 0x652F, 0x4ED8, 0x5B9D, 0x8D26, 0x53F7])),
      (''app.settings.binding.dingding'', (utf8 [0x7ED1, 0x5B9A, 0x9489, 0x9489])),
      (''app.settings.binding.dingding-description'', (utf8 [0x5F53, 0x524D, 0x672A, 0x7ED1, 0x5B9A, 0x9489, 0x9489, 0x8D26, 0x53F7])),
      (''app.settings.binding.bind'', (utf8 [0x7ED1, 0x5B9A])),
      (''app.settings.notification.password'', (utf8 [0x8D26, 0x6237, 0x5BC6, 0x7801])),
      (''app.settings.notification.password-description'', (utf8 [0x5176, 0x4ED6, 0x7528, 0x6237, 0x7684, 0x6D88, 0x606F, 0x5C06, 0x4EE5, 0x7AD9, 0x5185, 0x4FE1, 0x7684, 0x5F62, 0x5F0F, 0x901A, 0x77E5])),
      (''app.settings.notification.messages'', (utf8 [0x7CFB, 0x7EDF, 0x6D88, 0x606F])),
      (''app.settings.notification.messages-description'', (utf8 [0x7CFB, 0x7EDF, 0x6D88, 0x606F, 0x5C06, 0x4EE5, 0x7AD9, 0x5185, 0x4FE1, 0x7684, 0x5F62, 0x5F0F, 0x901A, 0x77E5])),
      (''app.settings.notification.todo'', (utf8 [0x5F85, 0x529E, 0x4EFB, 0x52A1])),
      (''app.settings.notification.todo-description'', (utf8 [0x5F85, 0x529E, 0x4EFB, 0x52A1, 0x5C06, 0x4EE5, 0x7AD9, 0x5185, 0x4FE1, 0x7684, 0x5F62, 0x5F0F, 0x901A, 0x77E5])),
      (''app.settings.open'', (utf8 [0x5F00])),
      (''app.settings.close'', (utf8 [0x5173]))]"

definition locale_pages :: "string props" where
  "locale_pages =
     [(''pages.layouts.userLayout.title'', (''Ant Design '' @ utf8 [0x662F, 0x897F, 0x6E56, 0x533A, 0x6700, 0x5177, 0x5F71, 0x54CD, 0x529B, 0x7684] @ '' Web '' @ utf8 [0x8BBE, 0x8BA1, 0x89C4, 0x8303])),
      (''pages.login.accountLogin.tab'', (utf8 [0x8D26, 0x6237, 0x5BC6, 0x7801, 0x767B, 0x5F55])),
      (''pages.login.accountLogin.errorMessage'', (utf8 [0x9519, 0x8BEF, 0x7684, 0x7528, 0x6237, 0x540D, 0x548C, 0x5BC6, 0x7801] @ ''(admin/ant.design)'')),
      (''pages.login.failure'', (utf8 [0x767B, 0x5F55, 0x5931, 0x8D25, 0xFF0C, 0x8BF7, 0x91CD, 0x8BD5, 0xFF01])),
      (''pages.login.success'', (utf8 [0x767B, 0x5F55, 0x6210, 0x529F, 0xFF01])),
      (''pages.login.username.placeholder'', (utf8 [0x7528, 0x6237, 0x540D] @ '': admin or user'')),
      (''pages.login.username.required'', (utf8 [0x7528, 0x6237, 0x540D, 0x662F, 0x5FC5, 0x586B, 0x9879, 0xFF01])),
      (''pages.login.password.placeholder'', (utf8 [0x5BC6, 0x7801] @ '': ant.design'')),
      (''pages.login.password.required'', (utf8 [0x5BC6, 0x7801, 0x662F, 0x5FC5, 0x586B, 0x9879, 0xFF01])),
      (''pages.login.phoneLogin.tab'', (utf8 [0x624B, 0x673A, 0x53F7, 0x767B, 0x5F55])),
      (''pages.login.phoneLogin.errorMessage'', (utf8 [0x9A8C, 0x8BC1, 0x7801, 0x9519, 0x8BEF])),
      (''pages.login.phoneNumber.placeholder'', (utf8 [0x8BF7, 0x8F93, 0x5165, 0x624B, 0x673A, 0x53F7, 0xFF01])),
      (''pages.login.phoneNumber.required'', (utf8 [0x624B, 0x673A, 0x53F7, 0x662F, 0x5FC5, 0x586B, 0x9879, 0xFF01])),
      (''pages.login.phoneNumber.invalid'', (utf8 [0x4E0D, 0x5408, 0x6CD5, 0x7684, 0x624B, 0x673A, 0x53F7, 0xFF01])),
      (''pages.login.captcha.placeholder'', (utf8 [0x8BF7, 0x8F93, 0x5165, 0x9A8C, 0x8BC1, 0x7801, 0xFF01])),
      (''pages.login.captcha.required'', (utf8 [0x9A8C, 0x8BC1, 0x7801, 0x662F, 0x5FC5, 0x586B, 0x9879, 0xFF01])),
      (''pages.login.phoneLogin.getVerificationCode'', (utf8 [0x83B7, 0x53D6, 0x9A8C, 0x8BC1, 0x7801])),
      (''pages.getCaptchaSecondText'', (utf8 [0x79D2, 0x540E, 0x91CD, 0x65B0, 0x83B7, 0x53D6])),
      (''pages.login.rememberMe'', (utf8 [0x81EA, 0x52A8, 0x767B, 0x5F55])),
      (''pages.login.forgotPassword'', (utf8 [0x5FD8, 0x8BB0, 0x5BC6, 0x7801] @ '' ?'')),
      (''pages.login.submit'', (utf8 [0x767B, 0x5F55])),
      (''pages.login.loginWith'', (utf8 [0x5176, 0x4ED6, 0x767B, 0x5F55, 0x65B9, 0x5F0F] @ '' :'')),
      (''pages.login.registerAccount'', (utf8 [0x6CE8, 0x518C, 0x8D26, 0x6237])),
      (''pages.welcome.advancedComponent'', (utf8 [0x9AD8, 0x7EA7, 0x8868, 0x683C])),
      (''pages.welcome.link'', (utf8 [0x6B22, 0x8FCE, 0x4F7F, 0x7528])),
      (''pages.welcome.advancedLayout'', (utf8 [0x9AD8, 0x7EA7, 0x5E03, 0x5C40])),
      (''pages.welcome.alertMessage'', (utf8 [0x66F4, 0x5FEB, 0x66F4, 0x5F3A, 0x7684, 0x91CD, 0x578B, 0x7EC4, 0x4EF6, 0xFF0C, 0x5DF2, 0x7ECF, 0x53D1, 0x5E03, 0x3002])),
      (''pages.admin.subPage.title'', ('' '' @ utf8 [0x8FD9, 0x4E2A, 0x9875, 0x9762, 0x53EA, 0x6709] @ '' admin '' @ utf8 [0x6743, 0x9650, 0x624D, 0x80FD, 0x67E5, 0x770B])),
      (''pages.admin.subPage.alertMessage'', (''umi ui '' @ utf8 [0x73B0, 0x5DF2, 0x53D1, 0x5E03, 0xFF0C, 0x6B22, 0x8FCE, 0x4F7F, 0x7528] @ '' npm run ui '' @ utf8 [0x542F, 0x52A8, 0x4F53, 0x9A8C, 0x3002])),
      (''pages.searchTable.createForm.newRule'', (utf8 [0x65B0, 0x5EFA, 0x89C4, 0x5219])),
      (''pages.searchTable.updateForm.ruleConfig'', (utf8 [0x89C4, 0x5219, 0x914D, 0x7F6E])),
      (''pages.searchTable.updateForm.basicConfig'', (utf8 [0x57FA, 0x672C, 0x4FE1, 0x606F])),
      (''pages.searchTable.updateForm.ruleName.nameLabel'', (utf8 [0x89C4, 0x5219, 0x540D, 0x79F0])),
      (''pages.searchTable.updateForm.ruleName.nameRules'', (utf8 [0x8BF7, 0x8F93, 0x5165, 0x89C4, 0x5219, 0x540D, 0x79F0, 0xFF01])),
      (''pages.searchTable.updateForm.ruleDesc.descLabel'', (utf8 [0x89C4, 0x5219, 0x63CF, 0x8FF0])),
      (''pages.searchTable.updateForm.ruleDesc.descPlaceholder'', (utf8 [0x8BF7, 0x8F93, 0x5165, 0x81F3, 0x5C11, 0x4E94, 0x4E2A, 0x5B57, 0x7B26])),
      (''pages.searchTable.updateForm.ruleDesc.descRules'', (utf8 [0x8BF7, 0x8F93, 0x5165, 0x81F3, 0x5C11, 0x4E94, 0x4E2A, 0x5B57, 0x7B26, 0x7684, 0x89C4, 0x5219, 0x63CF, 0x8FF0, 0xFF01])),
      (''pages.searchTable.updateForm.ruleProps.title'', (utf8 [0x914D, 0x7F6E, 0x89C4, 0x5219, 0x5C5E, 0x6027])),
      (''pages.searchTable.updateForm.object'', (utf8 [0x76D1, 0x63A7, 0x5BF9, 0x8C61])),
      (''pages.searchTable.updateForm.ruleProps.templateLabel'', (utf8 [0x89C4, 0x5219, 0x6A21, 0x677F])),
      (''pages.searchTable.updateForm.ruleProps.typeLabel'', (utf8 [0x89C4, 0x5219, 0x7C7B, 0x578B])),
      (''pages.searchTable.updateForm.schedulingPeriod.title'', (utf8 [0x8BBE, 0x5B9A, 0x8C03, 0x5EA6, 0x5468, 0x671F])),
      (''pages.searchTable.updateForm.schedulingPeriod.timeLabel'', (utf8 [0x5F00, 0x59CB, 0x65F6, 0x95F4])),
      (''pages.searchTable.updateForm.schedulingPeriod.timeRules'', (utf8 [0x8BF7, 0x9009, 0x62E9, 0x5F00, 0x59CB, 0x65F6, 0x95F4, 0xFF01])),
      (''pages.searchTable.titleDesc'', (utf8 [0x63CF, 0x8FF0])),
      (''pages.searchTable.ruleName'', (utf8 [0x89C4, 0x5219, 0x540D, 0x79F0, 0x4E3A, 0x5FC5, 0x586B, 0x9879])),
      (''pages.searchTable.titleCallNo'', (utf8 [0x670D, 0x52A1, 0x8C03, 0x7528, 0x6B21, 0x6570])),
      (''pages.searchTable.titleStatus'', (utf8 [0x72B6, 0x6001])),
      (''pages.searchTable.nameStatus.default'', (utf8 [0x5173, 0x95ED])),
      (''pages.searchTable.nameStatus.running'', (utf8 [0x8FD0, 0x884C, 0x4E2D])),
      (''pages.searchTable.nameStatus.online'', (utf8 [0x5DF2, 0x4E0A, 0x7EBF])),
      (''pages.searchTable.nameStatus.abnormal'', (utf8 [0x5F02, 0x5E38])),
      (''pages.searchTable.titleUpdatedAt'', (utf8 [0x4E0A, 0x6B21, 0x8C03, 0x5EA6, 0x65F6, 0x95F4])),
      (''pages.searchTable.exception'', (utf8 [0x8BF7, 0x8F93, 0x5165, 0x5F02, 0x5E38, 0x539F, 0x56E0, 0xFF01])),
      (''pages.searchTable.titleOption'', (utf8 [0x64CD, 0x4F5C])),
      (''pages.searchTable.config'', (utf8 [0x914D, 0x7F6E])),
      (''pages.searchTable.subscribeAlert'', (utf8 [0x8BA2, 0x9605, 0x8B66, 0x62A5])),
      (''pages.searchTable.title'', (utf8 [0x67E5, 0x8BE2, 0x8868, 0x683C])),
      (''pages.searchTable.new'', (utf8 [0x65B0, 0x5EFA])),
      (''pages.searchTable.chosen'', (utf8 [0x5DF2, 0x9009, 0x62E9])),
      (''pages.searchTable.item'', (utf8 [0x9879])),
      (''pages.searchTable.totalServiceCalls'', (utf8 [0x670D, 0x52A1, 0x8C03, 0x7528, 0x6B21, 0x6570, 0x603B, 0x8BA1])),
      (''pages.searchTable.tenThousand'', (utf8 [0x4E07])),
      (''pages.searchTable.batchDeletion'', (utf8 [0x6279, 0x91CF, 0x5220, 0x9664])),
      (''pages.searchTable.batchApproval'', (utf8 [0x6279, 0x91CF, 0x5BA1, 0x6279]))]"

definition locale_base :: "string props" where
  "locale_base =
     [(''navBar.lang'', (utf8 [0x8BED, 0x8A00])),
      (''layout.user.link.help'', (utf8 [0x5E2E, 0x52A9])),
      (''layout.user.link.privacy'', (utf8 [0x9690, 0x79C1])),
      (''layout.user.link.terms'', (utf8 [0x6761, 0x6B3E])),
      (''app.copyright.produced'', (utf8 [0x8682, 0x8681, 0x96C6, 0x56E2, 0x4F53, 0x9A8C, 0x6280, 0x672F, 0x90E8, 0x51FA, 0x54C1])),
      (''app.preview.down.block'', (utf8 [0x4E0B, 0x8F7D, 0x6B64, 0x9875, 0x9762, 0x5230, 0x672C, 0x5730, 0x9879, 0x76EE])),
      (''app.welcome.link.fetch-blocks'', (utf8 [0x83B7, 0x53D6, 0x5168, 0x90E8, 0x533A, 0x5757])),
      (''app.welcome.link.block-list'', (utf8 [0x57FA, 0x4E8E] @ '' block '' @ utf8 [0x5F00, 0x53D1, 0xFF0C, 0x5FEB, 0x901F, 0x6784, 0x5EFA, 0x6807, 0x51C6, 0x9875, 0x9762]))]"

section \<open>The merged table\<close>

definition zh_CN :: "string props" where
  "zh_CN = prop_spread (prop_spread (prop_spread (prop_spread (prop_spread (prop_spread (prop_spread
     (prop_literal locale_base) locale_pages) locale_globalHeader) locale_menu) locale_settingDrawer)
     locale_settings) locale_pwa) locale_component"

text \<open>The entries of all files, in the order in which they are merged.\<close>

definition all_entries :: "string props" where
  "all_entries = locale_base @ locale_pages @ locale_globalHeader @ locale_menu @ locale_settingDrawer
     @ locale_settings @ locale_pwa @ locale_component"

lemma prop_spread_append: "prop_spread a (b @ c) = prop_spread (prop_spread a b) c"
  by (induction a b rule: prop_spread.induct) auto

lemma zh_CN_entries: "zh_CN = prop_literal all_entries"
  by (simp add: zh_CN_def all_entries_def prop_literal_def prop_spread_append)

lemmas locale_defs = locale_base_def locale_pages_def locale_globalHeader_def locale_menu_def
  locale_settingDrawer_def locale_settings_def locale_pwa_def locale_component_def

text \<open>The file an id belongs to, by its prefix; this keeps the files apart.\<close>

definition file_of :: "string \<Rightarrow> nat" where
  "file_of k =
     (if begins_with ''pages.'' k then 1
      else if begins_with ''menu.'' k then 2
      else if begins_with ''app.setting.'' k then 3
      else if begins_with ''app.settings.'' k then 4
      else if begins_with ''app.pwa.'' k then 5
      else if begins_with ''component.t'' k then 6
      else if begins_with ''component.'' k then 7
      else 0)"

lemma files:
  "\<forall>k \<in> set (keys locale_base). file_of k = 0"
  "\<forall>k \<in> set (keys locale_pages). file_of k = 1"
  "\<forall>k \<in> set (keys locale_menu). file_of k = 2"
  "\<forall>k \<in> set (keys locale_settingDrawer). file_of k = 3"
  "\<forall>k \<in> set (keys locale_settings). file_of k = 4"
  "\<forall>k \<in> set (keys locale_pwa). file_of k = 5"
  "\<forall>k \<in> set (keys locale_component). file_of k = 6"
  "\<forall>k \<in> set (keys locale_globalHeader). file_of k = 7"
  by (simp_all add: locale_defs file_of_def begins_with_def)

lemma distinct_files:
  "distinct (keys locale_base)" "distinct (keys locale_pages)" "distinct (keys locale_menu)"
  "distinct (keys locale_settingDrawer)" "distinct (keys locale_settings)" "distinct (keys locale_pwa)"
  "distinct (keys locale_component)" "distinct (keys locale_globalHeader)"
  by (simp_all add: locale_defs)

lemma apart:
  "\<forall>k \<in> set xs. file_of k = i \<Longrightarrow> \<forall>k \<in> set ys. file_of k = j \<Longrightarrow> i \<noteq> j \<Longrightarrow> set xs \<inter> set ys = {}"
  by auto

lemma distinct_ids: "distinct (keys all_entries)"
  unfolding all_entries_def keys_simps distinct_append set_append Int_Un_distrib Un_empty
  by (intro conjI distinct_files) (rule apart, rule files, rule files, simp)+

text \<open>
  No text is lost in the merged table: no id occurs twice, within a file or in two files, and
  looking an id up gives the text that its file has for it.
\<close>

theorem locale_complete:
  "distinct (keys all_entries) \<and> (\<forall>(k, v) \<in> set all_entries. prop_get zh_CN k = Some v)"
proof -
  have "prop_get zh_CN k = Some v" if "(k, v) \<in> set all_entries" for k v
  proof -
    have "distinct (map fst (rev all_entries))"
      using distinct_ids by (simp add: keys_def rev_map[symmetric])
    then have "map_of (rev all_entries) k = Some v"
      using that by (intro map_of_is_SomeI) simp_all
    then show ?thesis by (simp add: zh_CN_entries prop_literal_def prop_get_spread)
  qed
  then show ?thesis using distinct_ids by blast
qed

theorem locale_complete_witness:
  "prop_get zh_CN ''menu.gm'' = Some (''GM'' @ utf8 [0x6307, 0x4EE4])"
proof -
  have "(''menu.gm'', (''GM'' @ utf8 [0x6307, 0x4EE4])) \<in> set all_entries" by (simp add: all_entries_def locale_menu_def)
  then show ?thesis using locale_complete by blast
qed

section \<open>The ids in use\<close>

text \<open>The ids that the program asks for: those of the page's script and the footer, and the menu's.\<close>

definition used_ids :: "route list \<Rightarrow> string list" where
  "used_ids rs =
     [''app.copyright.produced'', ''app.pwa.offline'', ''app.pwa.serviceworker.updated'',
      ''app.pwa.serviceworker.updated.hint'', ''app.pwa.serviceworker.updated.ok'']
     @ concat (map (\<lambda>rt. case rt_name rt of None \<Rightarrow> [] | Some n \<Rightarrow> [''menu.'' @ n]) rs)"

lemma keys_zh_CN: "set (keys zh_CN) = set (keys all_entries)"
  by (simp add: zh_CN_entries prop_literal_def)

text \<open>
  Every id in use has a text: those of the messages, and the title of every named route.
\<close>

theorem used_ids_translated:
  "set (used_ids routes) \<subseteq> set (keys zh_CN)"
  by (simp add: keys_zh_CN used_ids_def routes_def all_entries_def locale_base_def locale_pwa_def
      locale_menu_def)

end
