(* ===== verification/XlsUi.thy ===== *)
theory XlsUi
  imports DebugConsole ExportTable Locales
begin

text \<open>
  The second front end, \<open>tools/xls2lua/ui/src/\<close>.  Its files are copies of the console's, but for
  the handlers that submit a command in the console of a process and the place of an entry's content
  there (\<open>debug_console.tsx\<close>), the address of the export page's connection, the routes, and one entry
  of the theme.  This theory has these and how they relate to the console's.
\<close>

section \<open>The submission of commands\<close>

definition ui_onSubmitMultiCommand :: "jsval \<Rightarrow> string \<Rightarrow> debug_console \<Rightarrow> console_result" where
  "ui_onSubmitMultiCommand nm now s =
     (let val = or_undef (fieldValue s);
          (s1, calls) = addNewContent now ''SEND'' val s;
          s2 = s1\<lparr>fieldValue := map_option (\<lambda>_. Str '''') (fieldValue s1)\<rparr>
      in (s2, calls @ [CommandSend nm val]))"

definition ui_onSubmitSingleCommand :: "jsval \<Rightarrow> string \<Rightarrow> jsval \<Rightarrow> debug_console \<Rightarrow> console_result" where
  "ui_onSubmitSingleCommand nm now val s =
     (let (s1, calls) = addNewContent now ''SEND'' val s;
          s2 = s1\<lparr>inputValue := Str ''''\<rparr>
      in (s2, calls @ [CommandSend nm val]))"

fun ui_console_step :: "jsval \<Rightarrow> console_event \<Rightarrow> debug_console \<Rightarrow> console_result" where
  "ui_console_step nm (SubmitMulti now) s = ui_onSubmitMultiCommand nm now s"
| "ui_console_step nm (SubmitSingle now t) s = ui_onSubmitSingleCommand nm now (Str t) s"
| "ui_console_step nm ev s = console_step nm ev s"

definition ui_render_console :: "jsval \<Rightarrow> debug_console \<Rightarrow> vnode" where
  "ui_render_console = render_console_with ''description''"

section \<open>Address, routes, theme\<close>

definition ui_export_url :: string where
  "ui_export_url = ''ws://localhost:9500/exportTable''"

definition ui_startExportSocket :: "export_page \<Rightarrow> export_page" where
  "ui_startExportSocket s = s\<lparr>table_net := connect ui_export_url (table_net s)\<rparr>"

definition ui_mountExport :: "net \<Rightarrow> log_line list \<Rightarrow> export_page" where
  "ui_mountExport n tmp = ui_startExportSocket
     \<lparr>table_net = n, table_client = None, configVisible = False, exportConfig = None,
      resultData = [], tempMsg = tmp\<rparr>"

definition ui_export0 :: export_page where
  "ui_export0 = ui_mountExport net0 []"

definition ui_oncloseExport :: "nat \<Rightarrow> export_page \<Rightarrow> export_page" where
  "ui_oncloseExport c s =
     ui_startExportSocket (s\<lparr>table_net := mark c CLOSED (table_net s), table_client := None\<rparr>)"

text \<open>The other handlers and the elements of the page are, line for line, those of \<open>ExportTable\<close>.\<close>

definition ui_tableClientEffect :: "export_page \<Rightarrow> export_page" where
  "ui_tableClientEffect = tableClientEffect"

definition ui_onopenExport :: "nat \<Rightarrow> export_page \<Rightarrow> export_page" where
  "ui_onopenExport c s =
     ui_tableClientEffect (s\<lparr>table_net := mark c OPEN (table_net s), table_client := Some c\<rparr>)"

definition ui_onExportMessage :: "string \<Rightarrow> string \<Rightarrow> export_page \<Rightarrow> export_page thrown" where
  "ui_onExportMessage = onExportMessage"

definition ui_onSubmitConfig :: "jsval \<Rightarrow> export_page \<Rightarrow> export_page" where
  "ui_onSubmitConfig = onSubmitConfig"

definition ui_doExportTable :: "export_page \<Rightarrow> export_page" where
  "ui_doExportTable = doExportTable"

definition ui_doFindSheet :: "string \<Rightarrow> export_page \<Rightarrow> export_page" where
  "ui_doFindSheet = doFindSheet"

fun ui_export_act :: "export_event \<Rightarrow> export_page \<Rightarrow> export_page" where
  "ui_export_act (ReceiveExport now t) s = or_keep s (ui_onExportMessage now t s)"
| "ui_export_act ToggleConfig s = s\<lparr>configVisible := \<not> configVisible s\<rparr>"
| "ui_export_act (ConfigVisible b) s = s\<lparr>configVisible := b\<rparr>"
| "ui_export_act (SubmitConfig values) s = ui_onSubmitConfig values s"
| "ui_export_act ClickExport s = ui_doExportTable s"
| "ui_export_act (SearchSheet v) s = ui_doFindSheet v s"

definition ui_render_export :: "export_page \<Rightarrow> vnode" where
  "ui_render_export = render_export"

lemmas ui_export_copies = ui_tableClientEffect_def ui_onExportMessage_def ui_onSubmitConfig_def
  ui_doExportTable_def ui_doFindSheet_def ui_render_export_def

lemma ui_export_act_eq: "ui_export_act a s = export_act a s"
  by (cases a) (simp_all add: ui_export_copies)

lemma ui_onopenExport_eq: "ui_onopenExport c s = onopenExport c s"
  by (simp add: ui_onopenExport_def onopenExport_def ui_export_copies)

interpretation ui_table_page: ws_reconnecting_page table_net table_client ui_onopenExport
    ui_oncloseExport ui_export_act ui_export0
proof unfold_locales
  fix a s
  show "\<exists>k. socks (table_net (ui_export_act a s)) = socks (table_net s) @ replicate k CONNECTING"
    using export_act_frame[of a s] by (intro exI[of _ 0]) (simp add: ui_export_act_eq)
  fix i
  show "\<exists>k. socks (table_net (ui_oncloseExport i s)) =
      (socks (table_net s))[i := CLOSED] @ replicate k CONNECTING"
    by (intro exI[of _ 1]) (simp add: ui_oncloseExport_def ui_startExportSocket_def)
qed (auto simp: ui_export_act_eq ui_onopenExport_eq table_page.opn_client table_page.opn_socks
      ui_oncloseExport_def ui_startExportSocket_def ui_export0_def ui_mountExport_def export_act_frame)

definition ui_routes :: "route list" where
  "ui_routes =
     [Route (Some ''/exportTable'') (Some ''export-table'') (Some ''smile'') (Some ''./exportTable'') None None,
      Route (Some ''/'') None None None (Some ''/exportTable'') None,
      Route None None None (Some ''./404'') None None]"

definition ui_config_theme :: "jsval props" where
  "ui_config_theme = [(''primary-color'', or_undef (prop_get defaultSettings ''primaryColor'')),
     (''primary-color-hover'', or_undef (prop_get defaultSettings ''primaryColor'')),
     (''root-entry-name'', Str ''default'')]"

definition ui_umi_config :: "(string list \<Rightarrow> string) \<Rightarrow> string \<Rightarrow> string option \<Rightarrow> jsval props" where
  "ui_umi_config join dirname REACT_APP_ENV = config_with ui_config_theme join dirname REACT_APP_ENV ui_routes"

section \<open>Properties\<close>

text \<open>Submitting nothing: the single input empty, or the form's field empty or without a value.\<close>

definition submits_nothing :: "console_event \<Rightarrow> debug_console \<Rightarrow> bool" where
  "submits_nothing ev s =
     (case ev of SubmitSingle now t \<Rightarrow> t = ''''
      | SubmitMulti now \<Rightarrow> or_undef (fieldValue s) \<in> {Undef, Str ''''}
      | _ \<Rightarrow> False)"

definition empty_value :: "console_event \<Rightarrow> debug_console \<Rightarrow> jsval" where
  "empty_value ev s = (case ev of SubmitMulti now \<Rightarrow> or_undef (fieldValue s) | _ \<Rightarrow> Str '''')"

text \<open>
  C40.  The two versions of the console of a process do the same on every event but one: when nothing
  is submitted, the console of the admin front end does nothing, while the other one sends a command
  that is empty, which the history does not show.
\<close>

theorem ui_console_equivalence:
  "(\<not> submits_nothing ev s \<longrightarrow> ui_console_step nm ev s = console_step nm ev s)
   \<and> (submits_nothing ev s \<longrightarrow>
        console_step nm ev s = (s, [])
        \<and> snd (ui_console_step nm ev s) = [CommandSend nm (empty_value ev s)]
        \<and> showData (fst (ui_console_step nm ev s)) = showData s)"
  by (cases ev)
    (auto simp: submits_nothing_def empty_value_def onSubmitMultiCommand_def onSubmitSingleCommand_def
      ui_onSubmitMultiCommand_def ui_onSubmitSingleCommand_def addNewContent_def Let_def)

theorem ui_console_equivalence_witness:
  "console_step (Str ''game.1.1'') (SubmitSingle ''t'' '''') debug_console0 = (debug_console0, [])
   \<and> snd (ui_console_step (Str ''game.1.1'') (SubmitSingle ''t'' '''') debug_console0)
       = [CommandSend (Str ''game.1.1'') (Str '''')]
   \<and> ui_console_step (Str ''game.1.1'') (SubmitSingle ''t'' ''1'') debug_console0
       = console_step (Str ''game.1.1'') (SubmitSingle ''t'' ''1'') debug_console0"
  using ui_console_equivalence[of "SubmitSingle ''t'' ''''" debug_console0 "Str ''game.1.1''"]
    ui_console_equivalence[of "SubmitSingle ''t'' ''1''" debug_console0 "Str ''game.1.1''"]
  by (simp add: submits_nothing_def empty_value_def del: ui_console_step.simps console_step.simps)

text \<open>The address of the exporter's process of one front end replaced by that of the other.\<close>

definition relabel_effect :: "effect \<Rightarrow> effect" where
  "relabel_effect e = (if e = Connect export_url then Connect ui_export_url else e)"

definition relabel_page :: "export_page \<Rightarrow> export_page" where
  "relabel_page s = s\<lparr>table_net := (table_net s)\<lparr>log := map relabel_effect (log (table_net s))\<rparr>\<rparr>"

lemma relabel_net: "socks (table_net (relabel_page s)) = socks (table_net s)"
    "ready_of (table_net (relabel_page s)) i = ready_of (table_net s) i"
    "frames (table_net (relabel_page s)) = frames (table_net s)"
    "log (table_net (relabel_page s)) = map relabel_effect (log (table_net s))"
proof -
  show "frames (table_net (relabel_page s)) = frames (table_net s)"
    by (auto simp: relabel_page_def frames_def relabel_effect_def intro!: arg_cong[of _ _ concat]
        split: effect.splits)
qed (simp_all add: relabel_page_def ready_of_def)

lemma relabel_fields [simp]: "table_client (relabel_page s) = table_client s"
    "configVisible (relabel_page s) = configVisible s" "exportConfig (relabel_page s) = exportConfig s"
    "resultData (relabel_page s) = resultData s" "tempMsg (relabel_page s) = tempMsg s"
  by (simp_all add: relabel_page_def)

lemma relabel_send: "tableSend t (relabel_page s) = relabel_page (tableSend t s)"
  by (auto simp: tableSend_def relabel_page_def send_def ready_of_def emit_def relabel_effect_def
      split: option.splits ready.splits)

lemma relabel_receive:
  "onExportMessage now t (relabel_page s) = map_sum id relabel_page (onExportMessage now t s)"
proof -
  have m: "map_sum id h (and_then m f) = and_then m (\<lambda>x. map_sum id h (f x))"
    for h and m :: "'a thrown" and f :: "'a \<Rightarrow> 'b thrown"
    by (cases m) auto
  show ?thesis
    by (auto simp: onExportMessage_def m relabel_page_def emit_def relabel_effect_def Let_def
        intro!: arg_cong[of _ _ "and_then _"] ext)
qed

lemma relabel_act: "export_act a (relabel_page s) = relabel_page (export_act a s)"
proof (cases a)
  case (ReceiveExport now t)
  then show ?thesis
    by (simp add: relabel_receive) (cases "onExportMessage now t s"; simp)
next
  case (SearchSheet v)
  then show ?thesis
    by (simp add: doFindSheet_def relabel_send)
      (simp add: relabel_page_def emit_def relabel_effect_def)
next
  case ClickExport
  have "relabel_page s\<lparr>tempMsg := [], resultData := []\<rparr> = relabel_page (s\<lparr>tempMsg := [], resultData := []\<rparr>)"
    by (simp add: relabel_page_def)
  with ClickExport show ?thesis by (simp add: doExportTable_def relabel_send)
qed (simp_all add: onSubmitConfig_def relabel_send, simp_all add: relabel_page_def)

interpretation ui_export: ws_morphism table_net onopenExport oncloseExport export_act export0
    table_net ui_onopenExport ui_oncloseExport ui_export_act ui_export0 relabel_page
  by unfold_locales
    (simp_all add: ui_onopenExport_eq ui_export_act_eq relabel_act relabel_net(2),
      auto simp: ui_export0_def ui_mountExport_def export0_def mountExport_def startExportSocket_def
        ui_startExportSocket_def ui_oncloseExport_def oncloseExport_def onopenExport_def
        tableClientEffect_def relabel_page_def connect_def mark_def relabel_effect_def send_def
        ready_of_def emit_def net0_def split: ready.splits)

text \<open>Every connection of the export page goes to the same address.\<close>

lemma export_connects:
  "ws_reach table_net onopenExport oncloseExport export_act export0 s
     \<Longrightarrow> Connect u \<in> set (log (table_net s)) \<Longrightarrow> u = export_url"
proof (induction rule: ws_reach.induct)
  case (step s t)
  have snd: "Connect u \<in> set (log (table_net (tableSend m p))) \<longleftrightarrow> Connect u \<in> set (log (table_net p))" for m p
    by (auto simp: tableSend_def send_def split: option.splits ready.splits)
  from step.hyps(2) show ?case
  proof (cases rule: ws_step.cases)
    case (acted a)
    have "Connect u \<in> set (log (table_net (export_act a s))) \<Longrightarrow> Connect u \<in> set (log (table_net s))"
    proof (cases a)
      case (ReceiveExport now m)
      then show "Connect u \<in> set (log (table_net (export_act a s))) \<Longrightarrow> Connect u \<in> set (log (table_net s))"
        by (cases "onExportMessage now m s")
          (auto simp: onExportMessage_def and_then_Inr Let_def split: if_splits)
    qed (auto simp: onSubmitConfig_def doExportTable_def doFindSheet_def snd split: if_splits)
    with acted step show ?thesis by blast
  qed (use step in \<open>auto simp: onopenExport_def tableClientEffect_def oncloseExport_def startExportSocket_def
      send_def split: option.splits ready.splits\<close>)
qed (simp add: export0_def mountExport_def startExportSocket_def)



text \<open>Where umi's router ends for a path: the first route with this path, redirections followed once.\<close>

definition route_at :: "route list \<Rightarrow> string \<Rightarrow> route option" where
  "route_at rs p = find (\<lambda>r. rt_path r = Some p) rs"

definition component_at :: "route list \<Rightarrow> string \<Rightarrow> string option" where
  "component_at rs p =
     (case route_at rs p of None \<Rightarrow> find (\<lambda>_. True) (concat (map (\<lambda>r. case (rt_path r, rt_component r) of
            (None, Some c) \<Rightarrow> [c] | _ \<Rightarrow> []) rs))
      | Some r \<Rightarrow>
          (case rt_redirect r of None \<Rightarrow> rt_component r
           | Some q \<Rightarrow> (case route_at rs q of None \<Rightarrow> None | Some r' \<Rightarrow> rt_component r')))"

text \<open>
  In both front ends the root address leads to the program's own first page and every path that
  their tests visit leads to a page; what is a page of only one of them is unknown to the other; and
  every named route of the second has a title, too.
\<close>

theorem routes_resolve:
  "component_at routes ''/'' = Some ''./debug'' \<and> component_at ui_routes ''/'' = Some ''./exportTable''
   \<and> map (component_at routes) (formatter routes '''') = [Some ''./debug'', Some ''./gm'', Some ''./debug'']
   \<and> map (component_at ui_routes) (formatter ui_routes '''') = [Some ''./exportTable'', Some ''./exportTable'']
   \<and> component_at routes ''/exportTable'' = Some ''./404'' \<and> component_at ui_routes ''/gm'' = Some ''./404''
   \<and> set (used_ids ui_routes) \<subseteq> set (keys zh_CN)"
proof -
  have f: "formatter routes '''' = [''/debug'', ''/gm'', ''/'']"
    "formatter ui_routes '''' = [''/exportTable'', ''/'']"
    by (simp_all add: formatter.simps routes_def ui_routes_def given_path_def starts_with_slash_def
        uniq_def Let_def)
  have "set (used_ids ui_routes) \<subseteq> set (keys zh_CN)"
    by (simp add: keys_zh_CN used_ids_def ui_routes_def all_entries_def locale_base_def locale_pwa_def
        locale_menu_def)
  moreover have "component_at routes ''/debug'' = Some ''./debug''" "component_at routes ''/gm'' = Some ''./gm''"
    "component_at routes ''/'' = Some ''./debug''" "component_at routes ''/exportTable'' = Some ''./404''"
    "component_at ui_routes ''/exportTable'' = Some ''./exportTable''"
    "component_at ui_routes ''/'' = Some ''./exportTable''" "component_at ui_routes ''/gm'' = Some ''./404''"
    by (simp_all add: component_at_def route_at_def routes_def ui_routes_def)
  ultimately show ?thesis by (simp add: f)
qed

end
