(* ===== verification/Typings.thy ===== *)
theory Typings
  imports Notice GmCommand "HOL-Library.Multiset"
begin

text \<open>
  The TypeScript types that the front end declares, \<open>src/services/ant-design-pro/typings.d.ts\<close>,
  \<open>src/services/swagger/typings.d.ts\<close>, \<open>src/typings.d.ts\<close> and of the data of \<open>src/pages/gm.tsx\<close>, with the values that have them.
  The types are erased before the program runs: a server's answer is of its declared type only if the
  server keeps to it.  The theorems say what the declarations are worth to the program: views of typed
  data are valid, and a typed value is still of its type when it has been sent.
\<close>

section \<open>Types\<close>

text \<open>
  A member of an object type has a name, whether it is optional (\<open>?\<close>), and its type.  The compiler
  runs with \<open>strict\<close>: \<open>null\<close> and \<open>undefined\<close> belong to no type, save that an optional member may be
  \<open>undefined\<close>.  Members that a type does not name are allowed.
\<close>

datatype ty =
    TAny
  | TString
  | TNumber
  | TLit string
  | TBool
  | TFalse
  | TUndefined
  | TUnion "ty list"
  | TArray ty
  | TRecord "(string \<times> bool \<times> ty) list"

abbreviation opt :: "string \<Rightarrow> ty \<Rightarrow> string \<times> bool \<times> ty" where
  "opt k t \<equiv> (k, True, t)"

abbreviation req :: "string \<Rightarrow> ty \<Rightarrow> string \<times> bool \<times> ty" where
  "req k t \<equiv> (k, False, t)"

fun has_type :: "ty \<Rightarrow> jsval \<Rightarrow> bool"
  and has_some :: "ty list \<Rightarrow> jsval \<Rightarrow> bool"
  and has_members :: "(string \<times> bool \<times> ty) list \<Rightarrow> jsval props \<Rightarrow> bool" where
  "has_type TAny v = True"
| "has_type TString v = (case v of Str _ \<Rightarrow> True | _ \<Rightarrow> False)"
| "has_type TNumber v = (case v of Num _ \<Rightarrow> True | NaN \<Rightarrow> True | _ \<Rightarrow> False)"
| "has_type (TLit s) v = (v = Str s)"
| "has_type TBool v = (case v of Bool _ \<Rightarrow> True | _ \<Rightarrow> False)"
| "has_type TFalse v = (v = Bool False)"
| "has_type TUndefined v = (v = Undef)"
| "has_type (TUnion ts) v = has_some ts v"
| "has_type (TArray t) v = (case v of Arr xs \<Rightarrow> (\<forall>x \<in> set xs. has_type t x) | _ \<Rightarrow> False)"
| "has_type (TRecord ms) v = (case v of Obj ps \<Rightarrow> has_members ms ps | _ \<Rightarrow> False)"
| "has_some [] v = False"
| "has_some (t # ts) v = (has_type t v \<or> has_some ts v)"
| "has_members [] ps = True"
| "has_members ((k, optional, t) # ms) ps =
     ((let v = or_undef (prop_get ps k) in (optional \<and> v = Undef) \<or> has_type t v) \<and> has_members ms ps)"

section \<open>\<open>services/ant-design-pro/typings.d.ts\<close>\<close>

definition CurrentUser :: ty where
  "CurrentUser = TRecord
     [opt ''name'' TString, opt ''avatar'' TString, opt ''userid'' TString, opt ''email'' TString,
      opt ''signature'' TString, opt ''title'' TString, opt ''group'' TString,
      opt ''tags'' (TArray (TRecord [opt ''key'' TString, opt ''label'' TString])),
      opt ''notifyCount'' TNumber, opt ''unreadCount'' TNumber, opt ''country'' TString,
      opt ''access'' TString,
      opt ''geographic'' (TRecord
        [opt ''province'' (TRecord [opt ''label'' TString, opt ''key'' TString]),
         opt ''city'' (TRecord [opt ''label'' TString, opt ''key'' TString])]),
      opt ''address'' TString, opt ''phone'' TString]"

definition LoginResult :: ty where
  "LoginResult = TRecord
     [opt ''status'' TString, opt ''type'' TString, opt ''currentAuthority'' TString]"

definition PageParams :: ty where
  "PageParams = TRecord [opt ''current'' TNumber, opt ''pageSize'' TNumber]"

definition RuleListItem :: ty where
  "RuleListItem = TRecord
     [opt ''key'' TNumber, opt ''disabled'' TBool, opt ''href'' TString, opt ''avatar'' TString,
      opt ''name'' TString, opt ''owner'' TString, opt ''desc'' TString, opt ''callNo'' TNumber,
      opt ''status'' TNumber, opt ''updatedAt'' TString, opt ''createdAt'' TString,
      opt ''progress'' TNumber]"

definition RuleList :: ty where
  "RuleList = TRecord
     [opt ''data'' (TArray RuleListItem), opt ''total'' TNumber, opt ''success'' TBool]"

definition FakeCaptcha :: ty where
  "FakeCaptcha = TRecord [opt ''code'' TNumber, opt ''status'' TString]"

definition LoginParams :: ty where
  "LoginParams = TRecord
     [opt ''username'' TString, opt ''password'' TString, opt ''autoLogin'' TBool, opt ''type'' TString]"

definition ErrorResponse :: ty where
  "ErrorResponse = TRecord
     [req ''errorCode'' TString, opt ''errorMessage'' TString, opt ''success'' TBool]"

definition NoticeIconItemType :: ty where
  "NoticeIconItemType = TUnion [TLit ''notification'', TLit ''message'', TLit ''event'']"

definition NoticeIconItem :: ty where
  "NoticeIconItem = TRecord
     [opt ''id'' TString, opt ''extra'' TString, opt ''key'' TString, opt ''read'' TBool,
      opt ''avatar'' TString, opt ''title'' TString, opt ''status'' TString, opt ''datetime'' TString,
      opt ''description'' TString, opt ''type'' NoticeIconItemType]"

definition NoticeIconList :: ty where
  "NoticeIconList = TRecord
     [opt ''data'' (TArray NoticeIconItem), opt ''total'' TNumber, opt ''success'' TBool]"

section \<open>\<open>services/swagger/typings.d.ts\<close>\<close>

definition Order :: ty where
  "Order = TRecord
     [opt ''id'' TNumber, opt ''petId'' TNumber, opt ''quantity'' TNumber, opt ''shipDate'' TString,
      opt ''status'' (TUnion [TLit ''placed'', TLit ''approved'', TLit ''delivered'']),
      opt ''complete'' TBool]"

definition Category :: ty where
  "Category = TRecord [opt ''id'' TNumber, opt ''name'' TString]"

definition User :: ty where
  "User = TRecord
     [opt ''id'' TNumber, opt ''username'' TString, opt ''firstName'' TString, opt ''lastName'' TString,
      opt ''email'' TString, opt ''password'' TString, opt ''phone'' TString, opt ''userStatus'' TNumber]"

definition Tag :: ty where
  "Tag = TRecord [opt ''id'' TNumber, opt ''name'' TString]"

definition Pet :: ty where
  "Pet = TRecord
     [opt ''id'' TNumber, opt ''category'' Category, req ''name'' TString,
      req ''photoUrls'' (TArray TString), opt ''tags'' (TArray Tag),
      opt ''status'' (TUnion [TLit ''available'', TLit ''pending'', TLit ''sold''])]"

definition ApiResponse :: ty where
  "ApiResponse = TRecord [opt ''code'' TNumber, opt ''type'' TString, opt ''message'' TString]"

section \<open>\<open>typings.d.ts\<close>\<close>

text \<open>
  The modules without types of their own; a name with \<open>*\<close> stands for all of its ending.  The two
  declared variables are replaced when the bundle is built.
\<close>

definition declared_modules :: "string list" where
  "declared_modules =
     [''slash2'', ''*.css'', ''*.less'', ''*.scss'', ''*.sass'', ''*.svg'', ''*.png'', ''*.jpg'',
      ''*.jpeg'', ''*.gif'', ''*.bmp'', ''*.tiff'', ''omit.js'', ''numeral'', ''@antv/data-set'',
      ''mockjs'', ''react-fittext'', ''bizcharts-plugin-slider'']"

definition ANT_DESIGN_PRO_ONLY_DO_NOT_USE_IN_YOUR_PRODUCTION :: ty where
  "ANT_DESIGN_PRO_ONLY_DO_NOT_USE_IN_YOUR_PRODUCTION = TUnion [TLit ''site'', TUndefined]"

definition REACT_APP_ENV :: ty where
  "REACT_APP_ENV = TUnion [TLit ''test'', TLit ''dev'', TLit ''pre'', TFalse]"

section \<open>\<open>pages/gm.tsx\<close>\<close>

definition selectOption :: ty where
  "selectOption = TRecord [req ''label'' TAny, req ''value'' TAny]"

definition gmCommandArg :: ty where
  "gmCommandArg = TRecord
     [req ''type'' TString, req ''name'' TString, req ''index'' TString, opt ''min'' TNumber,
      opt ''max'' TNumber]"

lemmas type_defs = CurrentUser_def LoginResult_def PageParams_def RuleListItem_def RuleList_def
  FakeCaptcha_def LoginParams_def ErrorResponse_def NoticeIconItemType_def NoticeIconItem_def
  NoticeIconList_def Order_def Category_def User_def Tag_def Pet_def ApiResponse_def

lemma has_type_TString: "has_type TString v \<longleftrightarrow> (\<exists>s. v = Str s)"
  by (cases v) auto

section \<open>Arguments of GM commands\<close>

text \<open>
  The form of a command gives a typed argument one field, labelled with its name and submitted under
  its index, if its \<open>type\<close> is one of the three that the form knows; the declared bounds \<open>min\<close> and \<open>max\<close>
  are not among what the field is given, so any number can be submitted.
\<close>

lemma gm_argument_field:
  assumes "has_type gmCommandArg (Obj a)"
  shows "\<exists>fs nm ix. render_field (Obj a) = Inr fs \<and> prop_get a ''name'' = Some (Str nm)
    \<and> prop_get a ''index'' = Some (Str ix)
    \<and> (if has_field (Obj a)
       then \<exists>tag width. fs = [Elem tag (width @ [(''key'', PS ix), (''name'', PS ix), (''label'', PS nm)]) []]
       else fs = [])"
proof -
  have "has_type TString (or_undef (prop_get a k))" if "k \<in> {''type'', ''name'', ''index''}" for k
    using assms that by (auto simp: gmCommandArg_def Let_def)
  then have "\<exists>s. prop_get a k = Some (Str s)" if "k \<in> {''type'', ''name'', ''index''}" for k
    using that by (cases "prop_get a k") (fastforce simp: has_type_TString simp del: has_type.simps)+
  then obtain ty nm ix where "prop_get a ''type'' = Some (Str ty)" "prop_get a ''name'' = Some (Str nm)"
    "prop_get a ''index'' = Some (Str ix)" by fastforce
  then show ?thesis
    by (auto simp: render_field_def field_attrs_def has_field_def)
qed

section \<open>A typed value on its way\<close>

text \<open>Types of values that JSON can carry, and values without the number that it cannot.\<close>

fun sendable :: "ty \<Rightarrow> bool" and sendable_members :: "(string \<times> bool \<times> ty) list \<Rightarrow> bool" where
  "sendable TUndefined = False"
| "sendable TAny = False"
| "sendable (TUnion ts) = (\<forall>t \<in> set ts. sendable t)"
| "sendable (TArray t) = sendable t"
| "sendable (TRecord ms) = sendable_members ms"
| "sendable _ = True"
| "sendable_members [] = True"
| "sendable_members ((k, optional, t) # ms) = (sendable t \<and> sendable_members ms)"

fun has_nan :: "jsval \<Rightarrow> bool" where
  "has_nan NaN = True"
| "has_nan (Arr xs) = (\<exists>x \<in> set xs. has_nan x)"
| "has_nan (Obj ps) = (\<exists>p \<in> set ps. has_nan (snd p))"
| "has_nan _ = False"

lemma clean_member:
  "distinct (keys ps) \<Longrightarrow> or_undef (prop_get (clean_members ps) k) =
     (let v = or_undef (prop_get ps k) in if v = Undef then Undef else clean v)"
proof (induction ps)
  case (Cons p ps)
  obtain k' v where p: "p = (k', v)" by (cases p)
  have "k \<notin> set (keys ps) \<Longrightarrow> prop_get (clean_members ps) k = None"
    using keys_clean_members[of ps] by (auto simp: prop_get_None)
  with Cons p show ?case by (auto simp: prop_get_Cons Let_def)
qed simp

lemma has_some_iff: "has_some ts v \<longleftrightarrow> (\<exists>t \<in> set ts. has_type t v)"
  by (induction ts) auto

lemma no_type_Undef: "sendable t \<Longrightarrow> \<not> has_type t Undef"
  by (induction t) (auto simp: has_some_iff)

lemma typed_clean:
  "has_type t v \<Longrightarrow> sendable t \<Longrightarrow> js_wf v \<Longrightarrow> \<not> has_nan v \<Longrightarrow> has_type t (clean v)"
  "has_some ts v \<Longrightarrow> \<forall>t \<in> set ts. sendable t \<Longrightarrow> js_wf v \<Longrightarrow> \<not> has_nan v \<Longrightarrow> has_some ts (clean v)"
  "has_members ms ps \<Longrightarrow> sendable_members ms \<Longrightarrow> js_wf (Obj ps) \<Longrightarrow> \<not> has_nan (Obj ps) \<Longrightarrow>
     has_members ms (clean_members ps)"
proof (induction t v and ts v and ms ps rule: has_type_has_some_has_members.induct)
  case (14 k optional t ms ps)
  let ?v = "or_undef (prop_get ps k)"
  have ord: "distinct (keys ps)" using 14(5) by (simp add: prop_ordered_def)
  have v: "js_wf ?v" "\<not> has_nan ?v"
    using 14(5,6) by (cases "prop_get ps k"; fastforce simp: prop_get_def dest: map_of_SomeD)+
  show ?case
  proof (cases "?v = Undef")
    case True
    with 14(3,4) no_type_Undef[of t] have optional by auto
    with 14 True ord show ?thesis by (simp add: clean_member)
  next
    case False
    then show ?thesis using 14 v ord by (simp add: clean_member Let_def)
  qed
qed (auto split: jsval.splits)

text \<open>The services that send a JSON body, with the type that each declares for it.\<close>

definition typed_bodies :: "jsval props \<Rightarrow> (ty \<times> (jsval \<Rightarrow> config option \<Rightarrow> api_request)) list" where
  "typed_bodies params =
     [(LoginParams, login), (Pet, updatePet), (Pet, addPet), (Order, placeOrder), (User, createUser),
      (TArray User, createUsersWithArrayInput), (TArray User, createUsersWithListInput),
      (User, updateUser params)]"

lemma typed_bodies_member:
  assumes "(t, f) \<in> set (typed_bodies params)"
  shows "sendable t \<and> prop_get (ar_config (f v None)) ''data'' = Some (V v)"
  using assms
  by (auto simp: typed_bodies_def type_defs service_defs request_def prop_get_Cons)



section \<open>Views of typed data\<close>

text \<open>The notices of \<open>NoticeIconView\<close> as a state: the answer of the server comes, a notice is read, a tab is cleared.\<close>

datatype notice_event =
    Answered "jsval props list option"
  | ReadOne jsval
  | ClearTab string string          \<comment> \<open>title and key\<close>

fun notice_act :: "notice_event \<Rightarrow> jsval props list \<Rightarrow> jsval props list" where
  "notice_act (Answered d) notices = noticesEffect d"
| "notice_act (ReadOne nid) notices = changeReadState nid notices"
| "notice_act (ClearTab title0 key) notices = fst (clearReadState title0 key notices)"

definition notices_after :: "notice_event list \<Rightarrow> jsval props list" where
  "notices_after evs = fold notice_act evs []"

definition typed_notice :: "jsval props \<Rightarrow> bool" where
  "typed_notice n \<longleftrightarrow> prop_ordered n \<and> has_type NoticeIconItem (Obj n)"

fun typed_event :: "notice_event \<Rightarrow> bool" where
  "typed_event (Answered d) = (\<forall>n \<in> set (noticesEffect d). typed_notice n)"
| "typed_event _ = True"

lemma typed_member:
  "has_members ms ps \<Longrightarrow> (k, optional, t) \<in> set ms \<Longrightarrow>
     or_undef (prop_get ps k) = Undef \<or> has_type t (or_undef (prop_get ps k))"
  by (induction ms) (auto simp: Let_def)

lemma typed_record_member:
  "has_type (TRecord ms) (Obj ps) \<Longrightarrow> (k, optional, t) \<in> set ms \<Longrightarrow>
     or_undef (prop_get ps k) = Undef \<or> has_type t (or_undef (prop_get ps k))"
  using typed_member by simp

lemma typed_notice_string:
  assumes "typed_notice n"
    and "k \<in> {''id'', ''extra'', ''key'', ''avatar'', ''title'', ''status'', ''datetime'', ''description''}"
  shows "or_undef (prop_get n k) = Undef \<or> (\<exists>s. or_undef (prop_get n k) = Str s)"
proof -
  have "or_undef (prop_get n k) = Undef \<or> has_type TString (or_undef (prop_get n k))"
    by (rule typed_record_member[OF assms(1)[unfolded typed_notice_def NoticeIconItem_def, THEN conjunct2],
          of k True]) (use assms(2) in auto)
  then show ?thesis by (simp only: has_type_TString)
qed

lemma typed_notice_type:
  assumes "typed_notice n"
  shows "or_undef (prop_get n ''type'') \<in> {Undef, Str ''notification'', Str ''message'', Str ''event''}"
proof -
  have "or_undef (prop_get n ''type'') = Undef \<or> has_type NoticeIconItemType (or_undef (prop_get n ''type''))"
    by (rule typed_record_member[OF assms(1)[unfolded typed_notice_def NoticeIconItem_def, THEN conjunct2],
          of _ True]) simp
  then show ?thesis by (auto simp: NoticeIconItemType_def)
qed

lemma typed_notice_read:
  assumes "typed_notice n"
  shows "typed_notice (prop_spread [] n)" "typed_notice (prop_set ''read'' (Bool True) (prop_spread [] n))"
proof -
  have "distinct (keys n)" using assms by (simp add: typed_notice_def prop_ordered_def)
  then have g: "prop_get (prop_spread [] n) k = prop_get n k" for k by (rule get_spread_Nil)
  have "prop_ordered (prop_spread [] n)" by (rule prop_ordered_spread) simp
  then show "typed_notice (prop_spread [] n)" "typed_notice (prop_set ''read'' (Bool True) (prop_spread [] n))"
    using assms by (simp_all add: typed_notice_def NoticeIconItem_def g Let_def)
qed

lemma notice_act_typed:
  assumes "typed_event ev" and "\<forall>n \<in> set notices. typed_notice n"
  shows "\<forall>n \<in> set (notice_act ev notices). typed_notice n"
  using assms typed_notice_read
  by (cases ev) (auto simp: changeReadState_def clearReadState_def Let_def)

lemma notices_after_typed:
  assumes "\<forall>ev \<in> set evs. typed_event ev"
  shows "\<forall>n \<in> set (notices_after evs). typed_notice n"
proof -
  have "\<forall>n \<in> set (fold notice_act evs notices). typed_notice n"
    if "\<forall>n \<in> set notices. typed_notice n" for notices
    using assms that
  proof (induction evs arbitrary: notices)
    case (Cons ev evs)
    have "\<forall>n \<in> set (notice_act ev notices). typed_notice n"
      by (rule notice_act_typed) (use Cons.prems in simp_all)
    then show ?case using Cons.IH Cons.prems(1) by simp
  qed simp
  from this[of "[]"] show ?thesis by (simp add: notices_after_def)
qed

lemma view_child_NV: "prop_get item k = Some (NV v) \<Longrightarrow> view_child item k = child v"
  by (simp add: view_child_def)

lemma child_string: "v = Undef \<or> (\<exists>s. v = Str s) \<Longrightarrow> c \<in> set (child v) \<Longrightarrow> valid_tree c"
  by auto

definition view_ok :: "view_notice \<Rightarrow> bool" where
  "view_ok item \<longleftrightarrow>
     (\<forall>k \<in> {''title'', ''extra'', ''description'', ''datetime''}. \<forall>c \<in> set (view_child item k). valid_tree c)
     \<and> (\<forall>c \<in> set (child (view_get item ''avatar'')). valid_tree c)"

text \<open>What the view shows of a notice's members.\<close>

lemma new_notice_child:
  assumes "distinct (keys n)" and "k \<noteq> ''key''"
  shows "view_child (new_notice fromNow n) k =
    (let v = or_undef (prop_get n k) in
     if k = ''extra'' \<and> truthy v \<and> truthy (or_undef (prop_get n ''status'')) then
       [Elem ''Tag'' [(''color'', PV (or_undef (prop_get notice_colors (js_string (or_undef (prop_get n ''status'')))))),
          (''style'', PV (Obj [(''marginRight'', Num 0)]))] (child v)]
     else if k = ''datetime'' \<and> truthy v then child (fromNow v) else child v)"
proof -
  have g: "prop_get (map (\<lambda>(k, v). (k, NV v)) (prop_spread [] n)) k = map_option NV (prop_get n k)" for k
    by (simp add: get_map_NV get_spread_Nil[OF assms(1)])
  consider "k = ''extra''" | "k = ''datetime''" | "k \<noteq> ''extra''" "k \<noteq> ''datetime''" by blast
  then show ?thesis
    using assms(2)
    by cases (cases "prop_get n k"; simp add: new_notice_def view_child_def g Let_def)+
qed

lemma new_notice_ok:
  assumes n: "typed_notice n" and fromNow: "\<And>v. \<exists>t. fromNow v = Str t"
  shows "view_ok (new_notice fromNow n)"
proof -
  have d: "distinct (keys n)" using n by (simp add: typed_notice_def prop_ordered_def)
  have str: "\<forall>c \<in> set (child (or_undef (prop_get n k))). valid_tree c"
    if "k \<in> {''title'', ''extra'', ''description'', ''datetime'', ''avatar''}" for k
  proof -
    have "or_undef (prop_get n k) = Undef \<or> (\<exists>s. or_undef (prop_get n k) = Str s)"
      by (rule typed_notice_string[OF n]) (use that in auto)
    then show ?thesis by (blast intro: child_string)
  qed
  have now: "\<forall>c \<in> set (child (fromNow v)). valid_tree c" for v
    using fromNow[of v] by auto
  show ?thesis
    unfolding view_ok_def
  proof (intro conjI ballI)
    fix k c
    assume k: "k \<in> {''title'', ''extra'', ''description'', ''datetime''}"
      and c: "c \<in> set (view_child (new_notice fromNow n) k)"
    then have "k \<noteq> ''key''" by auto
    let ?v = "or_undef (prop_get n k)"
    obtain color where "view_child (new_notice fromNow n) k \<in>
        {child ?v, child (fromNow ?v),
         [Elem ''Tag'' [(''color'', PV color), (''style'', PV (Obj [(''marginRight'', Num 0)]))] (child ?v)]}"
      using new_notice_child[OF d \<open>k \<noteq> ''key''\<close>, of fromNow] unfolding Let_def by (metis insertI1 insertI2)
    then show "valid_tree c" using c str[of k] k now[of ?v] by auto
  next
    fix c
    assume "c \<in> set (child (view_get (new_notice fromNow n) ''avatar''))"
    then show "valid_tree c" using str[of "''avatar''"] by (simp add: view_get_new_notice[OF d])
  qed
qed

lemma render_notice_valid: "view_ok item \<Longrightarrow> valid_tree (render_notice styles classNames i item)"
  by (auto simp: render_notice_def view_ok_def Let_def split: jsval.splits)

lemma enumerate_member: "(i, x) \<in> set (enumerate n xs) \<Longrightarrow> x \<in> set xs"
  by (auto simp: in_set_enumerate_eq)

lemma NoticeList_valid:
  assumes "\<And>item. item \<in> set (case nt_list c of None \<Rightarrow> [] | Some ns \<Rightarrow> ns) \<Longrightarrow> view_ok item"
  shows "valid_tree (NoticeList styles classNames c)"
proof -
  have "valid_tree (render_notice styles classNames i item)"
    if "(i, item) \<in> set (enumerate 0 (case nt_list c of None \<Rightarrow> [] | Some ns \<Rightarrow> ns))" for i item
    using enumerate_member[OF that] by (intro render_notice_valid assms)
  then show ?thesis
    by (auto simp: NoticeList_def Let_def opt_text_def shown_if_def split: option.splits)
qed

lemma NoticeIcon_valid:
  "(\<And>b. getNotificationBox styles classNames props = Some b \<Longrightarrow> valid_tree b) \<Longrightarrow> ni_bell props = None \<Longrightarrow>
     valid_tree (NoticeIcon styles classNames props visible)"
  by (auto simp: NoticeIcon_def HeaderDropdown_def Let_def split: option.split)

lemma NoticeIconView_valid:
  assumes "\<And>k item. item \<in> set (case prop_get noticeData k of None \<Rightarrow> [] | Some ns \<Rightarrow> ns) \<Longrightarrow> view_ok item"
  shows "valid_tree (NoticeIconView styles classNames s visible noticeData)"
proof -
  have "valid_tree (NoticeList styles classNames (pane_list a b (notice_tab_of noticeData k t e)))" for a b k t e
    by (rule NoticeList_valid) (use assms in \<open>simp add: pane_list_def notice_tab_of_def\<close>)
  then show ?thesis
    unfolding NoticeIconView_def Let_def
    by (intro NoticeIcon_valid)
      (auto simp: getNotificationBox_def notice_icon_def notice_tabs_def bound_def)
qed

lemma grouped_notices:
  assumes "groups_by groupBy"
  shows "(case prop_get (getNoticeData fromNow groupBy notices) k of None \<Rightarrow> [] | Some ns \<Rightarrow> ns)
    = filter (\<lambda>n. js_string (view_get n ''type'') = k) (map (new_notice fromNow) notices)"
  using assms by (cases "notices = []") (simp_all add: getNoticeData_def groups_by_def Let_def)

lemma typed_user_member:
  assumes "v = Undef \<or> has_type CurrentUser v" and "k \<in> {''name'', ''avatar'', ''access''}"
  shows "opt_get v k = Undef \<or> (\<exists>s. opt_get v k = Str s)"
  using assms(1)
proof
  assume t: "has_type CurrentUser v"
  then obtain ps where v: "v = Obj ps" by (auto simp: CurrentUser_def split: jsval.splits)
  have "or_undef (prop_get ps k) = Undef \<or> has_type TString (or_undef (prop_get ps k))"
    by (rule typed_record_member[OF t[unfolded v CurrentUser_def], of k True]) (use assms(2) in auto)
  then show ?thesis by (simp only: v opt_get_def has_type_TString js_get.simps sum.case)
qed (simp add: opt_get_def)

text \<open>
  Reading a notice marks those with its id, hence one with an id of its own alone; but reading one
  without an id, which the declaration allows, marks all that have none.
\<close>

lemma read_marks:
  assumes "\<forall>n \<in> set notices. distinct (keys n)" and "is_primitive nid" and "nid \<noteq> NaN"
  shows "map (\<lambda>n. prop_get n ''read'') (changeReadState nid notices) =
    map (\<lambda>n. if or_undef (prop_get n ''id'') = nid then Some (Bool True) else prop_get n ''read'') notices"
  using assms by (auto simp: changeReadState_def Let_def get_spread_Nil strict_eq_def)

text \<open>
  C22.  If the server keeps to the declared types of its answers, the notices keep their type whatever is
  read and cleared, and neither the notices' view nor the header ever holds a child that React refuses.
\<close>

theorem typed_views:
  assumes "groups_by groupBy" and "\<forall>v. \<exists>t. fromNow v = Str t"
    and "\<forall>ev \<in> set evs. typed_event ev"
    and "is_currentUser s = Undef \<or> has_type CurrentUser (is_currentUser s)"
  shows "(\<forall>n \<in> set (notices_after evs). typed_notice n)
    \<and> valid_tree (NoticeIconView styles classNames (Some s) visible
        (getNoticeData fromNow groupBy (notices_after evs)))
    \<and> (\<forall>n \<in> set (GlobalHeaderRight styles classNames (Some s)). valid_tree n)"
proof (intro conjI)
  show typed: "\<forall>n \<in> set (notices_after evs). typed_notice n"
    using assms(3) by (rule notices_after_typed)
  show "valid_tree (NoticeIconView styles classNames (Some s) visible
        (getNoticeData fromNow groupBy (notices_after evs)))"
  proof (rule NoticeIconView_valid)
    fix k item
    assume "item \<in> set (case prop_get (getNoticeData fromNow groupBy (notices_after evs)) k of
        None \<Rightarrow> [] | Some ns \<Rightarrow> ns)"
    then obtain n where "n \<in> set (notices_after evs)" "item = new_notice fromNow n"
      unfolding grouped_notices[OF assms(1)] by auto
    then show "view_ok item" using new_notice_ok[of n fromNow] typed assms(2) by blast
  qed
  have "valid_tree c" if "c \<in> set (child (opt_get (is_currentUser s) ''name''))" for c
    using typed_user_member[OF assms(4), of "''name''"] that by (auto intro: child_string)
  then show "\<forall>n \<in> set (GlobalHeaderRight styles classNames (Some s)). valid_tree n"
    by (auto simp: GlobalHeaderRight_def AvatarDropdown_def avatar_loading_def HeaderDropdown_def
        avatar_menu_def shown_if_def Let_def)
qed

theorem typed_views_witness:
  "typed_event (Answered (Some [[(''id'', Str ''1''), (''extra'', Str ''today''), (''type'', Str ''event''),
        (''status'', Str ''todo'')]]))
   \<and> valid_tree (NoticeIconView (\<lambda>c. c) (\<lambda>cs. ''cls'')
       (Some \<lparr>is_settings = Obj [], is_currentUser = Obj [(''name'', Str ''Admin'')]\<rparr>) True
       (getNoticeData (\<lambda>v. Str ''today'') simple_group_by
         (notices_after [Answered (Some [[(''id'', Str ''1''), (''extra'', Str ''today''),
           (''type'', Str ''event''), (''status'', Str ''todo'')]]), ReadOne (Str ''1'')])))"
proof -
  let ?n = "[(''id'', Str ''1''), (''extra'', Str ''today''), (''type'', Str ''event''), (''status'', Str ''todo'')]"
  let ?s = "\<lparr>is_settings = Obj [], is_currentUser = Obj [(''name'', Str ''Admin'')]\<rparr>"
  have n: "typed_event (Answered (Some [?n]))"
    by (simp add: noticesEffect_def typed_notice_def NoticeIconItem_def NoticeIconItemType_def prop_get_Cons
        prop_ordered_names array_index_name is_digit_def)
  have u: "has_type CurrentUser (is_currentUser ?s)"
    by (simp add: CurrentUser_def prop_get_Cons)
  show ?thesis
    using typed_views[OF simple_groups, of "\<lambda>v. Str ''today''" "[Answered (Some [?n]), ReadOne (Str ''1'')]" ?s
        "\<lambda>c. c" "\<lambda>cs. ''cls''" True] n u
    by simp
qed

lemma partition_types:
  assumes "\<forall>n \<in> set ns. typed_notice n"
  shows "mset (filter (\<lambda>n. js_string (view_get n ''type'') = ''notification'') (map (new_notice fromNow) ns))
     + mset (filter (\<lambda>n. js_string (view_get n ''type'') = ''message'') (map (new_notice fromNow) ns))
     + mset (filter (\<lambda>n. js_string (view_get n ''type'') = ''event'') (map (new_notice fromNow) ns))
   = mset (map (new_notice fromNow) (filter (\<lambda>n. or_undef (prop_get n ''type'') \<noteq> Undef) ns))"
  using assms
proof (induction ns)
  case (Cons n ns)
  have "typed_notice n" using Cons.prems by simp
  then have "distinct (keys n)" by (simp add: typed_notice_def prop_ordered_def)
  then have t: "view_get (new_notice fromNow n) ''type'' = or_undef (prop_get n ''type'')"
    by (simp add: view_get_new_notice)
  show ?case
    using typed_notice_type[OF \<open>typed_notice n\<close>] Cons.IH Cons.prems by (auto simp: t)
qed simp

text \<open>
  The three tabs show each notice of the declared type once and in one tab only, with its time
  and key rewritten, if the notice has a type; a notice without one, which the declaration allows, is in
  no tab.
\<close>

theorem tabs_partition:
  assumes "groups_by groupBy" and "\<forall>n \<in> set notices. typed_notice n"
  shows "mset (concat (map (\<lambda>tab. case nt_list tab of None \<Rightarrow> [] | Some ns \<Rightarrow> ns)
      (notice_tabs (getNoticeData fromNow groupBy notices))))
    = mset (map (new_notice fromNow) (filter (\<lambda>n. or_undef (prop_get n ''type'') \<noteq> Undef) notices))"
  using partition_types[OF assms(2), of fromNow]
  by (simp add: notice_tabs_def notice_tab_of_def grouped_notices[OF assms(1)] add.assoc)

theorem tabs_partition_witness:
  "mset (concat (map (\<lambda>tab. case nt_list tab of None \<Rightarrow> [] | Some ns \<Rightarrow> ns)
      (notice_tabs (getNoticeData (\<lambda>v. v) simple_group_by
        [[(''id'', Str ''1''), (''type'', Str ''event'')], [(''id'', Str ''2'')]]))))
    = {# new_notice (\<lambda>v. v) [(''id'', Str ''1''), (''type'', Str ''event'')] #}"
  using tabs_partition[OF simple_groups,
      of "[[(''id'', Str ''1''), (''type'', Str ''event'')], [(''id'', Str ''2'')]]" "\<lambda>v. v"]
  by (simp add: typed_notice_def NoticeIconItem_def NoticeIconItemType_def prop_get_Cons
      prop_ordered_names array_index_name is_digit_def)

end
