(* ===== verification/XlsUiCopies.thy ===== *)
theory XlsUiCopies
  imports Consoles HeaderSearch XlsUi GmPane Notice Layout Pwa Typings
begin

text \<open>
  The files of the second front end, \<open>tools/xls2lua/ui/src/\<close>, whose text is the same as that of the
  console's file of this name: every function of such a file is the function of the console's model.
  Most of them are not reached from the routes of this front end (\<open>XlsUi\<close>); those that are, are the
  runtime configuration, header and footer, texts, service worker and tests.
\<close>

text \<open>\<open>src/pages/console/debug_console.tsx\<close>, where it is the same.\<close>

definition ui_addNewContent where
  "ui_addNewContent = addNewContent"

definition ui_onMultiModeChange where
  "ui_onMultiModeChange = onMultiModeChange"

definition ui_onInputContentChange where
  "ui_onInputContentChange = onInputContentChange"

definition ui_onClickClearListButton where
  "ui_onClickClearListButton = onClickClearListButton"

definition ui_onClickHotfix where
  "ui_onClickHotfix = onClickHotfix"

definition ui_responseEffect where
  "ui_responseEffect = responseEffect"

text \<open>\<open>src/components/HeaderSearch/index.tsx\<close>.\<close>

definition ui_value_hook where
  "ui_value_hook = value_hook"

definition ui_search_mode_hook where
  "ui_search_mode_hook = search_mode_hook"

definition ui_search_step where
  "ui_search_step = search_step"

definition ui_HeaderSearch where
  "ui_HeaderSearch = HeaderSearch"

text \<open>\<open>src/pages/console/consoles.tsx\<close>.\<close>

definition ui_onWebSocketMessage where
  "ui_onWebSocketMessage = onWebSocketMessage"

definition ui_startWebSocket where
  "ui_startWebSocket = startWebSocket"

definition ui_onopen where
  "ui_onopen = onopen"

definition ui_onclose where
  "ui_onclose = onclose"

definition ui_consoles0 where
  "ui_consoles0 = consoles0"

definition ui_clientEffect where
  "ui_clientEffect = clientEffect"

definition ui_onConsoleCommand where
  "ui_onConsoleCommand = onConsoleCommand"

definition ui_onHotfix where
  "ui_onHotfix = onHotfix"

definition ui_onOk where
  "ui_onOk = onOk"

definition ui_render_consoles where
  "ui_render_consoles = render_consoles"

text \<open>\<open>src/pages/gm/command.tsx\<close>.\<close>

definition ui_onValuesChange where
  "ui_onValuesChange = onValuesChange"

definition ui_onReset where
  "ui_onReset = onReset"

definition ui_onSubmit where
  "ui_onSubmit = onSubmit"

definition ui_field_attrs where
  "ui_field_attrs = field_attrs"

definition ui_render_field where
  "ui_render_field = render_field"

definition ui_render_fields where
  "ui_render_fields = render_fields"

definition ui_render_command where
  "ui_render_command = render_command"

text \<open>\<open>src/pages/gm.tsx\<close>.\<close>

definition ui_setCommandResponse where
  "ui_setCommandResponse = setCommandResponse"

definition ui_setAllGmCommandResponse where
  "ui_setAllGmCommandResponse = setAllGmCommandResponse"

definition ui_gm_entry where
  "ui_gm_entry = gm_entry"

definition ui_gm_category_of where
  "ui_gm_category_of = gm_category_of"

definition ui_setGmList where
  "ui_setGmList = setGmList"

definition ui_onGmMessage where
  "ui_onGmMessage = onGmMessage"

definition ui_startGmSocket where
  "ui_startGmSocket = startGmSocket"

definition ui_gm0 where
  "ui_gm0 = gm0"

definition ui_onopenGm where
  "ui_onopenGm = onopenGm"

definition ui_gmClientEffect where
  "ui_gmClientEffect = gmClientEffect"

definition ui_onClickGmCommand where
  "ui_onClickGmCommand = onClickGmCommand"

definition ui_onMenuSelected where
  "ui_onMenuSelected = onMenuSelected"

definition ui_onSubmitGMCommand where
  "ui_onSubmitGMCommand = onSubmitGMCommand"

definition ui_onCommandSelected where
  "ui_onCommandSelected = onCommandSelected"

definition ui_render_menu where
  "ui_render_menu = render_menu"

definition ui_render_gm where
  "ui_render_gm = render_gm"

text \<open>\<open>src/services/ant-design-pro/api.ts\<close>.\<close>

definition ui_currentUser where
  "ui_currentUser = currentUser"

definition ui_outLogin where
  "ui_outLogin = outLogin"

definition ui_login where
  "ui_login = login"

definition ui_getNotices where
  "ui_getNotices = getNotices"

definition ui_rule where
  "ui_rule = rule"

definition ui_updateRule where
  "ui_updateRule = updateRule"

definition ui_addRule where
  "ui_addRule = addRule"

definition ui_removeRule where
  "ui_removeRule = removeRule"

definition ui_request where
  "ui_request = request"

text \<open>\<open>src/services/ant-design-pro/login.ts\<close>.\<close>

definition ui_getFakeCaptcha where
  "ui_getFakeCaptcha = getFakeCaptcha"

text \<open>\<open>src/services/swagger/pet.ts\<close>.\<close>

definition ui_updatePet where
  "ui_updatePet = updatePet"

definition ui_addPet where
  "ui_addPet = addPet"

definition ui_findPetsByStatus where
  "ui_findPetsByStatus = findPetsByStatus"

definition ui_findPetsByTags where
  "ui_findPetsByTags = findPetsByTags"

definition ui_getPetById where
  "ui_getPetById = getPetById"

definition ui_updatePetWithForm where
  "ui_updatePetWithForm = updatePetWithForm"

definition ui_deletePet where
  "ui_deletePet = deletePet"

definition ui_uploadFile where
  "ui_uploadFile = uploadFile"

definition ui_form_data where
  "ui_form_data = form_data"

text \<open>\<open>src/services/swagger/store.ts\<close>.\<close>

definition ui_getInventory where
  "ui_getInventory = getInventory"

definition ui_placeOrder where
  "ui_placeOrder = placeOrder"

definition ui_getOrderById where
  "ui_getOrderById = getOrderById"

definition ui_deleteOrder where
  "ui_deleteOrder = deleteOrder"

text \<open>\<open>src/services/swagger/user.ts\<close>.\<close>

definition ui_createUser where
  "ui_createUser = createUser"

definition ui_createUsersWithArrayInput where
  "ui_createUsersWithArrayInput = createUsersWithArrayInput"

definition ui_createUsersWithListInput where
  "ui_createUsersWithListInput = createUsersWithListInput"

definition ui_loginUser where
  "ui_loginUser = loginUser"

definition ui_logoutUser where
  "ui_logoutUser = logoutUser"

definition ui_getUserByName where
  "ui_getUserByName = getUserByName"

definition ui_updateUser where
  "ui_updateUser = updateUser"

definition ui_deleteUser where
  "ui_deleteUser = deleteUser"

text \<open>\<open>src/app.tsx\<close>.\<close>

definition ui_getInitialState where
  "ui_getInitialState = getInitialState"

definition ui_layout where
  "ui_layout = layout"

text \<open>\<open>src/access.ts\<close>.\<close>

definition ui_access where
  "ui_access = access"

text \<open>\<open>src/components/RightContent/AvatarDropdown.tsx\<close>.\<close>

definition ui_call_import where
  "ui_call_import = call_import"

definition ui_loginOut where
  "ui_loginOut = loginOut"

definition ui_onMenuClick where
  "ui_onMenuClick = onMenuClick"

definition ui_avatar_loading where
  "ui_avatar_loading = avatar_loading"

definition ui_avatar_menu where
  "ui_avatar_menu = avatar_menu"

definition ui_AvatarDropdown where
  "ui_AvatarDropdown = AvatarDropdown"

text \<open>\<open>src/components/HeaderDropdown/index.tsx\<close>.\<close>

definition ui_HeaderDropdown where
  "ui_HeaderDropdown = HeaderDropdown"

text \<open>\<open>src/components/RightContent/index.tsx\<close>.\<close>

definition ui_GlobalHeaderRight where
  "ui_GlobalHeaderRight = GlobalHeaderRight"

text \<open>\<open>src/components/Footer/index.tsx\<close>.\<close>

definition ui_Footer where
  "ui_Footer = Footer"

text \<open>\<open>src/pages/404.tsx\<close>.\<close>

definition ui_NoFoundPage where
  "ui_NoFoundPage = NoFoundPage"

text \<open>\<open>src/pages/debug.tsx\<close>.\<close>

definition ui_Debug where
  "ui_Debug = Debug"

text \<open>\<open>src/components/NoticeIcon/index.tsx\<close>.\<close>

definition ui_notice_colors where
  "ui_notice_colors = notice_colors"

definition ui_new_notice where
  "ui_new_notice = new_notice"

definition ui_getNoticeData where
  "ui_getNoticeData = getNoticeData"

definition ui_getUnreadData where
  "ui_getUnreadData = getUnreadData"

definition ui_noticesEffect where
  "ui_noticesEffect = noticesEffect"

definition ui_changeReadState where
  "ui_changeReadState = changeReadState"

definition ui_clearReadState where
  "ui_clearReadState = clearReadState"

definition ui_notice_tab_of where
  "ui_notice_tab_of = notice_tab_of"

definition ui_notice_tabs where
  "ui_notice_tabs = notice_tabs"

definition ui_NoticeIconView where
  "ui_NoticeIconView = NoticeIconView"

text \<open>\<open>src/components/NoticeIcon/NoticeIcon.tsx\<close>.\<close>

definition ui_tab_title where
  "ui_tab_title = tab_title"

definition ui_pane_list where
  "ui_pane_list = pane_list"

definition ui_getNotificationBox where
  "ui_getNotificationBox = getNotificationBox"

definition ui_NoticeIcon where
  "ui_NoticeIcon = NoticeIcon"

text \<open>\<open>src/components/NoticeIcon/NoticeList.tsx\<close>.\<close>

definition ui_render_notice where
  "ui_render_notice = render_notice"

definition ui_NoticeList where
  "ui_NoticeList = NoticeList"

text \<open>\<open>config/defaultSettings.ts\<close>.\<close>

definition ui_defaultSettings where
  "ui_defaultSettings = defaultSettings"

text \<open>\<open>config/proxy.ts\<close>.\<close>

definition ui_proxy where
  "ui_proxy = proxy"

text \<open>\<open>config/config.dev.ts\<close>.\<close>

definition ui_config_dev where
  "ui_config_dev = config_dev"

text \<open>\<open>jest.config.js\<close>.\<close>

definition ui_jest_config where
  "ui_jest_config = jest_config"

text \<open>\<open>playwright.config.ts\<close>.\<close>

definition ui_playwright_config where
  "ui_playwright_config = playwright_config"

text \<open>\<open>src/e2e/baseLayout.e2e.spec.ts\<close>.\<close>

definition ui_BASE_URL where
  "ui_BASE_URL = BASE_URL"

definition ui_squeeze where
  "ui_squeeze = squeeze"

definition ui_testPage where
  "ui_testPage = testPage"

text \<open>\<open>tests/run-tests.js\<close>.\<close>

definition ui_test_env where
  "ui_test_env = test_env"

definition ui_test_run0 where
  "ui_test_run0 = test_run0"

definition ui_onStderr where
  "ui_onStderr = onStderr"

definition ui_onStdout where
  "ui_onStdout = onStdout"

definition ui_onTestExit where
  "ui_onTestExit = onTestExit"

text \<open>\<open>tests/setupTests.js\<close>.\<close>

definition ui_localStorageMock where
  "ui_localStorageMock = localStorageMock"

text \<open>\<open>src/global.tsx\<close>.\<close>

definition ui_clearCache where
  "ui_clearCache = clearCache"

definition ui_global_start where
  "ui_global_start = global_start"

definition ui_onUpdated where
  "ui_onUpdated = onUpdated"

definition ui_clickUpdate where
  "ui_clickUpdate = clickUpdate"

definition ui_onReply where
  "ui_onReply = onReply"

definition ui_onCacheKeys where
  "ui_onCacheKeys = onCacheKeys"

text \<open>\<open>src/service-worker.js\<close>.\<close>

definition ui_network_first_routes where
  "ui_network_first_routes = network_first_routes"

definition ui_worker_start where
  "ui_worker_start = worker_start"

definition ui_onWorkerMessage where
  "ui_onWorkerMessage = onWorkerMessage"

text \<open>\<open>src/locales/zh-CN/component.ts\<close>.\<close>

definition ui_locale_component where
  "ui_locale_component = locale_component"

text \<open>\<open>src/locales/zh-CN/globalHeader.ts\<close>.\<close>

definition ui_locale_globalHeader where
  "ui_locale_globalHeader = locale_globalHeader"

text \<open>\<open>src/locales/zh-CN/menu.ts\<close>.\<close>

definition ui_locale_menu where
  "ui_locale_menu = locale_menu"

text \<open>\<open>src/locales/zh-CN/pwa.ts\<close>.\<close>

definition ui_locale_pwa where
  "ui_locale_pwa = locale_pwa"

text \<open>\<open>src/locales/zh-CN/settingDrawer.ts\<close>.\<close>

definition ui_locale_settingDrawer where
  "ui_locale_settingDrawer = locale_settingDrawer"

text \<open>\<open>src/locales/zh-CN/settings.ts\<close>.\<close>

definition ui_locale_settings where
  "ui_locale_settings = locale_settings"

text \<open>\<open>src/locales/zh-CN/pages.ts\<close>.\<close>

definition ui_locale_pages where
  "ui_locale_pages = locale_pages"

text \<open>\<open>src/locales/zh-CN.ts\<close>.\<close>

definition ui_locale_base where
  "ui_locale_base = locale_base"

definition ui_zh_CN where
  "ui_zh_CN = zh_CN"

text \<open>
  The end-to-end tests are the same text, too, but over this front end's routes: one test per path,
  and, as in the console's front end, a test ends before any of the calls that it starts.
\<close>

definition ui_e2e_tests :: "string option \<Rightarrow> (string \<times> page_call list) list" where
  "ui_e2e_tests PORT =
     map (\<lambda>rt. (''test route page '' @ rt, await_calls (testPage PORT rt))) (formatter ui_routes '''')"

lemma ui_e2e_tests_do_nothing:
  "ui_e2e_tests PORT = [(''test route page /exportTable'', []), (''test route page /'', [])]"
  by (simp add: ui_e2e_tests_def testPage_def formatter.simps ui_routes_def given_path_def
      starts_with_slash_def uniq_def Let_def)

section \<open>Data, constants and types of the same text\<close>

text \<open>\<open>src/pages/console/debug_console.tsx\<close>.\<close>

type_synonym ui_entry = entry

type_synonym ui_response = response

type_synonym ui_console_call = console_call

type_synonym ui_debug_console = debug_console

text \<open>\<open>src/pages/console/consoles.tsx\<close>.\<close>

type_synonym ui_consoles = consoles

text \<open>\<open>src/pages/exportTable.tsx\<close>.\<close>

type_synonym ui_exportTableConfig = exportTableConfig

type_synonym ui_export_page = export_page

type_synonym ui_log_line = log_line

definition ui_exportCmdName where
  "ui_exportCmdName = exportCmdName"

definition ui_excelPathName where
  "ui_excelPathName = excelPathName"

definition ui_exportClientPathName where
  "ui_exportClientPathName = exportClientPathName"

definition ui_exportServerPathName where
  "ui_exportServerPathName = exportServerPathName"

definition ui_cmdSetTableConfig where
  "ui_cmdSetTableConfig = cmdSetTableConfig"

definition ui_cmdGetTableConfig where
  "ui_cmdGetTableConfig = cmdGetTableConfig"

definition ui_cmdExportTable where
  "ui_cmdExportTable = cmdExportTable"

definition ui_cmdError where
  "ui_cmdError = cmdError"

definition ui_cmdFindSheet where
  "ui_cmdFindSheet = cmdFindSheet"

definition ui_config_field where
  "ui_config_field = config_field"

definition ui_tableSend where
  "ui_tableSend = tableSend"

text \<open>\<open>src/pages/gm/command.tsx\<close>.\<close>

type_synonym ui_gm_props = gm_props

definition ui_command_key where
  "ui_command_key = command_key"

definition ui_draft where
  "ui_draft = draft"

text \<open>\<open>src/pages/gm.tsx\<close>.\<close>

type_synonym ui_gm_command = gm_command

type_synonym ui_gm_category = gm_category

type_synonym ui_gm_page = gm_page

definition ui_gm_url where
  "ui_gm_url = gm_url"

definition ui_oncloseGm where
  "ui_oncloseGm = oncloseGm"

definition ui_onTimer where
  "ui_onTimer = onTimer"

definition ui_menu_keys where
  "ui_menu_keys = menu_keys"

text \<open>\<open>src/app.tsx\<close>.\<close>

type_synonym ui_initial_state = initial_state

definition ui_fetchUserInfo where
  "ui_fetchUserInfo = fetchUserInfo"

text \<open>\<open>src/pages/404.tsx\<close>.\<close>

definition ui_backHome where
  "ui_backHome = backHome"

text \<open>\<open>src/components/NoticeIcon/NoticeList.tsx\<close>.\<close>

type_synonym ui_notice_tab = notice_tab

text \<open>\<open>src/components/NoticeIcon/NoticeIcon.tsx\<close>.\<close>

type_synonym ui_notice_icon_props = notice_icon_props

definition ui_defaultEmptyImage where
  "ui_defaultEmptyImage = defaultEmptyImage"

text \<open>\<open>src/components/NoticeIcon/index.tsx\<close>.\<close>

definition ui_notice_icon where
  "ui_notice_icon = notice_icon"

text \<open>\<open>src/components/HeaderSearch/index.tsx\<close>.\<close>

type_synonym ui_header_search_props = header_search_props

definition ui_onSearchClick where
  "ui_onSearchClick = onSearchClick"

definition ui_onTransitionEnd where
  "ui_onTransitionEnd = onTransitionEnd"

definition ui_onSearchKeyDown where
  "ui_onSearchKeyDown = onSearchKeyDown"

definition ui_onSearchBlur where
  "ui_onSearchBlur = onSearchBlur"

definition ui_input_class where
  "ui_input_class = input_class"

text \<open>\<open>src/e2e/baseLayout.e2e.spec.ts\<close>.\<close>

definition ui_formatter where
  "ui_formatter = formatter"

text \<open>\<open>tests/run-tests.js\<close>.\<close>

definition ui_npm where
  "ui_npm = npm"

type_synonym ui_test_run = test_run

definition ui_onServerExit where
  "ui_onServerExit = onServerExit"

definition ui_serving where
  "ui_serving = serving"

text \<open>\<open>src/global.tsx\<close>.\<close>

definition ui_onOffline where
  "ui_onOffline = onOffline"

text \<open>\<open>src/service-worker.js\<close>.\<close>

definition ui_color_less where
  "ui_color_less = color_less"

text \<open>\<open>src/services/ant-design-pro/typings.d.ts\<close>.\<close>

definition ui_CurrentUser where
  "ui_CurrentUser = CurrentUser"

definition ui_LoginResult where
  "ui_LoginResult = LoginResult"

definition ui_PageParams where
  "ui_PageParams = PageParams"

definition ui_RuleListItem where
  "ui_RuleListItem = RuleListItem"

definition ui_RuleList where
  "ui_RuleList = RuleList"

definition ui_FakeCaptcha where
  "ui_FakeCaptcha = FakeCaptcha"

definition ui_LoginParams where
  "ui_LoginParams = LoginParams"

definition ui_ErrorResponse where
  "ui_ErrorResponse = ErrorResponse"

definition ui_NoticeIconList where
  "ui_NoticeIconList = NoticeIconList"

definition ui_NoticeIconItemType where
  "ui_NoticeIconItemType = NoticeIconItemType"

definition ui_NoticeIconItem where
  "ui_NoticeIconItem = NoticeIconItem"

text \<open>\<open>src/services/swagger/typings.d.ts\<close>.\<close>

definition ui_Order where
  "ui_Order = Order"

definition ui_Category where
  "ui_Category = Category"

definition ui_User where
  "ui_User = User"

definition ui_Tag where
  "ui_Tag = Tag"

definition ui_Pet where
  "ui_Pet = Pet"

definition ui_ApiResponse where
  "ui_ApiResponse = ApiResponse"

text \<open>\<open>src/typings.d.ts\<close>.\<close>

definition ui_declared_modules where
  "ui_declared_modules = declared_modules"

definition ui_ANT_DESIGN_PRO_ONLY_DO_NOT_USE_IN_YOUR_PRODUCTION where
  "ui_ANT_DESIGN_PRO_ONLY_DO_NOT_USE_IN_YOUR_PRODUCTION = ANT_DESIGN_PRO_ONLY_DO_NOT_USE_IN_YOUR_PRODUCTION"

definition ui_REACT_APP_ENV where
  "ui_REACT_APP_ENV = REACT_APP_ENV"

text \<open>\<open>src/pages/gm.tsx\<close>.\<close>

definition ui_selectOption where
  "ui_selectOption = selectOption"

definition ui_gmCommandArg where
  "ui_gmCommandArg = gmCommandArg"

text \<open>\<open>src/services/ant-design-pro/index.ts\<close>.\<close>

definition ui_ant_design_pro_index where
  "ui_ant_design_pro_index = ant_design_pro_index"

text \<open>\<open>src/services/swagger/index.ts\<close>.\<close>

definition ui_swagger_index where
  "ui_swagger_index = swagger_index"

text \<open>\<open>.eslintrc.js\<close>.\<close>

definition ui_eslint_config where
  "ui_eslint_config = eslint_config"

text \<open>\<open>.prettierrc.js\<close>.\<close>

definition ui_prettier_config where
  "ui_prettier_config = prettier_config"

text \<open>\<open>.stylelintrc.js\<close>.\<close>

definition ui_stylelint_config where
  "ui_stylelint_config = stylelint_config"

end
