(* ===== verification/Telnet.thy ===== *)
theory Telnet
  imports Admin
begin

text \<open>
  The debugging port of a game process (\<open>engine/engine/telnet.go\<close>, with the queue of
  \<open>lua_machine.go\<close>), to which the admin process passes the commands on.  Every connection has a
  goroutine that reads lines, queues a command for the main thread, and waits at most three seconds
  for a result on one channel, which all connections share.  The main thread runs the queued
  commands in the Lua interpreter, which is a parameter, as are the scripts.  A JSON text is read as
  in \<open>AdminMessage\<close>.
\<close>

section \<open>Text\<close>

text \<open>\<open>strings.ReplaceAll\<close> and \<open>strings.Contains\<close>.\<close>

function replace_all :: "string \<Rightarrow> string \<Rightarrow> string \<Rightarrow> string" where
  "replace_all old new s =
     (if old = [] \<or> s = [] then s
      else if take (length old) s = old then new @ replace_all old new (drop (length old) s)
      else hd s # replace_all old new (tl s))"
  by pat_completeness auto

termination
  by (relation "measure (\<lambda>(old, new, s). length s)") (auto simp: neq_Nil_conv)

declare replace_all.simps [simp del]

fun contains :: "string \<Rightarrow> string \<Rightarrow> bool" where
  "contains part [] = (part = [])"
| "contains part (c # cs) = (take (length part) (c # cs) = part \<or> contains part cs)"

section \<open>Commands\<close>

datatype telnet_command =
    Reload
  | GmList
  | Debug string nat                \<comment> \<open>the script and the connection\<close>
  | Gm string

text \<open>
  The interpreter with the scripts, on states of type \<open>'l\<close>: calls of the global entry's reload, of the
  stub's list of GM commands (which may give no string) and of the GM command, each with an error's
  text in case of failure; loading a text, with the error if there is one; and running a loaded text,
  with the value of \<open>console_output\<close> at its end.
\<close>

record 'l lua_vm =
  vm_reload :: "'l \<Rightarrow> string option \<times> 'l"
  vm_has_stub :: "'l \<Rightarrow> bool"
  vm_gm_list :: "'l \<Rightarrow> (string + string option) \<times> 'l"
  vm_gm :: "string \<Rightarrow> 'l \<Rightarrow> (string + string) \<times> 'l"
  vm_load :: "string \<Rightarrow> string option"
  vm_run :: "string \<Rightarrow> 'l \<Rightarrow> (string + string) \<times> 'l"

text \<open>What a handler leaves: the result it sends, if any, whether it stored an environment, and the state.\<close>

type_synonym 'l handled = "string option \<times> bool \<times> 'l"

definition reloadHandler :: "'l lua_vm \<Rightarrow> 'l \<Rightarrow> 'l handled" where
  "reloadHandler vm l =
     (case vm_reload vm l of (Some err, l') \<Rightarrow> (Some err, False, l')
      | (None, l') \<Rightarrow> (Some ''reload success'', False, l'))"

text \<open>Without a GMStub in this process, nothing is sent at all.\<close>

definition getGmListHandler :: "'l lua_vm \<Rightarrow> 'l \<Rightarrow> 'l handled" where
  "getGmListHandler vm l =
     (if \<not> vm_has_stub vm l then (None, False, l)
      else (case vm_gm_list vm l of (Inr (Some s), l') \<Rightarrow> (Some s, False, l')
            | (_, l') \<Rightarrow> (Some ''{}'', False, l')))"

definition gmCommandHandler :: "'l lua_vm \<Rightarrow> string \<Rightarrow> 'l \<Rightarrow> 'l handled" where
  "gmCommandHandler vm cmd l =
     (case vm_gm vm cmd l of (Inl _, l') \<Rightarrow> (Some ''gm command execute failed'', False, l')
      | (Inr s, l') \<Rightarrow> (Some s, False, l'))"

definition run_chunk :: "'l lua_vm \<Rightarrow> string \<Rightarrow> 'l \<Rightarrow> 'l handled" where
  "run_chunk vm s l =
     (case vm_run vm s l of (Inl err, l') \<Rightarrow> (Some err, True, l') | (Inr out, l') \<Rightarrow> (Some out, True, l'))"

definition console_script :: "string \<Rightarrow> string" where
  "console_script str = replace_all ''local '' '''' (replace_all ''print'' ''console_print'' str)"

definition debugCommandHandler :: "bool \<Rightarrow> 'l lua_vm \<Rightarrow> string \<Rightarrow> 'l \<Rightarrow> 'l handled" where
  "debugCommandHandler release vm str0 l =
     (if release then (Some ''debug command not support in release mode'', False, l)
      else
        let str = console_script str0 in
        case vm_load vm str of None \<Rightarrow> run_chunk vm str l
        | Some err \<Rightarrow>
            if contains ''parse error'' err then
              let str1 = ''console_print('' @ str @ '')'' in
              (case vm_load vm str1 of None \<Rightarrow> run_chunk vm str1 l
               | Some _ \<Rightarrow> (Some err, False, l))
            else (Some err, False, l))"

fun run_handler :: "bool \<Rightarrow> 'l lua_vm \<Rightarrow> telnet_command \<Rightarrow> 'l \<Rightarrow> 'l handled" where
  "run_handler release vm Reload l = reloadHandler vm l"
| "run_handler release vm GmList l = getGmListHandler vm l"
| "run_handler release vm (Debug d c) l = debugCommandHandler release vm d l"
| "run_handler release vm (Gm d) l = gmCommandHandler vm d l"

section \<open>Messages\<close>

text \<open>\<open>json.Unmarshal\<close> into \<open>TelnetMessage\<close>; the text \<open>null\<close> leaves it as it is.\<close>

definition go_int :: "jsval props \<Rightarrow> string \<Rightarrow> int option" where
  "go_int ps k =
     (case prop_get ps k of None \<Rightarrow> Some 0 | Some Null \<Rightarrow> Some 0
      | Some (Num n) \<Rightarrow> if - (2 ^ 63) \<le> n \<and> n < 2 ^ 63 then Some n else None
      | _ \<Rightarrow> None)"

definition decode_telnet :: "string \<Rightarrow> (int \<times> string) option" where
  "decode_telnet line =
     (case JSON_parse line of
        Inr Null \<Rightarrow> Some (0, '''')
      | Inr (Obj ps) \<Rightarrow>
          (case (go_int ps ''type'', go_string ps ''data'') of (Some n, Some d) \<Rightarrow> Some (n, d) | _ \<Rightarrow> None)
      | _ \<Rightarrow> None)"

text \<open>The switch over the type of a message; another type queues nothing.\<close>

definition command_of :: "nat \<Rightarrow> int \<Rightarrow> string \<Rightarrow> telnet_command option" where
  "command_of c ty d =
     (if ty = 4 then Some Reload else if ty = 2 then Some GmList
      else if ty = 1 then Some (Debug d c) else if ty = 3 then Some (Gm d) else None)"

text \<open>\<open>ReadString\<close>: the text up to the first line feed, and what follows it.\<close>

definition line_feed :: char where
  "line_feed = CHR 0x0A"

definition read_line :: "string \<Rightarrow> (string \<times> string) option" where
  "read_line s =
     (if line_feed \<in> set s then
        Some (takeWhile (\<lambda>c. c \<noteq> line_feed) s, tl (dropWhile (\<lambda>c. c \<noteq> line_feed) s))
      else None)"

section \<open>The process\<close>

text \<open>
  A connection: what has come and is not read yet, whether its peer has closed it, whether its
  goroutine waits for a result, what it has written, and, as history, which of its waits ended by the timeout.
\<close>

record session =
  se_open :: bool
  se_in :: string
  se_eof :: bool
  se_wait :: bool
  se_out :: "string list"
  se_late :: "bool list"

definition session0 :: session where
  "session0 = \<lparr>se_open = True, se_in = '''', se_eof = False, se_wait = False, se_out = [], se_late = []\<rparr>"

text \<open>
  \<open>tn_running\<close> are the commands that \<open>doCommands\<close> has not run yet, while it holds the lock;
  \<open>tn_hand\<close> the result with which a handler is about to send on the channel \<open>tn_results\<close>.  History:
  \<open>tn_issued\<close>, the commands that were queued, and \<open>tn_taken\<close>, who took which result.
\<close>

record 'l telnet =
  tn_sessions :: "session list"
  tn_queue :: "telnet_command list"
  tn_running :: "telnet_command list option"
  tn_hand :: "string option"
  tn_results :: "string list"
  tn_env :: "nat list"
  tn_lua :: 'l
  tn_issued :: "telnet_command list"
  tn_taken :: "(nat \<times> string) list"

definition telnet0 :: "'l \<Rightarrow> 'l telnet" where
  "telnet0 l = \<lparr>tn_sessions = [], tn_queue = [], tn_running = None, tn_hand = None, tn_results = [],
     tn_env = [], tn_lua = l, tn_issued = [], tn_taken = []\<rparr>"

text \<open>The capacity of \<open>commandResultChan\<close>.\<close>

definition result_capacity :: nat where
  "result_capacity = 100"

datatype telnet_event =
    Accept
  | Input nat string
  | PeerClosed nat
  | ReadLine nat
  | SessionEnd nat
  | TakeResult nat
  | WaitTimeout nat
  | DoCommands
  | RunCommand
  | PushResult
  | CommandsDone

definition session_at :: "nat \<Rightarrow> 'l telnet \<Rightarrow> session" where
  "session_at c t = (if c < length (tn_sessions t) then tn_sessions t ! c else session0\<lparr>se_open := False\<rparr>)"

definition set_session :: "nat \<Rightarrow> session \<Rightarrow> 'l telnet \<Rightarrow> 'l telnet" where
  "set_session c w t = t\<lparr>tn_sessions := (tn_sessions t)[c := w]\<rparr>"

text \<open>
  One round of \<open>handleSession\<close> up to the wait.  A line that is no message is skipped.  Queuing a command
  needs the lock; a message of another type queues nothing, and yet a result is waited for.
\<close>

definition onLine :: "nat \<Rightarrow> 'l telnet \<Rightarrow> 'l telnet" where
  "onLine c t =
     (let w = session_at c t in
      if \<not> se_open w \<or> se_wait w then t
      else
        case read_line (se_in w) of None \<Rightarrow> t
        | Some (line, rest) \<Rightarrow>
            (case decode_telnet line of None \<Rightarrow> set_session c (w\<lparr>se_in := rest\<rparr>) t
             | Some (ty, d) \<Rightarrow>
                 (case command_of c ty d of
                    None \<Rightarrow> set_session c (w\<lparr>se_in := rest, se_wait := True\<rparr>) t
                  | Some cmd \<Rightarrow>
                      if tn_running t \<noteq> None then t
                      else set_session c (w\<lparr>se_in := rest, se_wait := True\<rparr>)
                        (t\<lparr>tn_queue := tn_queue t @ [cmd], tn_issued := tn_issued t @ [cmd]\<rparr>))))"

text \<open>What is written for a result.\<close>

definition response_text :: "string \<Rightarrow> string" where
  "response_text r = (if r = [] then ''[empty response]'' else r)"

definition onResult :: "nat \<Rightarrow> 'l telnet \<Rightarrow> 'l telnet" where
  "onResult c t =
     (let w = session_at c t in
      case tn_results t of [] \<Rightarrow> t
      | r # rs \<Rightarrow>
          if se_wait w then
            set_session c (w\<lparr>se_wait := False, se_out := se_out w @ [response_text r], se_late := se_late w @ [False]\<rparr>)
              (t\<lparr>tn_results := rs, tn_taken := tn_taken t @ [(c, r)]\<rparr>)
          else t)"

text \<open>Three seconds can only pass while there is no result to be had.\<close>

definition onWaitTimeout :: "nat \<Rightarrow> 'l telnet \<Rightarrow> 'l telnet" where
  "onWaitTimeout c t =
     (let w = session_at c t in
      if se_wait w \<and> tn_results t = [] then
        set_session c (w\<lparr>se_wait := False, se_out := se_out w @ [''command timeout''], se_late := se_late w @ [True]\<rparr>) t
      else t)"

text \<open>The end of a connection, when all lines have been read: a rest without a line feed is dropped.\<close>

definition onSessionEnd :: "nat \<Rightarrow> 'l telnet \<Rightarrow> 'l telnet" where
  "onSessionEnd c t =
     (let w = session_at c t in
      if se_open w \<and> se_eof w \<and> \<not> se_wait w \<and> read_line (se_in w) = None then
        set_session c (w\<lparr>se_open := False\<rparr>) (t\<lparr>tn_env := filter (\<lambda>d. d \<noteq> c) (tn_env t)\<rparr>)
      else t)"

definition onRunCommand :: "bool \<Rightarrow> 'l lua_vm \<Rightarrow> 'l telnet \<Rightarrow> 'l telnet" where
  "onRunCommand release vm t =
     (case (tn_hand t, tn_running t) of
        (None, Some (cmd # cmds)) \<Rightarrow>
          (let (r, env, l) = run_handler release vm cmd (tn_lua t)
           in t\<lparr>tn_running := Some cmds, tn_hand := r, tn_lua := l,
                tn_env := (case cmd of Debug d c \<Rightarrow> if env then List.insert c (tn_env t) else tn_env t
                           | _ \<Rightarrow> tn_env t)\<rparr>)
      | _ \<Rightarrow> t)"

fun telnet_act :: "bool \<Rightarrow> 'l lua_vm \<Rightarrow> telnet_event \<Rightarrow> 'l telnet \<Rightarrow> 'l telnet" where
  "telnet_act release vm Accept t = t\<lparr>tn_sessions := tn_sessions t @ [session0]\<rparr>"
| "telnet_act release vm (Input c s) t =
     (let w = session_at c t in
      if se_open w \<and> \<not> se_eof w then set_session c (w\<lparr>se_in := se_in w @ s\<rparr>) t else t)"
| "telnet_act release vm (PeerClosed c) t = set_session c ((session_at c t)\<lparr>se_eof := True\<rparr>) t"
| "telnet_act release vm (ReadLine c) t = onLine c t"
| "telnet_act release vm (SessionEnd c) t = onSessionEnd c t"
| "telnet_act release vm (TakeResult c) t = onResult c t"
| "telnet_act release vm (WaitTimeout c) t = onWaitTimeout c t"
| "telnet_act release vm DoCommands t =
     (if tn_running t = None then t\<lparr>tn_running := Some (tn_queue t), tn_queue := []\<rparr> else t)"
| "telnet_act release vm RunCommand t = onRunCommand release vm t"
| "telnet_act release vm PushResult t =
     (case tn_hand t of None \<Rightarrow> t
      | Some r \<Rightarrow> if length (tn_results t) < result_capacity
                  then t\<lparr>tn_results := tn_results t @ [r], tn_hand := None\<rparr> else t)"
| "telnet_act release vm CommandsDone t =
     (if tn_running t = Some [] \<and> tn_hand t = None then t\<lparr>tn_running := None\<rparr> else t)"

definition telnet_run :: "bool \<Rightarrow> 'l lua_vm \<Rightarrow> 'l \<Rightarrow> telnet_event list \<Rightarrow> 'l telnet" where
  "telnet_run release vm l evs = fold (telnet_act release vm) evs (telnet0 l)"

end
