(* ===== verification/TelnetProps.thy ===== *)
theory TelnetProps
  imports Telnet "HOL-Library.Sublist"
begin

text \<open>
  What the debugging port of a game process does with the commands of the admin process: each is read
  as it was sent; results are handed out in the order of the commands, whoever waits; and when more
  commands have timed out than the channel holds results, the process can stop for ever.
\<close>

section \<open>Commands on the wire\<close>

definition no_feed :: "string \<Rightarrow> bool" where
  "no_feed s \<longleftrightarrow> (\<forall>c \<in> set s. code_of c \<noteq> 10)"

lemma no_feed_simps [simp]:
  "no_feed []" "no_feed (c # s) \<longleftrightarrow> code_of c \<noteq> 10 \<and> no_feed s" "no_feed (s @ t) \<longleftrightarrow> no_feed s \<and> no_feed t"
  by (auto simp: no_feed_def)

lemma hex_digit_code: "n < 16 \<Longrightarrow> code_of (hex_digit n) \<noteq> 10"
  by (simp add: hex_digit_def)

lemma json_escape_no_feed: "no_feed (json_escape c)"
proof -
  have "code_of c < 32 \<Longrightarrow> code_of c div 16 < 16 \<and> code_of c mod 16 < 16" by simp
  then show ?thesis by (auto simp: json_escape_def hex_digit_code)
qed

lemma json_quote_no_feed: "no_feed (json_quote s)"
  using json_escape_no_feed by (simp add: json_quote_def) (auto simp: no_feed_def)

lemma show_int_no_feed: "no_feed (show_int n)"
proof -
  have "no_feed (show_nat m)" for m
    using digits_show_nat[of m] by (force simp: no_feed_def is_digit_def)
  then show ?thesis by (simp add: show_int_def)
qed

definition tabs :: "string \<Rightarrow> string" where
  "tabs s = map (\<lambda>c. if c = CHR 0x0A then CHR 0x09 else c) s"

definition telnet_line :: "nat \<Rightarrow> string \<Rightarrow> string" where
  "telnet_line ty d = stringify (Obj [(''type'', Num (int ty)), (''data'', Str (tabs d))])"

lemma telnet_text_line: "telnet_text ty d = telnet_line ty d @ [line_feed]"
  by (simp add: telnet_text_def telnet_line_def tabs_def line_feed_def)

lemma telnet_line_no_feed: "no_feed (telnet_line ty d)"
  using show_int_no_feed[of "int ty"] json_quote_no_feed
  by (simp add: telnet_line_def stringify.simps stringify_members.simps)

lemma code_line_feed [simp]: "code_of line_feed = 10"
  by (simp add: line_feed_def)

lemma read_line_append: "no_feed s \<Longrightarrow> read_line (s @ line_feed # rest) = Some (s, rest)"
proof -
  assume "no_feed s"
  then have "\<forall>c \<in> set s. c \<noteq> line_feed" unfolding no_feed_def using code_line_feed by metis
  then show ?thesis
    by (simp add: read_line_def takeWhile_append2 dropWhile_append2)
qed

lemma read_line_text: "read_line (telnet_text ty d @ rest) = Some (telnet_line ty d, rest)"
  by (simp add: telnet_text_line read_line_append telnet_line_no_feed)

lemma decode_telnet_line:
  assumes "ty \<le> 4"
  shows "decode_telnet (telnet_line ty d) = Some (int ty, tabs d)"
proof -
  have "JSON_parse (telnet_line ty d) = Inr (Obj [(''type'', Num (int ty)), (''data'', Str (tabs d))])"
    unfolding telnet_line_def by (subst JSON_parse_stringify) (simp_all add: prop_ordered_names)
  moreover have "int ty < 2 ^ 63" using assms by simp
  ultimately show ?thesis
    by (simp add: decode_telnet_def go_int_def go_string_def prop_get_Cons)
qed

section \<open>Results come in the order of the commands\<close>

text \<open>What running commands one after the other gives: the results, and the interpreter's state.\<close>

fun run_all :: "bool \<Rightarrow> 'l lua_vm \<Rightarrow> telnet_command list \<Rightarrow> 'l \<Rightarrow> string list \<times> 'l" where
  "run_all release vm [] l = ([], l)"
| "run_all release vm (cmd # cmds) l =
     (let (r, _, l1) = run_handler release vm cmd l; (rs, l2) = run_all release vm cmds l1
      in (case r of None \<Rightarrow> rs | Some x \<Rightarrow> x # rs, l2))"

definition hand_list :: "string option \<Rightarrow> string list" where
  "hand_list h = (case h of None \<Rightarrow> [] | Some r \<Rightarrow> [r])"

definition running_list :: "telnet_command list option \<Rightarrow> telnet_command list" where
  "running_list r = (case r of None \<Rightarrow> [] | Some cs \<Rightarrow> cs)"

lemma hand_list_simps [simp]: "hand_list None = []" "hand_list (Some r) = [r]"
  and running_list_simps [simp]: "running_list None = []" "running_list (Some cs) = cs"
  by (simp_all add: hand_list_def running_list_def)

lemma run_all_append:
  "run_all release vm (cs @ ds) l =
     (let (rs, l1) = run_all release vm cs l; (rs', l2) = run_all release vm ds l1 in (rs @ rs', l2))"
  by (induction cs arbitrary: l) (auto simp: Let_def case_prod_beta' split: option.split)

lemma run_all_length: "length (fst (run_all release vm cs l)) \<le> length cs"
  by (induction cs arbitrary: l) (auto simp: Let_def case_prod_beta' le_SucI split: option.split)

text \<open>The sessions do not bear on the order.\<close>

lemma set_session_frame [simp]:
  "tn_queue (set_session c w t) = tn_queue t" "tn_running (set_session c w t) = tn_running t"
  "tn_hand (set_session c w t) = tn_hand t" "tn_results (set_session c w t) = tn_results t"
  "tn_lua (set_session c w t) = tn_lua t" "tn_issued (set_session c w t) = tn_issued t"
  "tn_taken (set_session c w t) = tn_taken t" "tn_env (set_session c w t) = tn_env t"
  "tn_sessions (set_session c w t) = (tn_sessions t)[c := w]"
  by (simp_all add: set_session_def)

definition fifo :: "bool \<Rightarrow> 'l lua_vm \<Rightarrow> 'l \<Rightarrow> 'l telnet \<Rightarrow> bool" where
  "fifo release vm l t \<longleftrightarrow>
     (\<exists>ran. tn_issued t = ran @ running_list (tn_running t) @ tn_queue t
        \<and> run_all release vm ran l = (map snd (tn_taken t) @ tn_results t @ hand_list (tn_hand t), tn_lua t))
     \<and> length (tn_results t) \<le> result_capacity \<and> (tn_running t = None \<longrightarrow> tn_hand t = None)"

lemma fifo_lua:
  assumes "fifo release vm l t"
  shows "fifo release vm l (onRunCommand release vm t)"
proof (cases "\<exists>cmd cmds. tn_hand t = None \<and> tn_running t = Some (cmd # cmds)")
  case True
  then obtain cmd cmds where h: "tn_hand t = None" "tn_running t = Some (cmd # cmds)" by blast
  obtain r env l1 where r: "run_handler release vm cmd (tn_lua t) = (r, env, l1)" by (cases rule: prod_cases3)
  from assms h obtain ran where "tn_issued t = ran @ (cmd # cmds) @ tn_queue t"
    "run_all release vm ran l = (map snd (tn_taken t) @ tn_results t, tn_lua t)"
    by (auto simp: fifo_def)
  then have "tn_issued t = (ran @ [cmd]) @ cmds @ tn_queue t"
    "run_all release vm (ran @ [cmd]) l = (map snd (tn_taken t) @ tn_results t @ hand_list r, l1)"
    by (auto simp: run_all_append r split: option.split)
  with assms h r show ?thesis
    unfolding fifo_def onRunCommand_def by (intro conjI exI[of _ "ran @ [cmd]"]) simp_all
next
  case False
  then have "onRunCommand release vm t = t"
    by (auto simp: onRunCommand_def split: option.splits list.splits)
  with assms show ?thesis by simp
qed

lemma fifo_act: "fifo release vm l t \<Longrightarrow> fifo release vm l (telnet_act release vm ev t)"
proof (cases ev)
  case (ReadLine c)
  then show "fifo release vm l t \<Longrightarrow> ?thesis"
    by (auto simp: onLine_def fifo_def Let_def split: option.splits)
next
  case (TakeResult c)
  then show "fifo release vm l t \<Longrightarrow> ?thesis"
    by (auto simp: onResult_def fifo_def Let_def split: list.splits)
next
  case RunCommand
  then show "fifo release vm l t \<Longrightarrow> ?thesis" by (simp add: fifo_lua)
next
  case PushResult
  then show "fifo release vm l t \<Longrightarrow> ?thesis"
    by (auto simp: fifo_def split: option.splits)
next
  case DoCommands
  then show "fifo release vm l t \<Longrightarrow> ?thesis"
    by (auto simp: fifo_def)
next
  case CommandsDone
  then show "fifo release vm l t \<Longrightarrow> ?thesis"
    by (auto simp: fifo_def)
qed (auto simp: fifo_def onWaitTimeout_def onSessionEnd_def Let_def)

lemma fifo_run: "fifo release vm l (telnet_run release vm l evs)"
proof -
  have "fifo release vm l (fold (telnet_act release vm) evs t)" if "fifo release vm l t" for t
    using that by (induction evs arbitrary: t) (simp_all add: fifo_act del: telnet_act.simps)
  then show ?thesis by (simp add: telnet_run_def fifo_def telnet0_def)
qed

section \<open>Accounting\<close>

definition waiting :: "'l telnet \<Rightarrow> nat" where
  "waiting t = length (filter se_wait (tn_sessions t))"

text \<open>How many waits have timed out.\<close>

definition timeouts :: "'l telnet \<Rightarrow> nat" where
  "timeouts t = sum_list (map (\<lambda>w. length (filter id (se_late w))) (tn_sessions t))"

lemma sum_update:
  "c < length xs \<Longrightarrow> sum_list (map f (xs[c := x])) + f (xs ! c) = sum_list (map f xs) + (f x :: nat)"
  by (induction xs arbitrary: c) (auto split: nat.split simp: nth_Cons')

lemma length_filter_sum: "length (filter P xs) = sum_list (map (\<lambda>x. if P x then 1 else 0) xs)"
  by (induction xs) simp_all

definition accounts :: "'l telnet \<Rightarrow> bool" where
  "accounts t \<longleftrightarrow> length (tn_issued t) \<le> length (tn_taken t) + timeouts t + waiting t"

lemma accounts_session:
  assumes "c < length (tn_sessions t)"
  shows "timeouts (set_session c w t) + length (filter id (se_late (session_at c t)))
       = timeouts t + length (filter id (se_late w))"
    and "waiting (set_session c w t) + (if se_wait (session_at c t) then 1 else 0)
       = waiting t + (if se_wait w then 1 else 0)"
  using assms sum_update[OF assms, of "\<lambda>w. length (filter id (se_late w))" w]
    sum_update[OF assms, of "\<lambda>w. if se_wait w then 1 else 0" w]
  by (simp_all add: timeouts_def waiting_def length_filter_sum[of se_wait] session_at_def)

lemma session_in_range:
  "se_open (session_at c t) \<Longrightarrow> c < length (tn_sessions t)"
  "se_wait (session_at c t) \<Longrightarrow> c < length (tn_sessions t)"
  by (auto simp: session_at_def session0_def split: if_splits)

lemma set_session_out: "\<not> c < length (tn_sessions t) \<Longrightarrow> set_session c w t = t"
  by (simp add: set_session_def list_update_beyond)

text \<open>A session that keeps its wait and its past keeps the accounts.\<close>

lemma accounts_keep:
  assumes "se_wait w = se_wait (session_at c t)" and "se_late w = se_late (session_at c t)"
  shows "timeouts (set_session c w t) = timeouts t" "waiting (set_session c w t) = waiting t"
proof -
  have "timeouts (set_session c w t) = timeouts t \<and> waiting (set_session c w t) = waiting t"
  proof (cases "c < length (tn_sessions t)")
    case True
    from accounts_session[OF True, of w] assms show ?thesis by (simp split: if_splits)
  qed (simp add: set_session_out)
  then show "timeouts (set_session c w t) = timeouts t" "waiting (set_session c w t) = waiting t"
    by simp_all
qed

lemma accounts_fields [simp]:
  "timeouts (t\<lparr>tn_queue := x0\<rparr>) = timeouts t"
  "timeouts (t\<lparr>tn_running := x1\<rparr>) = timeouts t"
  "timeouts (t\<lparr>tn_hand := x2\<rparr>) = timeouts t"
  "timeouts (t\<lparr>tn_results := x3\<rparr>) = timeouts t"
  "timeouts (t\<lparr>tn_env := x4\<rparr>) = timeouts t"
  "timeouts (t\<lparr>tn_lua := x5\<rparr>) = timeouts t"
  "timeouts (t\<lparr>tn_issued := x6\<rparr>) = timeouts t"
  "timeouts (t\<lparr>tn_taken := x7\<rparr>) = timeouts t"
  "waiting (t\<lparr>tn_queue := x0\<rparr>) = waiting t"
  "waiting (t\<lparr>tn_running := x1\<rparr>) = waiting t"
  "waiting (t\<lparr>tn_hand := x2\<rparr>) = waiting t"
  "waiting (t\<lparr>tn_results := x3\<rparr>) = waiting t"
  "waiting (t\<lparr>tn_env := x4\<rparr>) = waiting t"
  "waiting (t\<lparr>tn_lua := x5\<rparr>) = waiting t"
  "waiting (t\<lparr>tn_issued := x6\<rparr>) = waiting t"
  "waiting (t\<lparr>tn_taken := x7\<rparr>) = waiting t"
  by (simp_all add: timeouts_def waiting_def)

lemma session_at_fields [simp]:
  "session_at c (t\<lparr>tn_queue := x0\<rparr>) = session_at c t"
  "session_at c (t\<lparr>tn_running := x1\<rparr>) = session_at c t"
  "session_at c (t\<lparr>tn_hand := x2\<rparr>) = session_at c t"
  "session_at c (t\<lparr>tn_results := x3\<rparr>) = session_at c t"
  "session_at c (t\<lparr>tn_env := x4\<rparr>) = session_at c t"
  "session_at c (t\<lparr>tn_lua := x5\<rparr>) = session_at c t"
  "session_at c (t\<lparr>tn_issued := x6\<rparr>) = session_at c t"
  "session_at c (t\<lparr>tn_taken := x7\<rparr>) = session_at c t"
  by (simp_all add: session_at_def)

lemma accounts_line:
  assumes "accounts t"
  shows "accounts (onLine c t)"
proof (cases "se_open (session_at c t) \<and> \<not> se_wait (session_at c t)")
  case True
  let ?w = "session_at c t"
  have c: "c < length (tn_sessions t)" using True session_in_range(1) by blast
  show ?thesis
  proof (cases "read_line (se_in ?w)")
    case None
    then show ?thesis using assms True by (simp add: onLine_def Let_def)
  next
    case (Some p)
    obtain line rest where p: "p = (line, rest)" by (cases p)
    let ?w' = "?w\<lparr>se_in := rest, se_wait := True\<rparr>"
    show ?thesis
    proof (cases "decode_telnet line")
      case None
      then show ?thesis
        using assms True Some p accounts_keep[of "?w\<lparr>se_in := rest\<rparr>" c t]
        by (simp add: onLine_def Let_def accounts_def)
    next
      case (Some m)
      obtain ty d where m: "m = (ty, d)" by (cases m)
      show ?thesis
      proof (cases "command_of c ty d")
        case None
        then show ?thesis
          using assms True Some m p \<open>read_line (se_in ?w) = Some p\<close> accounts_session[OF c, of ?w']
          by (simp add: onLine_def Let_def accounts_def)
      next
        case (Some cmd)
        let ?t = "t\<lparr>tn_queue := tn_queue t @ [cmd], tn_issued := tn_issued t @ [cmd]\<rparr>"
        have "c < length (tn_sessions ?t)" using c by simp
        with accounts_session[of c ?t ?w']
        have "timeouts (set_session c ?w' ?t) = timeouts t" "waiting (set_session c ?w' ?t) = Suc (waiting t)"
          using True by simp_all
        then show ?thesis
          using assms True Some m p \<open>read_line (se_in ?w) = Some (p)\<close> \<open>decode_telnet line = Some m\<close>
          by (simp add: onLine_def Let_def accounts_def)
      qed
    qed
  qed
next
  case False
  then show ?thesis using assms by (auto simp: onLine_def Let_def)
qed

lemma accounts_result:
  assumes "accounts t"
  shows "accounts (onResult c t)"
proof (cases "\<exists>r rs. tn_results t = r # rs \<and> se_wait (session_at c t)")
  case True
  then obtain r rs where r: "tn_results t = r # rs" "se_wait (session_at c t)" by blast
  let ?w = "(session_at c t)\<lparr>se_wait := False, se_out := se_out (session_at c t) @ [response_text r],
      se_late := se_late (session_at c t) @ [False]\<rparr>"
  let ?t = "t\<lparr>tn_results := rs, tn_taken := tn_taken t @ [(c, r)]\<rparr>"
  have "c < length (tn_sessions ?t)"
    using session_in_range(2)[OF r(2)] by simp
  with accounts_session[of c ?t ?w] r
  have "timeouts (set_session c ?w ?t) = timeouts t" "Suc (waiting (set_session c ?w ?t)) = waiting t"
    by simp_all
  then show ?thesis using assms r by (simp add: onResult_def Let_def accounts_def)
next
  case False
  then show ?thesis using assms by (auto simp: onResult_def Let_def split: list.split)
qed

lemma accounts_timeout:
  assumes "accounts t"
  shows "accounts (onWaitTimeout c t)"
proof (cases "se_wait (session_at c t) \<and> tn_results t = []")
  case True
  let ?w = "(session_at c t)\<lparr>se_wait := False, se_out := se_out (session_at c t) @ [''command timeout''],
      se_late := se_late (session_at c t) @ [True]\<rparr>"
  have "c < length (tn_sessions t)" using True session_in_range(2) by blast
  from accounts_session[OF this, of ?w] True
  have "timeouts (set_session c ?w t) = Suc (timeouts t)" "Suc (waiting (set_session c ?w t)) = waiting t"
    by simp_all
  then show ?thesis using assms True by (simp add: onWaitTimeout_def Let_def accounts_def)
qed (use assms in \<open>auto simp: onWaitTimeout_def Let_def\<close>)

lemma accounts_act:
  assumes "accounts t"
  shows "accounts (telnet_act release vm ev t)"
proof (cases ev)
  case Accept
  with assms show ?thesis
    by (simp add: accounts_def timeouts_def waiting_def session0_def)
next
  case (Input c s)
  with assms show ?thesis
    using accounts_keep[of "(session_at c t)\<lparr>se_in := se_in (session_at c t) @ s\<rparr>" c t]
    by (simp add: accounts_def Let_def)
next
  case (PeerClosed c)
  with assms show ?thesis
    using accounts_keep[of "(session_at c t)\<lparr>se_eof := True\<rparr>" c t] by (simp add: accounts_def)
next
  case (SessionEnd c)
  with assms show ?thesis
    using accounts_keep[of "(session_at c t)\<lparr>se_open := False\<rparr>" c
        "t\<lparr>tn_env := filter (\<lambda>d. d \<noteq> c) (tn_env t)\<rparr>"]
    by (simp add: accounts_def onSessionEnd_def Let_def)
next
  case RunCommand
  with assms show ?thesis
    by (simp add: accounts_def onRunCommand_def case_prod_beta' Let_def split: option.split list.split)
next
  case PushResult
  with assms show ?thesis
    by (simp add: accounts_def split: option.split)
next
  case DoCommands
  with assms show ?thesis by (simp add: accounts_def)
next
  case CommandsDone
  with assms show ?thesis by (simp add: accounts_def)
qed (use assms in \<open>simp_all add: accounts_line accounts_result accounts_timeout\<close>)

lemma accounts_run: "accounts (telnet_run release vm l evs)"
proof -
  have "accounts (fold (telnet_act release vm) evs t)" if "accounts t" for t
    using that by (induction evs arbitrary: t) (simp_all add: accounts_act del: telnet_act.simps)
  then show ?thesis by (simp add: telnet_run_def accounts_def telnet0_def)
qed

section \<open>What a connection gets\<close>

text \<open>The texts a connection writes, for which of its waits timed out and the results it took.\<close>

fun writes :: "bool list \<Rightarrow> string list \<Rightarrow> string list" where
  "writes [] rs = []"
| "writes (True # l) rs = ''command timeout'' # writes l rs"
| "writes (False # l) (r # rs) = response_text r # writes l rs"
| "writes (False # l) [] = []"

definition taken_by :: "nat \<Rightarrow> 'l telnet \<Rightarrow> string list" where
  "taken_by c t = map snd (filter (\<lambda>p. fst p = c) (tn_taken t))"

lemma writes_append:
  "length (filter Not l) = length rs \<Longrightarrow> writes (l @ [True]) rs = writes l rs @ [''command timeout'']"
  "length (filter Not l) = length rs \<Longrightarrow> writes (l @ [False]) (rs @ [r]) = writes l rs @ [response_text r]"
  by (induction l rs rule: writes.induct) auto

definition session_writes :: "session \<Rightarrow> string list \<Rightarrow> bool" where
  "session_writes w rs \<longleftrightarrow> se_out w = writes (se_late w) rs \<and> length (filter Not (se_late w)) = length rs"

definition all_written :: "'l telnet \<Rightarrow> bool" where
  "all_written t \<longleftrightarrow> (\<forall>c. session_writes (session_at c t) (taken_by c t))"

lemma session_at_set:
  "session_at d (set_session c w t) = (if d = c \<and> c < length (tn_sessions t) then w else session_at d t)"
  by (simp add: session_at_def set_session_def)

lemma written_keep:
  assumes "all_written t" and "se_out w = se_out (session_at c t)" and "se_late w = se_late (session_at c t)"
    and "tn_taken t' = tn_taken t" and "tn_sessions t' = tn_sessions t"
  shows "all_written (set_session c w t')"
proof -
  have "session_at d t' = session_at d t" for d using assms(5) by (simp add: session_at_def)
  moreover have "taken_by d (set_session c w t') = taken_by d t" for d by (simp add: taken_by_def assms(4))
  ultimately show ?thesis
    using assms(1-3) by (auto simp: all_written_def session_at_set session_writes_def)
qed

lemma written_frame:
  assumes "all_written t" and "tn_taken t' = tn_taken t" and "tn_sessions t' = tn_sessions t"
  shows "all_written t'"
proof -
  have "session_at d t' = session_at d t" "taken_by d t' = taken_by d t" for d
    using assms(2,3) by (simp_all add: session_at_def taken_by_def)
  then show ?thesis using assms(1) by (simp add: all_written_def)
qed

lemma written_line: "all_written t \<Longrightarrow> all_written (onLine c t)"
  by (auto simp: onLine_def Let_def intro!: written_keep split: option.split)

lemma written_result:
  assumes "all_written t"
  shows "all_written (onResult c t)"
proof (cases "\<exists>r rs. tn_results t = r # rs \<and> se_wait (session_at c t)")
  case True
  then obtain r rs where r: "tn_results t = r # rs" "se_wait (session_at c t)" by blast
  have c: "c < length (tn_sessions t)" using r(2) session_in_range(2) by blast
  let ?w = "(session_at c t)\<lparr>se_wait := False, se_out := se_out (session_at c t) @ [response_text r],
      se_late := se_late (session_at c t) @ [False]\<rparr>"
  let ?t = "set_session c ?w (t\<lparr>tn_results := rs, tn_taken := tn_taken t @ [(c, r)]\<rparr>)"
  have "session_writes (session_at d ?t) (taken_by d ?t)" for d
  proof (cases "d = c")
    case True
    have "session_writes (session_at c t) (taken_by c t)" using assms by (simp add: all_written_def)
    then have "session_writes ?w (taken_by c t @ [r])"
      by (simp add: session_writes_def writes_append(2))
    then show ?thesis using True c by (simp add: session_at_set taken_by_def)
  next
    case False
    then show ?thesis
      using assms by (simp add: session_at_set all_written_def taken_by_def)
  qed
  then show ?thesis using r by (simp add: onResult_def Let_def all_written_def)
next
  case False
  then show ?thesis using assms by (auto simp: onResult_def Let_def split: list.split)
qed

lemma written_timeout:
  assumes "all_written t"
  shows "all_written (onWaitTimeout c t)"
proof (cases "se_wait (session_at c t) \<and> tn_results t = []")
  case True
  then have c: "c < length (tn_sessions t)" using session_in_range(2) by blast
  let ?w = "(session_at c t)\<lparr>se_wait := False, se_out := se_out (session_at c t) @ [''command timeout''],
      se_late := se_late (session_at c t) @ [True]\<rparr>"
  have "session_writes (session_at d (set_session c ?w t)) (taken_by d (set_session c ?w t))" for d
  proof (cases "d = c")
    case True
    have "session_writes (session_at c t) (taken_by c t)" using assms by (simp add: all_written_def)
    then have "session_writes ?w (taken_by c t)"
      by (simp add: session_writes_def writes_append(1))
    then show ?thesis using True c by (simp add: session_at_set taken_by_def)
  next
    case False
    then show ?thesis
      using assms by (simp add: session_at_set all_written_def taken_by_def)
  qed
  then show ?thesis using True by (simp add: onWaitTimeout_def Let_def all_written_def)
qed (use assms in \<open>auto simp: onWaitTimeout_def Let_def\<close>)

text \<open>Nobody took a result before it was connected.\<close>

definition takers_known :: "'l telnet \<Rightarrow> bool" where
  "takers_known t \<longleftrightarrow> (\<forall>p \<in> set (tn_taken t). fst p < length (tn_sessions t))"

lemma takers_act: "takers_known t \<Longrightarrow> takers_known (telnet_act release vm ev t)"
  using session_in_range(2)
  by (cases ev) (fastforce simp: takers_known_def onLine_def onResult_def onWaitTimeout_def onSessionEnd_def
      onRunCommand_def Let_def case_prod_beta' split: option.split list.split)+

lemma written_accept:
  assumes "all_written t" and "takers_known t"
  shows "all_written (t\<lparr>tn_sessions := tn_sessions t @ [session0]\<rparr>)"
  unfolding all_written_def
proof
  fix d
  let ?t = "t\<lparr>tn_sessions := tn_sessions t @ [session0]\<rparr>"
  have s: "session_writes (session_at d t) (taken_by d t)" using assms(1) by (simp add: all_written_def)
  have "taken_by d ?t = taken_by d t" by (simp add: taken_by_def)
  moreover have "taken_by d t = []" if "\<not> d < length (tn_sessions t)"
    using assms(2) that by (auto simp: taken_by_def takers_known_def filter_empty_conv)
  ultimately show "session_writes (session_at d ?t) (taken_by d ?t)"
    using s by (auto simp: session_at_def nth_append session0_def session_writes_def)
qed

lemma written_act:
  assumes "all_written t" and "takers_known t"
  shows "all_written (telnet_act release vm ev t)"
proof (cases ev)
  case (ReadLine c)
  with assms show ?thesis by (simp add: written_line)
next
  case (TakeResult c)
  with assms show ?thesis by (simp add: written_result)
next
  case (WaitTimeout c)
  with assms show ?thesis by (simp add: written_timeout)
next
  case Accept
  with assms show ?thesis by (simp add: written_accept)
next
  case (SessionEnd c)
  with assms show ?thesis
    by (auto simp: onSessionEnd_def Let_def intro!: written_keep[OF assms(1)])
next
  case (Input c s)
  with assms show ?thesis by (auto simp: Let_def intro!: written_keep[OF assms(1)])
next
  case (PeerClosed c)
  with assms show ?thesis by (auto intro!: written_keep[OF assms(1)])
next
  case RunCommand
  with assms show ?thesis
    by (auto simp: onRunCommand_def Let_def case_prod_beta' intro: written_frame[OF assms(1)]
        split: option.split list.split)
qed (auto intro: written_frame[OF assms(1)] simp: assms(1) split: option.split)

lemma written_run: "all_written (telnet_run release vm l evs)"
proof -
  have "all_written (fold (telnet_act release vm) evs t)" if "all_written t" "takers_known t" for t
    using that
    by (induction evs arbitrary: t) (simp_all add: written_act takers_act del: telnet_act.simps)
  then show ?thesis
    by (simp add: telnet_run_def all_written_def telnet0_def session_at_def taken_by_def session_writes_def
        session0_def takers_known_def)
qed

text \<open>
  C11.  The results of the commands are handed out in the order in which the commands were queued, each
  to whichever connection waits then: whatever the connections and the main thread do, the results
  taken so far are a prefix of what running the queued commands gives, and a connection writes what it
  took, or that its command timed out, never an empty text.
\<close>

theorem telnet_fifo:
  "let t = telnet_run release vm l evs in
    prefix (map snd (tn_taken t)) (fst (run_all release vm (tn_issued t) l))
    \<and> (\<forall>c. se_out (session_at c t) = writes (se_late (session_at c t)) (taken_by c t)
         \<and> '''' \<notin> set (se_out (session_at c t)))"
proof -
  let ?t = "telnet_run release vm l evs"
  obtain ran where "tn_issued ?t = ran @ running_list (tn_running ?t) @ tn_queue ?t"
    "fst (run_all release vm ran l) = map snd (tn_taken ?t) @ tn_results ?t @ hand_list (tn_hand ?t)"
    using fifo_run[of release vm l evs] unfolding fifo_def by (metis fst_conv)
  then have "prefix (map snd (tn_taken ?t)) (fst (run_all release vm (tn_issued ?t) l))"
    by (simp add: run_all_append Let_def case_prod_beta')
  moreover have "'''' \<notin> set (writes l' rs)" for l' rs
    by (induction l' rs rule: writes.induct) (auto simp: response_text_def)
  ultimately show ?thesis
    using written_run[of release vm l evs] by (simp add: all_written_def session_writes_def Let_def)
qed

section \<open>A main thread that stops\<close>

text \<open>Only the admin process writes to the port: whole lines, of the four types.\<close>

definition admin_text :: "string \<Rightarrow> bool" where
  "admin_text s \<longleftrightarrow> (\<exists>ty \<in> {1, 2, 3, 4}. \<exists>d. s = telnet_text ty d)"

fun admin_event :: "telnet_event \<Rightarrow> bool" where
  "admin_event (Input c s) = admin_text s"
| "admin_event _ = True"

definition admin_lines :: "string \<Rightarrow> bool" where
  "admin_lines s \<longleftrightarrow> (\<exists>ts. s = concat ts \<and> (\<forall>u \<in> set ts. admin_text u))"

definition only_admin :: "'l telnet \<Rightarrow> bool" where
  "only_admin t \<longleftrightarrow> (\<forall>w \<in> set (tn_sessions t). admin_lines (se_in w))"

lemma admin_lines_Nil [simp]: "admin_lines []"
  unfolding admin_lines_def by (intro exI[of _ "[]"]) simp

lemma admin_lines_append: "admin_lines s \<Longrightarrow> admin_text u \<Longrightarrow> admin_lines (s @ u)"
proof -
  assume "admin_lines s" and u: "admin_text u"
  then obtain ts where "s = concat ts" "\<forall>u \<in> set ts. admin_text u" by (auto simp: admin_lines_def)
  with u show ?thesis unfolding admin_lines_def by (intro exI[of _ "ts @ [u]"]) auto
qed

text \<open>Reading a line of the admin process always gives a command.\<close>

lemma admin_line_read:
  assumes "admin_lines s" and "read_line s = Some (line, rest)"
  shows "admin_lines rest \<and> (\<exists>ty d cmd. decode_telnet line = Some (ty, d) \<and> command_of c ty d = Some cmd)"
proof -
  obtain ts where ts: "s = concat ts" "\<forall>u \<in> set ts. admin_text u" using assms(1) by (auto simp: admin_lines_def)
  have "s \<noteq> []" using assms(2) by (auto simp: read_line_def split: if_splits)
  with ts obtain u us where us: "ts = u # us" by (cases ts) auto
  then obtain ty d where u: "ty \<in> {1, 2, 3, 4}" "u = telnet_text ty d" using ts(2) by (auto simp: admin_text_def)
  then have "line = telnet_line ty d" "rest = concat us"
    using assms(2) ts(1) us by (simp_all add: read_line_text)
  moreover have "ty \<le> 4" using u(1) by auto
  moreover have "admin_lines (concat us)" using ts(2) us by (auto simp: admin_lines_def)
  moreover have "\<exists>cmd. command_of c (int ty) (tabs d) = Some cmd" using u(1) by (auto simp: command_of_def)
  ultimately show ?thesis using decode_telnet_line[of ty d] by blast
qed

lemma session_lines: "only_admin t \<Longrightarrow> admin_lines (se_in (session_at c t))"
  by (simp add: only_admin_def session_at_def session0_def)

lemma only_admin_set:
  assumes "only_admin t" and "admin_lines (se_in w)" and "tn_sessions t' = tn_sessions t"
  shows "only_admin (set_session c w t')"
  using assms set_update_subset_insert[of "tn_sessions t" c w]
  by (auto simp: only_admin_def)

lemma only_admin_act:
  assumes "only_admin t" and "admin_event ev"
  shows "only_admin (telnet_act release vm ev t)"
proof (cases ev)
  case (ReadLine c)
  have "only_admin (onLine c t)"
    using assms(1) admin_line_read[OF session_lines[OF assms(1), of c]]
    by (auto simp: onLine_def Let_def intro!: only_admin_set[OF assms(1)] split: option.split)
  with ReadLine show ?thesis by simp
next
  case (Input c s)
  with assms show ?thesis
    by (auto simp: Let_def intro!: only_admin_set[OF assms(1)] admin_lines_append session_lines)
next
  case (TakeResult c)
  with assms show ?thesis
    by (auto simp: onResult_def Let_def intro!: only_admin_set[OF assms(1)] session_lines split: list.split)
next
  case (WaitTimeout c)
  with assms show ?thesis
    by (auto simp: onWaitTimeout_def Let_def intro!: only_admin_set[OF assms(1)] session_lines)
next
  case (SessionEnd c)
  with assms show ?thesis
    by (auto simp: onSessionEnd_def Let_def intro!: only_admin_set[OF assms(1)] session_lines)
next
  case (PeerClosed c)
  with assms show ?thesis by (auto intro!: only_admin_set[OF assms(1)] session_lines)
next
  case Accept
  with assms show ?thesis by (auto simp: only_admin_def session0_def)
next
  case RunCommand
  with assms show ?thesis
    by (simp add: only_admin_def onRunCommand_def Let_def case_prod_beta' split: option.split list.split)
qed (use assms in \<open>auto simp: only_admin_def split: option.split\<close>)

text \<open>The main thread is blocked: it holds the lock and a result for which the channel has no room, and nobody waits.\<close>

definition blocked :: "'l telnet \<Rightarrow> bool" where
  "blocked t \<longleftrightarrow> tn_running t \<noteq> None \<and> tn_hand t \<noteq> None \<and> length (tn_results t) = result_capacity
     \<and> waiting t = 0"

lemma nobody_waits: "waiting t = 0 \<Longrightarrow> \<not> se_wait (session_at c t)"
  by (auto simp: waiting_def session_at_def session0_def filter_empty_conv)

definition written_texts :: "'l telnet \<Rightarrow> nat \<Rightarrow> string list" where
  "written_texts t c = se_out (session_at c t)"

lemma written_texts_set:
  "se_out w = se_out (session_at c t) \<Longrightarrow> written_texts (set_session c w t) = written_texts t"
  by (auto simp: written_texts_def session_at_set fun_eq_iff)

lemma blocked_set:
  assumes "blocked t" and "\<not> se_wait w" and "se_late w = se_late (session_at c t)"
    and "se_out w = se_out (session_at c t)"
  shows "blocked (set_session c w t) \<and> tn_lua (set_session c w t) = tn_lua t
    \<and> written_texts (set_session c w t) = written_texts t"
proof -
  have "\<not> se_wait (session_at c t)" using assms(1) nobody_waits[of t c] by (simp add: blocked_def)
  then have "waiting (set_session c w t) = waiting t"
    using accounts_keep(2)[of w c t] assms by simp
  with assms written_texts_set[OF assms(4)] show ?thesis by (simp add: blocked_def)
qed

lemma blocked_act:
  assumes "blocked t" and "only_admin t"
  shows "blocked (telnet_act release vm ev t) \<and> tn_lua (telnet_act release vm ev t) = tn_lua t
    \<and> written_texts (telnet_act release vm ev t) = written_texts t"
proof (cases ev)
  case (ReadLine c)
  let ?w = "session_at c t"
  show ?thesis
  proof (cases "\<exists>line rest. read_line (se_in ?w) = Some (line, rest)")
    case True
    then obtain line rest where r: "read_line (se_in ?w) = Some (line, rest)" by blast
    from admin_line_read[OF session_lines[OF assms(2)] r, of c]
    obtain ty d cmd where "decode_telnet line = Some (ty, d)" "command_of c ty d = Some cmd" by blast
    with r assms(1) have "onLine c t = t" by (simp add: onLine_def Let_def blocked_def)
    with assms ReadLine show ?thesis by simp
  next
    case False
    then have "onLine c t = t" by (auto simp: onLine_def Let_def split: option.split)
    with assms ReadLine show ?thesis by simp
  qed
next
  case (Input c s)
  then show ?thesis
    using assms(1) nobody_waits[of t c]
      blocked_set[OF assms(1), of "(session_at c t)\<lparr>se_in := se_in (session_at c t) @ s\<rparr>" c]
    by (simp add: Let_def blocked_def)
next
  case (PeerClosed c)
  then show ?thesis
    using assms(1) nobody_waits[of t c] blocked_set[OF assms(1), of "(session_at c t)\<lparr>se_eof := True\<rparr>" c]
    by (simp add: blocked_def)
next
  case (SessionEnd c)
  let ?t = "t\<lparr>tn_env := filter (\<lambda>d. d \<noteq> c) (tn_env t)\<rparr>"
  have "blocked ?t" "written_texts ?t = written_texts t"
    using assms(1) by (simp_all add: blocked_def written_texts_def fun_eq_iff)
  with SessionEnd show ?thesis
    using assms(1) nobody_waits[of t c] blocked_set[of ?t "(session_at c t)\<lparr>se_open := False\<rparr>" c]
    by (simp add: onSessionEnd_def Let_def blocked_def)
next
  case (TakeResult c)
  have "onResult c t = t"
    using assms(1) nobody_waits[of t c] by (auto simp: onResult_def Let_def blocked_def split: list.split)
  with TakeResult assms(1) show ?thesis by simp
next
  case (WaitTimeout c)
  then show ?thesis
    using assms(1) nobody_waits[of t c] by (simp add: onWaitTimeout_def Let_def blocked_def)
next
  case Accept
  then show ?thesis
    using assms(1)
    by (auto simp: blocked_def waiting_def session0_def written_texts_def session_at_def fun_eq_iff nth_append)
next
  case RunCommand
  then show ?thesis using assms(1) by (auto simp: blocked_def onRunCommand_def)
qed (use assms in \<open>auto simp: blocked_def result_capacity_def\<close>)

lemma blocked_for_ever:
  assumes "blocked t" and "only_admin t" and "\<forall>ev \<in> set evs. admin_event ev"
  shows "blocked (fold (telnet_act release vm) evs t) \<and> tn_lua (fold (telnet_act release vm) evs t) = tn_lua t
    \<and> written_texts (fold (telnet_act release vm) evs t) = written_texts t"
  using assms
proof (induction evs arbitrary: t)
  case (Cons ev evs)
  have "blocked (telnet_act release vm ev t)" "only_admin (telnet_act release vm ev t)"
    using blocked_act[OF Cons.prems(1,2)] only_admin_act[OF Cons.prems(2)] Cons.prems(3) by simp_all
  then show ?case
    using Cons.IH[of "telnet_act release vm ev t"] Cons.prems blocked_act[OF Cons.prems(1,2), of release vm ev]
    by (simp del: telnet_act.simps)
qed simp

lemma only_admin_run:
  assumes "\<forall>ev \<in> set evs. admin_event ev"
  shows "only_admin (telnet_run release vm l evs)"
proof -
  have "only_admin (fold (telnet_act release vm) evs t)" if "only_admin t" for t
    using that assms
    by (induction evs arbitrary: t) (simp_all add: only_admin_act del: telnet_act.simps)
  moreover have "only_admin (telnet0 l)" by (simp add: only_admin_def telnet0_def)
  ultimately show ?thesis unfolding telnet_run_def by blast
qed

lemma results_accounted:
  fixes release vm l evs
  defines "t \<equiv> telnet_run release vm l evs"
  shows "length (tn_results t) + length (hand_list (tn_hand t)) \<le> timeouts t + waiting t"
proof -
  obtain ran where r: "tn_issued t = ran @ running_list (tn_running t) @ tn_queue t"
    "fst (run_all release vm ran l) = map snd (tn_taken t) @ tn_results t @ hand_list (tn_hand t)"
    using fifo_run[of release vm l evs] unfolding fifo_def t_def by (metis fst_conv)
  have "length (map snd (tn_taken t) @ tn_results t @ hand_list (tn_hand t)) \<le> length ran"
    using run_all_length[of release vm ran l] unfolding r(2) .
  moreover have "length ran \<le> length (tn_issued t)" unfolding r(1) by simp
  moreover have "accounts t" unfolding t_def by (rule accounts_run)
  ultimately show ?thesis by (simp add: accounts_def)
qed

text \<open>
  C10.  If nothing but the admin process's commands comes in, the main thread of the game can only come
  to a stop with a result that it cannot deliver when more commands have timed out than the channel
  holds; then it has stopped for ever: whatever happens, the interpreter does not run again and no
  connection is answered, because queuing a command needs the lock that the main thread holds.
\<close>

theorem main_thread_stops:
  assumes "\<forall>ev \<in> set evs. admin_event ev" and "\<forall>ev \<in> set evs'. admin_event ev"
    and "blocked (telnet_run release vm l evs)"
  shows "result_capacity < timeouts (telnet_run release vm l evs)
    \<and> (let t = telnet_run release vm l evs; t' = telnet_run release vm l (evs @ evs') in
       blocked t' \<and> tn_lua t' = tn_lua t \<and> (\<forall>c. se_out (session_at c t') = se_out (session_at c t)))"
proof
  let ?t = "telnet_run release vm l evs"
  obtain r where "tn_hand ?t = Some r" "length (tn_results ?t) = result_capacity" "waiting ?t = 0"
    using assms(3) by (auto simp: blocked_def)
  then show "result_capacity < timeouts ?t"
    using results_accounted[of release vm l evs] by simp
  have "telnet_run release vm l (evs @ evs') = fold (telnet_act release vm) evs' ?t"
    by (simp add: telnet_run_def)
  with blocked_for_ever[OF assms(3) only_admin_run[OF assms(1)] assms(2), of release vm]
  show "let t = ?t; t' = telnet_run release vm l (evs @ evs') in
       blocked t' \<and> tn_lua t' = tn_lua t \<and> (\<forall>c. se_out (session_at c t') = se_out (session_at c t))"
    by (simp add: Let_def written_texts_def fun_eq_iff)
qed

text \<open>
  It does come to this: after a pause of the main thread in which one connection has sent 101 reload
  commands, each after the timeout of the one before.
\<close>

definition idle_vm :: "unit lua_vm" where
  "idle_vm = \<lparr>vm_reload = (\<lambda>l. (None, l)), vm_has_stub = (\<lambda>l. False), vm_gm_list = (\<lambda>l. (Inr None, l)),
     vm_gm = (\<lambda>s l. (Inr '''', l)), vm_load = (\<lambda>s. None), vm_run = (\<lambda>s l. (Inr '''', l))\<rparr>"

definition impatient :: "nat \<Rightarrow> telnet_event list" where
  "impatient n = Accept # concat (replicate n [Input 0 (telnet_text 4 ''''), ReadLine 0, WaitTimeout 0])"

definition after_pause :: "nat \<Rightarrow> telnet_event list" where
  "after_pause n = DoCommands # concat (replicate n [RunCommand, PushResult])"

definition impatient_state :: "nat \<Rightarrow> unit telnet" where
  "impatient_state n = (telnet0 ())\<lparr>tn_sessions := [session0\<lparr>se_out := replicate n ''command timeout'',
       se_late := replicate n True\<rparr>],
     tn_queue := replicate n Reload, tn_issued := replicate n Reload\<rparr>"

lemma concat_replicate_snoc: "concat (replicate (Suc n) xs) = concat (replicate n xs) @ xs"
  by (induction n) simp_all

lemma read_reload: "read_line (telnet_text 4 '''') = Some (telnet_line 4 '''', '''')"
  using read_line_text[of 4 "''''" "''''"] by simp

lemma impatient_round:
  "telnet_act False idle_vm (WaitTimeout 0) (telnet_act False idle_vm (ReadLine 0)
     (telnet_act False idle_vm (Input 0 (telnet_text 4 '''')) (impatient_state n))) = impatient_state (Suc n)"
  using decode_telnet_line[of 4 "''''"]
  by (simp add: impatient_state_def telnet0_def session0_def session_at_def set_session_def onLine_def
      onWaitTimeout_def read_reload command_of_def replicate_append_same Let_def)

lemma impatient_run: "fold (telnet_act False idle_vm) (impatient n) (telnet0 ()) = impatient_state n"
proof (induction n)
  case 0
  show ?case by (simp add: impatient_def impatient_state_def telnet0_def session0_def)
next
  case (Suc n)
  have "impatient (Suc n) = impatient n @ [Input 0 (telnet_text 4 ''''), ReadLine 0, WaitTimeout 0]"
    unfolding impatient_def concat_replicate_snoc by simp
  then show ?case using Suc impatient_round[of n] by (simp del: telnet_act.simps)
qed

definition paused_state :: "nat \<Rightarrow> nat \<Rightarrow> unit telnet" where
  "paused_state n k = (impatient_state (n + k))\<lparr>tn_queue := [], tn_running := Some (replicate n Reload),
     tn_results := replicate k ''reload success''\<rparr>"

lemma paused_round:
  assumes "k < result_capacity"
  shows "telnet_act False idle_vm PushResult (telnet_act False idle_vm RunCommand (paused_state (Suc n) k))
    = paused_state n (Suc k)"
  using assms
  by (simp add: paused_state_def impatient_state_def telnet0_def onRunCommand_def reloadHandler_def idle_vm_def
      replicate_append_same[of k] Let_def)

lemma paused_run:
  assumes "k \<le> result_capacity"
  shows "fold (telnet_act False idle_vm) (after_pause k) (impatient_state (n + k)) = paused_state n k"
  using assms
proof (induction k arbitrary: n)
  case 0
  show ?case by (simp add: after_pause_def paused_state_def impatient_state_def telnet0_def)
next
  case (Suc k)
  have "after_pause (Suc k) = after_pause k @ [RunCommand, PushResult]"
    unfolding after_pause_def concat_replicate_snoc by simp
  then show ?case
    using Suc.IH[of "Suc n"] Suc.prems paused_round[of k n] by (simp del: telnet_act.simps)
qed

definition stopping_events :: "telnet_event list" where
  "stopping_events = impatient 101 @ after_pause 100 @ [RunCommand]"

lemma stopping_blocked: "blocked (telnet_run False idle_vm () stopping_events)"
proof -
  have "telnet_run False idle_vm () stopping_events =
      telnet_act False idle_vm RunCommand (paused_state 1 100)"
    using impatient_run[of 101] paused_run[of 100 1]
    by (simp add: telnet_run_def stopping_events_def result_capacity_def del: telnet_act.simps)
  then show ?thesis
    by (simp add: paused_state_def impatient_state_def telnet0_def onRunCommand_def reloadHandler_def
        idle_vm_def blocked_def result_capacity_def waiting_def session0_def Let_def)
qed

lemma stopping_admin: "\<forall>ev \<in> set stopping_events. admin_event ev"
proof -
  have "admin_text (telnet_text 4 '''')" unfolding admin_text_def by blast
  then show ?thesis by (auto simp: stopping_events_def impatient_def after_pause_def)
qed

theorem main_thread_stops_witness:
  "blocked (telnet_run False idle_vm () (stopping_events @ [Input 0 (telnet_text 4 ''''), ReadLine 0, WaitTimeout 0]))
   \<and> result_capacity < timeouts (telnet_run False idle_vm () stopping_events)"
proof -
  have "admin_text (telnet_text 4 '''')" unfolding admin_text_def by blast
  then show ?thesis
    using main_thread_stops[OF stopping_admin _ stopping_blocked,
        of "[Input 0 (telnet_text 4 ''''), ReadLine 0, WaitTimeout 0]"]
    by (simp add: Let_def)
qed

end
