(* ===== verification/GameChain.thy ===== *)
theory GameChain
  imports CommandOrder TelnetProps
begin

text \<open>
  A console command all the way: from the page through the admin process to the game process's
  debugging port and back.  One page sends commands to one game process; the bytes between the two
  processes come in any pieces, each answer of the game is read as one message (as in \<open>CommandOrder\<close>),
  and the three-second and the five-second timeout can strike whenever they can.
\<close>

section \<open>The system\<close>

text \<open>\<open>ch_sent\<close>: how many bytes of the commands the game has got; \<open>ch_asked\<close>: the page's commands.\<close>

record 'l chain =
  ch_order :: order_state
  ch_game :: "'l telnet"
  ch_sent :: nat
  ch_asked :: "string list"

datatype chain_event =
    Ask string                      \<comment> \<open>a frame of the page\<close>
  | AdminDoes admin_event
  | Deliver nat                     \<comment> \<open>some of the bytes reach the game\<close>
  | GameDoes telnet_event
  | AdminReads
  | AdminTakes
  | AdminTimesOut

definition chain0 :: "string option \<Rightarrow> 'l \<Rightarrow> 'l chain" where
  "chain0 f l = \<lparr>ch_order = order0 f, ch_game = (telnet0 l)\<lparr>tn_sessions := [session0]\<rparr>, ch_sent = 0, ch_asked = []\<rparr>"

text \<open>The command that a frame asks for.\<close>

definition asked_command :: "string \<Rightarrow> string \<Rightarrow> string option" where
  "asked_command target t =
     (case decode_message t of
        Decoded m \<Rightarrow>
          (case wm_data m of Str d \<Rightarrow> if wm_type m = ''message'' \<and> wm_target m = target then Some d else None
           | _ \<Rightarrow> None)
      | _ \<Rightarrow> None)"

fun admin_internal :: "admin_event \<Rightarrow> bool" where
  "admin_internal (Handle c e) = (c = 0 \<and> en_write e = None)"
| "admin_internal (Resume c e) = (c = 0 \<and> en_write e = None)"
| "admin_internal Tick = True"
| "admin_internal _ = False"

fun game_internal :: "telnet_event \<Rightarrow> bool" where
  "game_internal Accept = False"
| "game_internal (Input c s) = False"
| "game_internal (PeerClosed c) = False"
| "game_internal (SessionEnd c) = False"
| "game_internal (ReadLine c) = (c = 0)"
| "game_internal (TakeResult c) = (c = 0)"
| "game_internal (WaitTimeout c) = (c = 0)"
| "game_internal _ = True"

definition stream :: "admin \<Rightarrow> string" where
  "stream a = concat (map snd (wire a))"

definition game_out :: "'l chain \<Rightarrow> string list" where
  "game_out s = se_out (session_at 0 (ch_game s))"

fun chain_act ::
  "(string \<Rightarrow> bool) \<Rightarrow> string \<Rightarrow> bool \<Rightarrow> 'l lua_vm \<Rightarrow> chain_event \<Rightarrow> 'l chain \<Rightarrow> 'l chain" where
  "chain_act telnet target release vm (Ask t) s =
     (let o1 = ch_order s in
      case asked_command target t of None \<Rightarrow> s
      | Some d \<Rightarrow> s\<lparr>ch_order := o1\<lparr>ol_admin := admin_act telnet (Arrive 0 t) (ol_admin o1)\<rparr>,
                    ch_asked := ch_asked s @ [d]\<rparr>)"
| "chain_act telnet target release vm (AdminDoes ev) s =
     (let o1 = ch_order s in
      if admin_internal ev then s\<lparr>ch_order := o1\<lparr>ol_admin := admin_act telnet ev (ol_admin o1)\<rparr>\<rparr> else s)"
| "chain_act telnet target release vm (Deliver n) s =
     (let str = stream (ol_admin (ch_order s));
          k = min n (length str - ch_sent s)
      in s\<lparr>ch_game := telnet_act release vm (Input 0 (take k (drop (ch_sent s) str))) (ch_game s),
           ch_sent := ch_sent s + k\<rparr>)"
| "chain_act telnet target release vm (GameDoes ev) s =
     (if game_internal ev then
        let o1 = ch_order s;
            g = telnet_act release vm ev (ch_game s);
            new = drop (length (game_out s)) (se_out (session_at 0 g))
        in s\<lparr>ch_game := g,
             ch_order := o1\<lparr>ol_replies := ol_replies o1 @ new, ol_read := ol_read o1 + length new\<rparr>\<rparr>
      else s)"
| "chain_act telnet target release vm AdminReads s =
     (let o1 = ch_order s in
      case ol_replies o1 of [] \<Rightarrow> s
      | r # rs \<Rightarrow>
          if tick_hand (ol_admin o1) = None
          then s\<lparr>ch_order := o1\<lparr>ol_admin := admin_act telnet (OnMessage r) (ol_admin o1), ol_replies := rs\<rparr>\<rparr>
          else s)"
| "chain_act telnet target release vm AdminTakes s =
     (let o1 = ch_order s in
      case (ws_call (the_conn o1), tick_hand (ol_admin o1)) of
        (Waiting k, Some r) \<Rightarrow>
          s\<lparr>ch_order := o1\<lparr>ol_admin := admin_act telnet (TakeResponse 0) (ol_admin o1), ol_late := ol_late o1 @ [False]\<rparr>\<rparr>
      | _ \<Rightarrow> s)"
| "chain_act telnet target release vm AdminTimesOut s =
     (let o1 = ch_order s in
      case (ws_call (the_conn o1), tick_hand (ol_admin o1)) of
        (Waiting k, None) \<Rightarrow>
          s\<lparr>ch_order := o1\<lparr>ol_admin := admin_act telnet (Timeout 0) (ol_admin o1), ol_late := ol_late o1 @ [True]\<rparr>\<rparr>
      | _ \<Rightarrow> s)"

definition chain_run ::
  "(string \<Rightarrow> bool) \<Rightarrow> string \<Rightarrow> bool \<Rightarrow> 'l lua_vm \<Rightarrow> string option \<Rightarrow> 'l \<Rightarrow> chain_event list \<Rightarrow> 'l chain" where
  "chain_run telnet target release vm f l evs = fold (chain_act telnet target release vm) evs (chain0 f l)"

section \<open>The game reads what was asked\<close>

text \<open>The lines that the game's connection has read: it has answered them, or waits for the last one's result.\<close>

definition lines_read :: "'l chain \<Rightarrow> nat" where
  "lines_read s = length (game_out s) + (if se_wait (session_at 0 (ch_game s)) then 1 else 0)"

definition commands_out :: "admin \<Rightarrow> string list" where
  "commands_out a = map snd (wire a @ outBuffer a)"

definition queued_data :: "order_state \<Rightarrow> jsval list" where
  "queued_data o1 = map (\<lambda>q. case q of None \<Rightarrow> Undef | Some m \<Rightarrow> wm_data m) (ws_queue (the_conn o1))"

definition asked_inv :: "'l chain \<Rightarrow> bool" where
  "asked_inv s \<longleftrightarrow> (\<exists>n. commands_out (ol_admin (ch_order s)) = map (telnet_text 1) (take n (ch_asked s))
     \<and> queued_data (ch_order s) = map Str (drop n (ch_asked s)) \<and> n \<le> length (ch_asked s))"

definition game_inv :: "bool \<Rightarrow> 'l lua_vm \<Rightarrow> 'l \<Rightarrow> 'l chain \<Rightarrow> bool" where
  "game_inv release vm l s \<longleftrightarrow>
     (let g = ch_game s; w = session_at 0 g; m = lines_read s; str = stream (ol_admin (ch_order s)) in
      length (tn_sessions g) = 1 \<and> se_open w \<and> \<not> se_eof w
      \<and> fifo release vm l g \<and> all_written g \<and> takers_known g
      \<and> tn_issued g = map (\<lambda>d. Debug (tabs d) 0) (take m (ch_asked s)) \<and> m \<le> length (ch_asked s)
      \<and> m \<le> length (wire (ol_admin (ch_order s)))
      \<and> ch_sent s \<le> length str
      \<and> take (ch_sent s) str = concat (map (telnet_text 1) (take m (ch_asked s))) @ se_in w)"

section \<open>The admin process passes the commands on\<close>

lemma on_conn_wire [simp]: "wire (on_conn c f a) = wire a"
  by (simp add: on_conn_def)

lemma finish_wire [simp]: "wire (finish telnet e c ms r a) = wire a"
  by (simp add: finish_def ws_write_def set_call_def sendCommandToTarget_def connectTarget_def Let_def
      split: outcome.split option.split)

lemma admin_wire: "ev \<noteq> Tick \<Longrightarrow> wire (admin_act telnet ev a) = wire a"
  by (cases ev) (simp_all add: admin_act_def onArrive_def onHandle_def onResume_def onReceive_def onTimeout_def
      set_call_def case_prod_beta' Let_def split: option.split call_state.split list.split)

lemma admin_out_frame:
  "ev \<in> {Arrive c t, OnMessage r, TakeResponse c, Timeout c} \<Longrightarrow> outBuffer (admin_act telnet ev a) = outBuffer a"
  by (auto simp: admin_steps onReceive_def onTimeout_def split: option.split call_state.split)

lemma commands_out_tick: "commands_out (admin_act telnet Tick a) = commands_out a"
  by (simp add: commands_out_def admin_act_def)

lemma asked_handle:
  assumes inv: "order_inv target answer (ch_order s)" and known: "known_target telnet target"
    and e: "en_write e = None" and asked: "asked_inv s"
  shows "asked_inv (s\<lparr>ch_order := (ch_order s)\<lparr>ol_admin :=
    admin_act telnet (Handle 0 e) (ol_admin (ch_order s))\<rparr>\<rparr>)"
proof -
  let ?o = "ch_order s"
  obtain w where w: "ws_conns (ol_admin ?o) = [w]" "the_conn ?o = w" using inv_conn[OF inv] by blast
  have nc: "\<not> admin_crashed (ol_admin ?o)" using inv by (simp add: order_inv_def)
  show ?thesis
  proof (cases "ws_call w = Idle \<and> ws_queue w \<noteq> []")
    case True
    then obtain x q where q: "ws_queue w = x # q" by (cases "ws_queue w") auto
    then obtain m d where m: "x = Some m" "wm_type m = ''message''" "wm_target m = target" "wm_data m = Str d"
      using inv w by (auto simp: order_inv_def)
    have dis: "dispatcher e m f = (f, [], Command 1 target d (ForConsole m))" for f
      using m by (simp add: dispatcher_def onConsoleMessage_def)
    obtain n where n: "commands_out (ol_admin ?o) = map (telnet_text 1) (take n (ch_asked s))"
      "queued_data ?o = map Str (drop n (ch_asked s))" "n \<le> length (ch_asked s)"
      using asked by (auto simp: asked_inv_def)
    then have "Str d # map (\<lambda>q. case q of None \<Rightarrow> Undef | Some m \<Rightarrow> wm_data m) q = map Str (drop n (ch_asked s))"
      using w q m by (simp add: queued_data_def)
    then obtain ds where ds: "drop n (ch_asked s) = d # ds"
      "map (\<lambda>q. case q of None \<Rightarrow> Undef | Some m \<Rightarrow> wm_data m) q = map Str ds"
      by (cases "drop n (ch_asked s)") auto
    then have "n < length (ch_asked s)" by (cases "n < length (ch_asked s)") simp_all
    with ds have "take (Suc n) (ch_asked s) = take n (ch_asked s) @ [d]" "drop (Suc n) (ch_asked s) = ds"
      by (metis Cons_nth_drop_Suc list.inject take_Suc_conv_app_nth, metis Cons_nth_drop_Suc list.inject)
    with n ds w True q m nc known e \<open>n < length (ch_asked s)\<close> show ?thesis
      unfolding asked_inv_def
      by (intro exI[of _ "Suc n"])
        (auto simp: commands_out_def queued_data_def the_conn_def admin_steps onHandle_def dis
          sendCommandToTarget_def connectTarget_def)
  next
    case False
    with w nc have "admin_act telnet (Handle 0 e) (ol_admin ?o) = ol_admin ?o"
      by (auto simp: admin_act_def onHandle_def)
    with asked show ?thesis by (simp add: asked_inv_def)
  qed
qed

lemma asked_resume:
  assumes inv: "order_inv target answer (ch_order s)" and asked: "asked_inv s"
  shows "asked_inv (s\<lparr>ch_order := (ch_order s)\<lparr>ol_admin :=
    admin_act telnet (Resume 0 e) (ol_admin (ch_order s))\<rparr>\<rparr>)"
proof -
  let ?o = "ch_order s"
  obtain w where w: "ws_conns (ol_admin ?o) = [w]" "the_conn ?o = w" using inv_conn[OF inv] by blast
  have nc: "\<not> admin_crashed (ol_admin ?o)" using inv by (simp add: order_inv_def)
  show ?thesis
  proof (cases "\<exists>k r. ws_call w = Answered k r")
    case True
    then obtain k r where k: "ws_call w = Answered k r" by blast
    then obtain req where "k = ForConsole req"
      using inv w by (auto simp: order_inv_def call_inv_def Let_def)
    with asked w k nc show ?thesis
      by (simp add: asked_inv_def commands_out_def queued_data_def the_conn_def admin_steps onResume_def)
  next
    case False
    with w nc have "admin_act telnet (Resume 0 e) (ol_admin ?o) = ol_admin ?o"
      by (auto simp: admin_act_def onResume_def split: call_state.splits)
    with asked show ?thesis by (simp add: asked_inv_def)
  qed
qed

lemma asked_admin:
  assumes "order_inv target answer (ch_order s)" and "known_target telnet target" and "asked_inv s"
    and "admin_internal ev"
  shows "asked_inv (s\<lparr>ch_order := (ch_order s)\<lparr>ol_admin := admin_act telnet ev (ol_admin (ch_order s))\<rparr>\<rparr>)"
proof (cases ev)
  case (Handle c e)
  with assms asked_handle[OF assms(1,2) _ assms(3)] show ?thesis by simp
next
  case (Resume c e)
  with assms asked_resume[OF assms(1,3)] show ?thesis by simp
next
  case Tick
  have "queued_data ((ch_order s)\<lparr>ol_admin := admin_act telnet Tick (ol_admin (ch_order s))\<rparr>) = queued_data (ch_order s)"
    by (simp add: queued_data_def the_conn_def admin_act_def)
  with assms(3) Tick show ?thesis by (simp add: asked_inv_def commands_out_tick)
qed (use assms(4) in simp_all)

lemma asked_new:
  assumes inv: "order_inv target answer (ch_order s)" and asked: "asked_inv s"
    and t: "decode_message t = Decoded m" "wm_data m = Str d"
  shows "asked_inv (s\<lparr>ch_order := (ch_order s)\<lparr>ol_admin := admin_act telnet (Arrive 0 t) (ol_admin (ch_order s))\<rparr>,
    ch_asked := ch_asked s @ [d]\<rparr>)"
proof -
  let ?o = "ch_order s"
  obtain w where w: "ws_conns (ol_admin ?o) = [w]" "the_conn ?o = w" using inv_conn[OF inv] by blast
  have nc: "\<not> admin_crashed (ol_admin ?o)" "ws_open w" using inv w by (simp_all add: order_inv_def)
  obtain n where n: "commands_out (ol_admin ?o) = map (telnet_text 1) (take n (ch_asked s))"
      "queued_data ?o = map Str (drop n (ch_asked s))" "n \<le> length (ch_asked s)"
    using asked by (auto simp: asked_inv_def)
  with w nc t show ?thesis
    unfolding asked_inv_def
    by (intro exI[of _ n]) (simp add: commands_out_def queued_data_def the_conn_def admin_steps)
qed

lemma asked_call:
  assumes inv: "order_inv target answer (ch_order s)" and asked: "asked_inv s"
    and ev: "ev \<in> {OnMessage r, TakeResponse 0, Timeout 0}"
    and o1: "ol_admin o1 = admin_act telnet ev (ol_admin (ch_order s))"
  shows "asked_inv (s\<lparr>ch_order := o1\<rparr>)"
proof -
  let ?o = "ch_order s"
  obtain w where w: "ws_conns (ol_admin ?o) = [w]" "the_conn ?o = w" using inv_conn[OF inv] by blast
  have "queued_data o1 = queued_data ?o"
    using ev w by (auto simp: queued_data_def the_conn_def o1 admin_steps onReceive_def onTimeout_def
        split: option.split call_state.split)
  moreover have "commands_out (ol_admin o1) = commands_out (ol_admin ?o)"
    using ev admin_wire[of ev telnet "ol_admin ?o"] admin_out_frame[of ev 0 "''''" r telnet "ol_admin ?o"]
    by (auto simp: commands_out_def o1)
  ultimately show ?thesis using asked by (simp add: asked_inv_def)
qed

text \<open>What is on the wire are the first commands that were asked.\<close>

lemma wire_asked:
  assumes "asked_inv s"
  shows "map snd (wire (ol_admin (ch_order s))) = map (telnet_text 1) (take (length (wire (ol_admin (ch_order s)))) (ch_asked s))"
    and "length (wire (ol_admin (ch_order s))) \<le> length (ch_asked s)"
proof -
  let ?a = "ol_admin (ch_order s)"
  obtain n where n: "map snd (wire ?a) @ map snd (outBuffer ?a) = map (telnet_text 1) (take n (ch_asked s))"
    "n \<le> length (ch_asked s)"
    using assms by (auto simp: asked_inv_def commands_out_def)
  have len: "length (wire ?a) \<le> n" using arg_cong[OF n(1), of length] n(2) by simp
  then show "length (wire ?a) \<le> length (ch_asked s)" using n(2) by simp
  have "map snd (wire ?a) = take (length (wire ?a)) (map (telnet_text 1) (take n (ch_asked s)))"
    using arg_cong[OF n(1), of "take (length (wire ?a))"] by simp
  with len show "map snd (wire ?a) = map (telnet_text 1) (take (length (wire ?a)) (ch_asked s))"
    by (simp add: take_map min.absorb1)
qed

section \<open>The game reads the commands\<close>

lemma read_line_Some:
  assumes "read_line s = Some (line, rest)"
  shows "s = line @ line_feed # rest" and "line_feed \<notin> set line"
proof -
  have f: "line_feed \<in> set s" and line: "line = takeWhile (\<lambda>c. c \<noteq> line_feed) s"
    and rest: "rest = tl (dropWhile (\<lambda>c. c \<noteq> line_feed) s)"
    using assms by (auto simp: read_line_def split: if_splits)
  have "\<exists>c \<in> set s. \<not> c \<noteq> line_feed" using f by blast
  then have ne: "dropWhile (\<lambda>c. c \<noteq> line_feed) s \<noteq> []" by (simp add: dropWhile_eq_Nil_conv)
  then obtain x xs where x: "dropWhile (\<lambda>c. c \<noteq> line_feed) s = x # xs"
    by (cases "dropWhile (\<lambda>c. c \<noteq> line_feed) s") auto
  have "x = line_feed" using hd_dropWhile[OF ne] x by simp
  moreover have "s = takeWhile (\<lambda>c. c \<noteq> line_feed) s @ dropWhile (\<lambda>c. c \<noteq> line_feed) s" by simp
  ultimately show "s = line @ line_feed # rest" using line rest x by (metis list.sel(3))
  show "line_feed \<notin> set line" using line by (auto dest: set_takeWhileD)
qed

lemma read_line_cut: "line_feed \<notin> set s \<Longrightarrow> read_line (s @ line_feed # rest) = Some (s, rest)"
proof -
  assume "line_feed \<notin> set s"
  then have "\<forall>c \<in> set s. c \<noteq> line_feed" by auto
  then show ?thesis by (simp add: read_line_def takeWhile_append2 dropWhile_append2)
qed

lemma read_line_extend: "read_line s = Some (line, rest) \<Longrightarrow> read_line (s @ z) = Some (line, rest @ z)"
  using read_line_Some[of s line rest] read_line_cut[of line "rest @ z"] by simp

text \<open>A line read from a piece of the commands' text is the first of the commands.\<close>

lemma read_command:
  assumes "read_line s = Some (line, rest)" and "s @ z = concat (map (telnet_text ty) ds)"
  obtains d ds' where "ds = d # ds'" "line = telnet_line ty d" "s = telnet_text ty d @ rest"
proof -
  have "s \<noteq> []" using assms(1) by (auto simp: read_line_def split: if_splits)
  with assms(2) obtain d ds' where ds: "ds = d # ds'" by (cases ds) auto
  have "Some (line, rest @ z) = read_line (telnet_text ty d @ concat (map (telnet_text ty) ds'))"
    using read_line_extend[OF assms(1), of z] assms(2) ds by simp
  then have "line = telnet_line ty d" by (simp add: read_line_text)
  moreover have "s = telnet_text ty d @ rest"
    using read_line_Some(1)[OF assms(1)] calculation by (simp add: telnet_text_line)
  ultimately show thesis using ds that by blast
qed

lemma stream_asked:
  assumes "asked_inv s"
  shows "stream (ol_admin (ch_order s)) =
    concat (map (telnet_text 1) (take (length (wire (ol_admin (ch_order s)))) (ch_asked s)))"
  using wire_asked(1)[OF assms] by (simp add: stream_def)

text \<open>What one step of the game does to its connection.\<close>

lemma game_step_frame:
  "ev \<in> {DoCommands, RunCommand, PushResult, CommandsDone} \<Longrightarrow>
     tn_sessions (telnet_act release vm ev g) = tn_sessions g \<and> tn_issued (telnet_act release vm ev g) = tn_issued g"
  by (auto simp: onRunCommand_def Let_def case_prod_beta' split: option.split list.split)

lemma game_keep:
  assumes inv: "game_inv release vm l s" and g: "fifo release vm l g" "all_written g" "takers_known g"
    and s: "length (tn_sessions g) = 1" "tn_issued g = tn_issued (ch_game s)"
    and w: "w = session_at 0 g" "w0 = session_at 0 (ch_game s)" "se_open w = se_open w0" "se_eof w = se_eof w0"
      "se_in w = se_in w0"
      "length (se_out w) + (if se_wait w then 1 else 0) = length (se_out w0) + (if se_wait w0 then 1 else (0::nat))"
    and o1: "wire (ol_admin o1) = wire (ol_admin (ch_order s))"
  shows "game_inv release vm l (s\<lparr>ch_game := g, ch_order := o1\<rparr>)"
proof -
  have "lines_read (s\<lparr>ch_game := g, ch_order := o1\<rparr>) = lines_read s"
    using w by (simp add: lines_read_def game_out_def)
  with inv g s w o1 show ?thesis by (simp add: game_inv_def Let_def stream_def)
qed

lemma game_read:
  assumes inv: "game_inv release vm l s" and asked: "asked_inv s"
    and g: "g = telnet_act release vm (ReadLine 0) (ch_game s)"
    and o1: "wire (ol_admin o1) = wire (ol_admin (ch_order s))"
  shows "game_inv release vm l (s\<lparr>ch_game := g, ch_order := o1\<rparr>)
    \<and> se_out (session_at 0 g) = game_out s"
proof -
  let ?g = "ch_game s" let ?w = "session_at 0 ?g" let ?m = "lines_read s"
  let ?a = "ol_admin (ch_order s)"
  have i: "length (tn_sessions ?g) = 1" "se_open ?w" "\<not> se_eof ?w" "fifo release vm l ?g" "all_written ?g"
      "takers_known ?g" "tn_issued ?g = map (\<lambda>d. Debug (tabs d) 0) (take ?m (ch_asked s))"
      "?m \<le> length (ch_asked s)" "?m \<le> length (wire ?a)" "ch_sent s \<le> length (stream ?a)"
      "take (ch_sent s) (stream ?a) = concat (map (telnet_text 1) (take ?m (ch_asked s))) @ se_in ?w"
    using inv by (simp_all add: game_inv_def Let_def)
  have acts: "fifo release vm l g" "all_written g" "takers_known g"
    unfolding g by (rule fifo_act[OF i(4)] written_act[OF i(5,6)] takers_act[OF i(6)])+
  have g': "g = onLine 0 ?g" using g by simp
  show ?thesis
  proof (cases "g = ?g")
    case True
    with game_keep[OF inv acts, of "session_at 0 g" "session_at 0 ?g" o1] i(1) o1
    show ?thesis by (simp add: game_out_def)
  next
    case False
    then obtain line rest where r: "read_line (se_in ?w) = Some (line, rest)" "\<not> se_wait ?w"
      unfolding g' onLine_def Let_def by (auto split: if_splits option.splits)
    have "se_in ?w @ drop (ch_sent s) (stream ?a)
        = concat (map (telnet_text 1) (drop ?m (take (length (wire ?a)) (ch_asked s))))"
    proof -
      let ?ds = "take (length (wire ?a)) (ch_asked s)"
      have "stream ?a = concat (map (telnet_text 1) (take ?m ?ds @ drop ?m ?ds))"
        by (simp only: stream_asked[OF asked] append_take_drop_id)
      moreover have "take ?m ?ds = take ?m (ch_asked s)" using i(9) by (simp add: min.absorb1)
      moreover have "stream ?a = (concat (map (telnet_text 1) (take ?m (ch_asked s))) @ se_in ?w)
          @ drop (ch_sent s) (stream ?a)"
        unfolding i(11)[symmetric] by simp
      ultimately show ?thesis by simp
    qed
    from read_command[OF r(1) this] obtain d ds' where
      d: "drop ?m (take (length (wire ?a)) (ch_asked s)) = d # ds'" "line = telnet_line 1 d"
      "se_in ?w = telnet_text 1 d @ rest" .
    have m: "?m < length (wire ?a)" "?m < length (ch_asked s)"
    proof -
      have "?m < length (take (length (wire ?a)) (ch_asked s))"
        using d(1) by (metis drop_all leI list.distinct(1))
      then show "?m < length (wire ?a)" "?m < length (ch_asked s)" by simp_all
    qed
    have "d = take (length (wire ?a)) (ch_asked s) ! ?m"
      using d(1) by (metis hd_drop_conv_nth leI drop_all list.distinct(1) list.sel(1))
    then have dm: "ch_asked s ! ?m = d" using m by simp
    then have take: "take (Suc ?m) (ch_asked s) = take ?m (ch_asked s) @ [d]"
      using m(2) by (simp add: take_Suc_conv_app_nth)
    let ?w' = "?w\<lparr>se_in := rest, se_wait := True\<rparr>"
    have dec: "decode_telnet line = Some (1, tabs d)" "command_of 0 1 (tabs d) = Some (Debug (tabs d) 0)"
      using decode_telnet_line[of 1 d] d(2) by (simp_all add: command_of_def)
    have eq: "g = set_session 0 ?w' (?g\<lparr>tn_queue := tn_queue ?g @ [Debug (tabs d) 0],
        tn_issued := tn_issued ?g @ [Debug (tabs d) 0]\<rparr>)"
      using False r dec i(2) unfolding g' onLine_def Let_def by (auto split: if_splits)
    have w': "session_at 0 g = ?w'" using i(1) eq by (simp add: session_at_set)
    have out: "se_out (session_at 0 g) = game_out s" using w' by (simp add: game_out_def)
    have lines: "lines_read (s\<lparr>ch_game := g, ch_order := o1\<rparr>) = Suc ?m"
      using w' r(2) by (simp add: lines_read_def game_out_def)
    have "tn_issued g = map (\<lambda>d. Debug (tabs d) 0) (take (Suc ?m) (ch_asked s))" "length (tn_sessions g) = 1"
      using i(1,7) take by (simp_all add: eq)
    then show ?thesis
      using acts i(2,3,10,11) m out o1 d(3) take w'
      by (simp add: game_inv_def Let_def lines stream_def)
  qed
qed

lemma take_frame:
  "ev \<in> {TakeResult 0, WaitTimeout 0} \<Longrightarrow>
     length (tn_sessions (telnet_act release vm ev g)) = length (tn_sessions g)
     \<and> tn_issued (telnet_act release vm ev g) = tn_issued g"
  by (auto simp: onResult_def onWaitTimeout_def Let_def split: list.split)

lemma take_session:
  assumes "ev \<in> {TakeResult 0, WaitTimeout 0}"
  shows "session_at 0 (telnet_act release vm ev g) = session_at 0 g
    \<or> se_wait (session_at 0 g)
      \<and> (\<exists>x late. session_at 0 (telnet_act release vm ev g) =
          (session_at 0 g)\<lparr>se_wait := False, se_out := se_out (session_at 0 g) @ [x], se_late := late\<rparr>)"
proof (cases "se_wait (session_at 0 g)")
  case True
  then have "0 < length (tn_sessions g)" using session_in_range(2) by blast
  with assms True show ?thesis
    by (cases "tn_results g"; auto simp: onResult_def onWaitTimeout_def Let_def session_at_set; blast)
next
  case False
  then have "telnet_act release vm ev g = g"
    using assms by (auto simp: onResult_def onWaitTimeout_def Let_def split: list.split)
  then show ?thesis by simp
qed

lemma game_takes:
  assumes inv: "game_inv release vm l s" and ev: "ev \<in> {TakeResult 0, WaitTimeout 0}"
    and g: "g = telnet_act release vm ev (ch_game s)"
    and o1: "wire (ol_admin o1) = wire (ol_admin (ch_order s))"
  shows "game_inv release vm l (s\<lparr>ch_game := g, ch_order := o1\<rparr>)
    \<and> (se_out (session_at 0 g) = game_out s
       \<or> se_wait (session_at 0 (ch_game s)) \<and> (\<exists>x. se_out (session_at 0 g) = game_out s @ [x]))"
proof -
  let ?g = "ch_game s" let ?w = "session_at 0 ?g"
  have i: "length (tn_sessions ?g) = 1" "fifo release vm l ?g" "all_written ?g" "takers_known ?g"
    using inv by (simp_all add: game_inv_def Let_def)
  have acts: "fifo release vm l g" "all_written g" "takers_known g"
    unfolding g by (rule fifo_act[OF i(2)] written_act[OF i(3,4)] takers_act[OF i(4)])+
  have f: "length (tn_sessions g) = 1" "tn_issued g = tn_issued ?g"
    using take_frame[OF ev, of release vm ?g] i(1) g by simp_all
  note w = take_session[OF ev, of release vm ?g, folded g]
  then have "game_inv release vm l (s\<lparr>ch_game := g, ch_order := o1\<rparr>)"
    by (intro game_keep[OF inv acts f refl refl _ _ _ _ o1]) auto
  with w show ?thesis by (auto simp: game_out_def)
qed

lemma game_does:
  assumes inv: "game_inv release vm l s" and asked: "asked_inv s" and ev: "game_internal ev"
    and g: "g = telnet_act release vm ev (ch_game s)"
    and o1: "wire (ol_admin o1) = wire (ol_admin (ch_order s))"
  shows "game_inv release vm l (s\<lparr>ch_game := g, ch_order := o1\<rparr>)
    \<and> (se_out (session_at 0 g) = game_out s
       \<or> se_wait (session_at 0 (ch_game s)) \<and> (\<exists>x. se_out (session_at 0 g) = game_out s @ [x]))"
proof -
  consider "ev = ReadLine 0" | "ev \<in> {TakeResult 0, WaitTimeout 0}"
    | "ev \<in> {DoCommands, RunCommand, PushResult, CommandsDone}"
    using ev by (cases ev) auto
  then show ?thesis
  proof cases
    case 1
    with game_read[OF inv asked _ o1, of g] g show ?thesis by simp
  next
    case 2
    with game_takes[OF inv _ g o1] show ?thesis by simp
  next
    case 3
    have i: "length (tn_sessions (ch_game s)) = 1" "fifo release vm l (ch_game s)" "all_written (ch_game s)"
      "takers_known (ch_game s)"
      using inv by (simp_all add: game_inv_def Let_def)
    have acts: "fifo release vm l g" "all_written g" "takers_known g"
      unfolding g by (rule fifo_act[OF i(2)] written_act[OF i(3,4)] takers_act[OF i(4)])+
    have f: "tn_sessions g = tn_sessions (ch_game s)" "tn_issued g = tn_issued (ch_game s)"
      using game_step_frame[OF 3, of release vm "ch_game s"] g by simp_all
    then have w: "session_at 0 g = session_at 0 (ch_game s)" by (simp add: session_at_def)
    with f i(1) have "game_inv release vm l (s\<lparr>ch_game := g, ch_order := o1\<rparr>)"
      by (intro game_keep[OF inv acts _ _ refl refl _ _ _ _ o1]) simp_all
    with w show ?thesis by (simp add: game_out_def)
  qed
qed

section \<open>The whole system\<close>

text \<open>Answers that agree with what the game has written so far.\<close>

definition agrees :: "(nat \<Rightarrow> string) \<Rightarrow> 'l chain \<Rightarrow> bool" where
  "agrees answer s \<longleftrightarrow> (\<forall>i < length (game_out s). answer i = game_out s ! i)"

definition chain_inv ::
  "(string \<Rightarrow> bool) \<Rightarrow> string \<Rightarrow> bool \<Rightarrow> 'l lua_vm \<Rightarrow> 'l \<Rightarrow> 'l chain \<Rightarrow> bool" where
  "chain_inv telnet target release vm l s \<longleftrightarrow>
     asked_inv s \<and> game_inv release vm l s \<and> ol_read (ch_order s) = length (game_out s)
     \<and> (\<forall>answer. agrees answer s \<longrightarrow> order_reach telnet target answer (ch_order s))"

definition written_answer :: "'l chain \<Rightarrow> nat \<Rightarrow> string" where
  "written_answer s i = (if i < length (game_out s) then game_out s ! i else '''')"

lemma chain_order:
  assumes "chain_inv telnet target release vm l s" and "known_target telnet target"
  shows "order_inv target (written_answer s) (ch_order s)"
  using assms order_inv_reach[OF assms(2)] by (simp add: chain_inv_def agrees_def written_answer_def)

lemma game_inv_wire:
  assumes "game_inv release vm l s" and "wire (ol_admin o1) = wire (ol_admin (ch_order s)) @ ext"
    and "\<exists>ds. asked = ch_asked s @ ds"
  shows "game_inv release vm l (s\<lparr>ch_order := o1, ch_asked := asked\<rparr>)"
proof -
  have "lines_read (s\<lparr>ch_order := o1, ch_asked := asked\<rparr>) = lines_read s"
    by (simp add: lines_read_def game_out_def)
  then show ?thesis using assms by (auto simp: game_inv_def Let_def stream_def)
qed

text \<open>A step in which the game does nothing.\<close>

lemma chain_other:
  assumes inv: "chain_inv telnet target release vm l s"
    and o1: "\<And>answer. order_reach telnet target answer (ch_order s) \<Longrightarrow> order_reach telnet target answer o1"
    and "ol_read o1 = ol_read (ch_order s)"
    and "wire (ol_admin o1) = wire (ol_admin (ch_order s)) @ ext" and "asked = ch_asked s @ ds"
    and "asked_inv (s\<lparr>ch_order := o1, ch_asked := asked\<rparr>)"
  shows "chain_inv telnet target release vm l (s\<lparr>ch_order := o1, ch_asked := asked\<rparr>)"
  using inv assms game_inv_wire[of release vm l s o1 ext asked]
  by (simp add: chain_inv_def agrees_def game_out_def)

lemma chain_ask:
  assumes inv: "chain_inv telnet target release vm l s" and known: "known_target telnet target"
  shows "chain_inv telnet target release vm l (chain_act telnet target release vm (Ask t) s)"
proof (cases "asked_command target t")
  case (Some d)
  then obtain m where m: "decode_message t = Decoded m" "wm_data m = Str d" "wm_type m = ''message''"
    "wm_target m = target"
    by (auto simp: asked_command_def split: decoded.splits jsval.splits if_splits)
  then have "console_command target t" by (auto simp: console_command_def)
  let ?o = "(ch_order s)\<lparr>ol_admin := admin_act telnet (Arrive 0 t) (ol_admin (ch_order s))\<rparr>"
  have "chain_inv telnet target release vm l (s\<lparr>ch_order := ?o, ch_asked := ch_asked s @ [d]\<rparr>)"
  proof (rule chain_other[OF inv, where ext = "[]" and ds = "[d]"])
    fix answer
    assume "order_reach telnet target answer (ch_order s)"
    then show "order_reach telnet target answer ?o"
      using \<open>console_command target t\<close> by (blast intro: order_reach.step order_step.request)
  next
    show "asked_inv (s\<lparr>ch_order := ?o, ch_asked := ch_asked s @ [d]\<rparr>)"
      using inv asked_new[OF chain_order[OF inv known] _ m(1,2)] by (simp add: chain_inv_def)
  qed (simp_all add: admin_wire)
  with Some show ?thesis by (simp add: Let_def)
qed (use inv in simp)

lemma chain_admin:
  assumes inv: "chain_inv telnet target release vm l s" and known: "known_target telnet target"
  shows "chain_inv telnet target release vm l (chain_act telnet target release vm (AdminDoes ev) s)"
proof (cases "admin_internal ev")
  case True
  let ?o = "(ch_order s)\<lparr>ol_admin := admin_act telnet ev (ol_admin (ch_order s))\<rparr>"
  obtain ext where ext: "wire (ol_admin ?o) = wire (ol_admin (ch_order s)) @ ext"
  proof (cases "ev = Tick")
    case True
    then have "wire (ol_admin ?o) = wire (ol_admin (ch_order s)) \<or>
        wire (ol_admin ?o) = wire (ol_admin (ch_order s)) @ outBuffer (ol_admin (ch_order s))"
      by (simp add: admin_act_def)
    then show thesis using that[of "[]"] that by (metis append_Nil2)
  next
    case False
    then show thesis using that[of "[]"] by (simp add: admin_wire)
  qed
  have "chain_inv telnet target release vm l (s\<lparr>ch_order := ?o, ch_asked := ch_asked s\<rparr>)"
  proof (rule chain_other[OF inv _ _ ext, where ds = "[]"])
    fix answer
    assume r: "order_reach telnet target answer (ch_order s)"
    have "\<exists>e. en_write e = None \<and> ev \<in> {Handle 0 e, Resume 0 e, Tick}"
    proof (cases ev)
      case Tick
      moreover have "en_write quiet_env = None" by (simp add: quiet_env_def)
      ultimately show ?thesis by blast
    qed (use True in auto)
    then show "order_reach telnet target answer ?o"
      using r by (blast intro: order_reach.step order_step.handle)
  next
    show "asked_inv (s\<lparr>ch_order := ?o, ch_asked := ch_asked s\<rparr>)"
      using inv asked_admin[OF chain_order[OF inv known] known _ True] by (simp add: chain_inv_def)
  qed simp_all
  with True show ?thesis by (simp add: Let_def)
qed (use inv in simp)

lemma chain_deliver:
  assumes inv: "chain_inv telnet target release vm l s"
  shows "chain_inv telnet target release vm l (chain_act telnet target release vm (Deliver n) s)"
proof -
  let ?str = "stream (ol_admin (ch_order s))"
  let ?k = "min n (length ?str - ch_sent s)"
  let ?in = "take ?k (drop (ch_sent s) ?str)"
  let ?g = "telnet_act release vm (Input 0 ?in) (ch_game s)"
  let ?w = "session_at 0 (ch_game s)"
  let ?s = "s\<lparr>ch_game := ?g, ch_sent := ch_sent s + ?k\<rparr>"
  have g: "game_inv release vm l s" using inv by (simp add: chain_inv_def)
  then have i: "length (tn_sessions (ch_game s)) = 1" "se_open ?w" "\<not> se_eof ?w"
    "fifo release vm l (ch_game s)" "all_written (ch_game s)" "takers_known (ch_game s)"
    by (simp_all add: game_inv_def Let_def)
  have acts: "fifo release vm l ?g" "all_written ?g" "takers_known ?g"
    by (rule fifo_act[OF i(4)] written_act[OF i(5,6)] takers_act[OF i(6)])+
  have w: "session_at 0 ?g = ?w\<lparr>se_in := se_in ?w @ ?in\<rparr>" "length (tn_sessions ?g) = 1"
    "tn_issued ?g = tn_issued (ch_game s)"
    using i by (simp_all add: session_at_set Let_def)
  then have "lines_read ?s = lines_read s" by (simp add: lines_read_def game_out_def)
  moreover have "take (ch_sent s + ?k) ?str = take (ch_sent s) ?str @ ?in" by (rule take_add)
  moreover have "ch_sent s \<le> length ?str" using g by (simp add: game_inv_def Let_def)
  then have "ch_sent s + ?k \<le> length ?str" by linarith
  ultimately have "game_inv release vm l ?s"
    using g acts w i(2,3) by (simp add: game_inv_def Let_def del: telnet_act.simps)
  moreover have "game_out ?s = game_out s" using w by (simp add: game_out_def)
  ultimately have "chain_inv telnet target release vm l ?s"
    using inv by (simp add: chain_inv_def agrees_def asked_inv_def del: telnet_act.simps)
  then show ?thesis by (simp add: Let_def del: telnet_act.simps)
qed

lemma chain_game:
  assumes inv: "chain_inv telnet target release vm l s" and known: "known_target telnet target"
  shows "chain_inv telnet target release vm l (chain_act telnet target release vm (GameDoes ev) s)"
proof (cases "game_internal ev")
  case True
  define g where "g = telnet_act release vm ev (ch_game s)"
  define new where "new = drop (length (game_out s)) (se_out (session_at 0 g))"
  let ?o = "(ch_order s)\<lparr>ol_replies := ol_replies (ch_order s) @ new, ol_read := ol_read (ch_order s) + length new\<rparr>"
  let ?s = "s\<lparr>ch_game := g, ch_order := ?o\<rparr>"
  have i: "asked_inv s" "game_inv release vm l s" "ol_read (ch_order s) = length (game_out s)"
    and reach: "agrees answer s \<Longrightarrow> order_reach telnet target answer (ch_order s)" for answer
    using inv by (simp_all add: chain_inv_def)
  have "game_inv release vm l ?s
    \<and> (se_out (session_at 0 g) = game_out s
       \<or> se_wait (session_at 0 (ch_game s)) \<and> (\<exists>x. se_out (session_at 0 g) = game_out s @ [x]))"
    by (rule game_does[OF i(2,1) True g_def]) simp
  then have gi: "game_inv release vm l ?s" and out: "se_out (session_at 0 g) = game_out s @ new"
    and wait: "new \<noteq> [] \<Longrightarrow> se_wait (session_at 0 (ch_game s)) \<and> (\<exists>x. new = [x])"
    by (auto simp: new_def)
  have go: "game_out ?s = game_out s @ new" using out by (simp add: game_out_def)
  have "order_reach telnet target answer ?o" if a: "agrees answer ?s" for answer
  proof -
    have "agrees answer s" using a unfolding agrees_def go by (auto simp: nth_append)
    then have r: "order_reach telnet target answer (ch_order s)" by (rule reach)
    show ?thesis
    proof (cases "new = []")
      case True
      then show ?thesis using r by simp
    next
      case False
      then obtain x where x: "new = [x]" "se_wait (session_at 0 (ch_game s))" using wait by blast
      have "answer (length (game_out s)) = x" using a x(1) unfolding agrees_def go by (auto simp: nth_append)
      moreover have "ol_read (ch_order s) < length (wire (ol_admin (ch_order s)))"
        using i(2,3) x(2) by (simp add: game_inv_def lines_read_def Let_def)
      ultimately show ?thesis
        using order_reach.step[OF r order_step.server] x(1) i(3) by simp
    qed
  qed
  moreover have "asked_inv ?s" using i(1) by (simp add: asked_inv_def queued_data_def the_conn_def)
  ultimately have "chain_inv telnet target release vm l ?s"
    using gi i(3) go by (simp add: chain_inv_def)
  then show ?thesis using True by (simp add: Let_def g_def new_def del: telnet_act.simps)
qed (use inv in simp)

lemma chain_call:
  assumes inv: "chain_inv telnet target release vm l s" and known: "known_target telnet target"
    and ev: "ev \<in> {OnMessage r, TakeResponse 0, Timeout 0}"
    and o1: "ol_admin o1 = admin_act telnet ev (ol_admin (ch_order s))" "ol_read o1 = ol_read (ch_order s)"
    and step: "\<And>answer. order_reach telnet target answer (ch_order s) \<Longrightarrow> order_step telnet target answer (ch_order s) o1"
  shows "chain_inv telnet target release vm l (s\<lparr>ch_order := o1\<rparr>)"
proof -
  have "chain_inv telnet target release vm l (s\<lparr>ch_order := o1, ch_asked := ch_asked s\<rparr>)"
  proof (rule chain_other[OF inv, where ext = "[]" and ds = "[]"])
    fix answer
    assume "order_reach telnet target answer (ch_order s)"
    then show "order_reach telnet target answer o1" using step by (blast intro: order_reach.step)
  next
    show "asked_inv (s\<lparr>ch_order := o1, ch_asked := ch_asked s\<rparr>)"
      using inv asked_call[OF chain_order[OF inv known] _ ev o1(1)] by (simp add: chain_inv_def)
    show "wire (ol_admin o1) = wire (ol_admin (ch_order s)) @ []"
      using ev admin_wire[of ev telnet "ol_admin (ch_order s)"] by (auto simp: o1(1))
  qed (simp_all add: o1(2))
  then show ?thesis by simp
qed

lemma chain_reads:
  assumes inv: "chain_inv telnet target release vm l s" and known: "known_target telnet target"
    and ev: "ev \<in> {AdminReads, AdminTakes, AdminTimesOut}"
  shows "chain_inv telnet target release vm l (chain_act telnet target release vm ev s)"
proof (cases "chain_act telnet target release vm ev s = s")
  case False
  let ?o = "ch_order s" and ?a = "ol_admin (ch_order s)"
  consider (reads) r rs where "ev = AdminReads" "ol_replies ?o = r # rs" "tick_hand ?a = None"
    | (takes) k r where "ev = AdminTakes" "ws_call (the_conn ?o) = Waiting k" "tick_hand ?a = Some r"
    | (late) k where "ev = AdminTimesOut" "ws_call (the_conn ?o) = Waiting k" "tick_hand ?a = None"
    using ev False by (auto simp: Let_def split: list.splits call_state.splits option.splits if_splits)
  then show ?thesis
  proof cases
    case reads
    then show ?thesis
      using chain_call[OF inv known, of "OnMessage r" r, OF _ _ _ order_step.message[of ?o r rs]]
      by (simp add: Let_def)
  next
    case takes
    then show ?thesis
      using chain_call[OF inv known, of "TakeResponse 0", OF _ _ _ order_step.response[of ?o k r]]
      by (simp add: Let_def)
  next
    case late
    then show ?thesis
      using chain_call[OF inv known, of "Timeout 0", OF _ _ _ order_step.timeout[of ?o k]]
      by (simp add: Let_def)
  qed
qed (use inv in simp)

lemma chain_step:
  assumes "chain_inv telnet target release vm l s" and "known_target telnet target"
  shows "chain_inv telnet target release vm l (chain_act telnet target release vm ev s)"
  using chain_ask[OF assms] chain_admin[OF assms] chain_deliver[OF assms(1)] chain_game[OF assms]
    chain_reads[OF assms]
  by (cases ev) (blast+)

lemma chain_start: "chain_inv telnet target release vm l (chain0 f l)"
proof -
  let ?g = "(telnet0 l)\<lparr>tn_sessions := [session0]\<rparr>"
  have "?g = telnet_run release vm l [Accept]" by (simp add: telnet_run_def telnet0_def)
  then have "fifo release vm l ?g" "all_written ?g" using fifo_run written_run by metis+
  moreover have "takers_known ?g" by (simp add: takers_known_def telnet0_def)
  ultimately show ?thesis
    using order_reach.start
    by (auto simp: chain_inv_def chain0_def asked_inv_def commands_out_def queued_data_def order0_def admin0_def
        the_conn_def ws_conn0_def game_inv_def Let_def lines_read_def game_out_def session_at_def telnet0_def
        session0_def stream_def)
qed

lemma chain_run_inv:
  assumes "known_target telnet target"
  shows "chain_inv telnet target release vm l (chain_run telnet target release vm f l evs)"
proof -
  have "chain_inv telnet target release vm l (fold (chain_act telnet target release vm) evs s)"
    if "chain_inv telnet target release vm l s" for s
    using that
  proof (induction evs arbitrary: s)
    case (Cons ev evs)
    from Cons.IH[OF chain_step[OF Cons.prems assms]] show ?case by simp
  qed simp
  then show ?thesis unfolding chain_run_def by (blast intro: chain_start)
qed

section \<open>What the page shows\<close>

text \<open>The results of the commands, run one after the other.\<close>

definition debug_results :: "bool \<Rightarrow> 'l lua_vm \<Rightarrow> string list \<Rightarrow> 'l \<Rightarrow> string list" where
  "debug_results release vm ds l = fst (run_all release vm (map (\<lambda>d. Debug (tabs d) 0) ds) l)"

lemma debug_result: "\<exists>x env l'. debugCommandHandler release vm d l = (Some x, env, l')"
  by (auto simp: debugCommandHandler_def run_chunk_def Let_def split: option.split sum.split prod.split)

lemma debug_results_length: "length (debug_results release vm ds l) = length ds"
proof (induction ds arbitrary: l)
  case (Cons d ds)
  obtain x env l' where "debugCommandHandler release vm (tabs d) l = (Some x, env, l')"
    using debug_result[of release vm "tabs d" l] by blast
  with Cons[of l'] show ?case by (simp add: debug_results_def Let_def case_prod_beta')
qed (simp add: debug_results_def)

lemma debug_results_take: "debug_results release vm (take m ds) l = take m (debug_results release vm ds l)"
proof -
  have "debug_results release vm ds l =
      debug_results release vm (take m ds) l @ drop (min m (length ds)) (debug_results release vm ds l)"
  proof -
    have "\<exists>rs. debug_results release vm (take m ds @ drop m ds) l = debug_results release vm (take m ds) l @ rs"
      unfolding debug_results_def map_append run_all_append by (simp add: Let_def case_prod_beta')
    then obtain rs where rs: "debug_results release vm ds l = debug_results release vm (take m ds) l @ rs" by auto
    then have "drop (min m (length ds)) (debug_results release vm ds l) = rs"
      using debug_results_length[of release vm "take m ds" l] by (simp add: min.commute)
    with rs show ?thesis by simp
  qed
  then show ?thesis
    using debug_results_length[of release vm "take m ds" l] debug_results_length[of release vm ds l]
    by (metis append_eq_conv_conj length_take take_take min.commute min.idem take_all linear)
qed

lemma writes_nth:
  "length (filter Not l) = length rs \<Longrightarrow> j < length l \<Longrightarrow>
     writes l rs ! j = (if l ! j then ''command timeout'' else response_text (rs ! (j - late_before j l)))"
proof (induction l rs arbitrary: j rule: writes.induct)
  case (2 l rs)
  then show ?case by (cases j) (simp_all add: late_before_def)
next
  case (3 l r rs)
  have "length (filter id (take n l)) \<le> n" for n
    by (metis length_filter_le length_take min.cobounded2 order_trans)
  with 3 show ?case by (cases j) (simp_all add: late_before_def Suc_diff_le)
qed simp_all

lemma rank_bound: "j < length l \<Longrightarrow> \<not> l ! j \<Longrightarrow> j - late_before j l < length (filter Not l)"
proof -
  assume j: "j < length l" "\<not> l ! j"
  have "j - late_before j l = length (filter Not (take j l))"
    using answered_late[of "take j l"] j(1) by (simp add: answered_def late_before_def min.absorb2)
  also have "\<dots> < length (filter Not (take (Suc j) l))"
    using j by (simp add: take_Suc_conv_app_nth)
  also have "\<dots> \<le> length (filter Not l)"
    by (metis append_take_drop_id filter_append length_append le_add1)
  finally show ?thesis .
qed

text \<open>The text that the game writes for the command number \<open>j\<close>, for which of its waits timed out.\<close>

definition game_answer :: "bool list \<Rightarrow> string list \<Rightarrow> nat \<Rightarrow> string" where
  "game_answer late results j =
     (if late ! j then ''command timeout'' else response_text (results ! (j - late_before j late)))"

definition game_late :: "'l chain \<Rightarrow> bool list" where
  "game_late s = se_late (session_at 0 (ch_game s))"

lemma game_out_results:
  assumes "chain_inv telnet target release vm l s" and "j < length (game_out s)"
  shows "game_out s ! j = game_answer (game_late s) (debug_results release vm (ch_asked s) l) j"
proof -
  let ?g = "ch_game s"
  have i: "length (tn_sessions ?g) = 1" "fifo release vm l ?g" "all_written ?g" "takers_known ?g"
    "tn_issued ?g = map (\<lambda>d. Debug (tabs d) 0) (take (lines_read s) (ch_asked s))"
    using assms(1) by (simp_all add: chain_inv_def game_inv_def Let_def)
  have taken: "taken_by 0 ?g = map snd (tn_taken ?g)"
    using i(1,4) by (auto simp: taken_by_def takers_known_def filter_id_conv)
  then have w: "game_out s = writes (game_late s) (map snd (tn_taken ?g))"
    "length (filter Not (game_late s)) = length (map snd (tn_taken ?g))"
    using i(3) unfolding all_written_def session_writes_def game_out_def game_late_def by metis+
  obtain ran where ran: "tn_issued ?g = ran @ running_list (tn_running ?g) @ tn_queue ?g"
    "run_all release vm ran l = (map snd (tn_taken ?g) @ tn_results ?g @ hand_list (tn_hand ?g), tn_lua ?g)"
    using i(2) by (auto simp: fifo_def)
  then have "\<exists>rs. fst (run_all release vm (tn_issued ?g) l) = map snd (tn_taken ?g) @ rs"
    by (simp add: run_all_append Let_def case_prod_beta')
  then obtain rs where "debug_results release vm (take (lines_read s) (ch_asked s)) l = map snd (tn_taken ?g) @ rs"
    using i(5) by (auto simp: debug_results_def)
  then have pre: "take (lines_read s) (debug_results release vm (ch_asked s) l) = map snd (tn_taken ?g) @ rs"
    by (simp add: debug_results_take)
  have nth: "debug_results release vm (ch_asked s) l ! k = map snd (tn_taken ?g) ! k"
    if "k < length (map snd (tn_taken ?g))" for k
  proof -
    have "k < lines_read s" using that arg_cong[OF pre, of length] by simp
    then show ?thesis using that arg_cong[OF pre, of "\<lambda>xs. xs ! k"] by (simp add: nth_append)
  qed
  have "length (writes l' rs') = length l'" if "length (filter Not l') = length rs'" for l' rs'
    using that by (induction l' rs' rule: writes.induct) auto
  then have "j < length (game_late s)" using assms(2) w by simp
  then show ?thesis
    using writes_nth[OF w(2), of j] rank_bound[of j "game_late s"] nth w
    by (simp add: game_answer_def)
qed

lemma shown_in_chain:
  assumes inv: "chain_inv telnet target release vm l s" and known: "known_target telnet target"
    and i: "i < length (ws_out (the_conn (ch_order s)))"
  shows "wm_data (ws_out (the_conn (ch_order s)) ! i) =
    (let late = ol_late (ch_order s) in
     Str (if late ! i then ''timeout''
          else trim_right (game_answer (game_late s) (debug_results release vm (ch_asked s) l) (i - late_before i late))))"
proof -
  let ?o = "ch_order s" and ?late = "ol_late (ch_order s)"
  have oi: "order_inv target (written_answer s) ?o" by (rule chain_order[OF inv known])
  then have "map wm_data (ws_out (the_conn ?o)) =
      map (\<lambda>i. Str (shown_answer (written_answer s) ?late i)) [0..<length (ws_out (the_conn ?o))]"
    by (simp add: order_inv_def)
  from arg_cong[OF this, of "\<lambda>xs. xs ! i"] i
  have out: "wm_data (ws_out (the_conn ?o) ! i) = Str (shown_answer (written_answer s) ?late i)" by simp
  have il: "i < length ?late"
    using oi i by (auto simp: order_inv_def call_inv_def Let_def split: call_state.splits)
  have "written_answer s (i - late_before i ?late) =
      game_answer (game_late s) (debug_results release vm (ch_asked s) l) (i - late_before i ?late)"
    if "\<not> ?late ! i"
  proof -
    have "i - late_before i ?late < answered ?late" using rank_bound[OF il that] by (simp add: answered_def)
    also have "\<dots> \<le> ol_read ?o" using oi by (auto simp: order_inv_def split: if_splits)
    also have "\<dots> = length (game_out s)" using inv by (simp add: chain_inv_def)
    finally show ?thesis using game_out_results[OF inv] by (simp add: written_answer_def)
  qed
  with out show ?thesis by (simp add: shown_answer_def Let_def)
qed


text \<open>A run: the script's text with the console's output function in it is what this interpreter prints.\<close>

definition echo_vm :: "unit lua_vm" where
  "echo_vm = idle_vm\<lparr>vm_run := (\<lambda>s l. (Inr s, l))\<rparr>"

definition asking :: "chain_event list" where
  "asking = [Ask (command_text ''print(1)''), AdminDoes (Handle 0 quiet_env), AdminDoes Tick]"

definition reading :: "chain_event list" where
  "reading = [Deliver (length (telnet_text 1 ''print(1)'')), GameDoes (ReadLine 0)]"

definition running :: "chain_event list" where
  "running = [GameDoes DoCommands, GameDoes RunCommand, GameDoes PushResult, GameDoes (TakeResult 0)]"

definition replying :: "chain_event list" where
  "replying = [AdminReads, AdminTakes, AdminDoes (Resume 0 quiet_env)]"

abbreviation game_act :: "chain_event \<Rightarrow> unit chain \<Rightarrow> unit chain" where
  "game_act \<equiv> chain_act game_telnet ''game.1.1'' False echo_vm"

definition asked_state :: "unit chain" where
  "asked_state = \<lparr>ch_order = \<lparr>ol_admin = (admin0 None)\<lparr>serverConn := [''game.1.1''],
       wire := [(''game.1.1'', telnet_text 1 ''print(1)'')],
       ws_conns := [ws_conn0\<lparr>ws_call := Waiting (ForConsole (one_command ''print(1)''))\<rparr>]\<rparr>,
       ol_read = 0, ol_replies = [], ol_late = []\<rparr>,
     ch_game = (telnet0 ())\<lparr>tn_sessions := [session0]\<rparr>, ch_sent = 0, ch_asked = [''print(1)'']\<rparr>"

lemma asked_print: "asked_command ''game.1.1'' (command_text d) = Some d"
  by (simp add: asked_command_def command_text_decode)

lemma asking_run: "fold game_act asking (chain0 None ()) = asked_state"
  by (simp add: asking_def asked_state_def chain0_def asked_print order0_def admin0_def ws_conn0_def run_steps
      quiet_env_def one_command_def telnet0_def)

definition read_state :: "unit chain" where
  "read_state = asked_state\<lparr>ch_game := (telnet0 ())\<lparr>tn_sessions := [session0\<lparr>se_wait := True\<rparr>],
       tn_queue := [Debug ''print(1)'' 0], tn_issued := [Debug ''print(1)'' 0]\<rparr>,
     ch_sent := length (telnet_text 1 ''print(1)'')\<rparr>"

lemma delivered: "game_act (Deliver (length (telnet_text 1 ''print(1)''))) asked_state =
    asked_state\<lparr>ch_game := (telnet0 ())\<lparr>tn_sessions := [session0\<lparr>se_in := telnet_text 1 ''print(1)''\<rparr>]\<rparr>,
      ch_sent := length (telnet_text 1 ''print(1)'')\<rparr>"
  by (simp add: asked_state_def stream_def admin0_def telnet0_def session0_def session_at_def set_session_def Let_def)

lemma reading_run: "fold game_act reading asked_state = read_state"
proof -
  let ?s = "session0\<lparr>se_in := telnet_text 1 ''print(1)''\<rparr>"
  let ?g = "(telnet0 ())\<lparr>tn_sessions := [?s]\<rparr>"
  have t: "tabs ''print(1)'' = ''print(1)''" by (simp add: tabs_def)
  have r: "read_line (se_in ?s) = Some (telnet_line 1 ''print(1)'', '''')"
    using read_line_text[of 1 "''print(1)''" "''''"] by simp
  have d: "decode_telnet (telnet_line 1 ''print(1)'') = Some (1, ''print(1)'')"
    using decode_telnet_line[of 1 "''print(1)''"] t by simp
  have w: "session_at 0 ?g = ?s" by (simp add: session_at_def)
  have "onLine 0 ?g = ?g\<lparr>tn_sessions := [session0\<lparr>se_wait := True\<rparr>], tn_queue := [Debug ''print(1)'' 0],
      tn_issued := [Debug ''print(1)'' 0]\<rparr>"
    unfolding onLine_def w Let_def r option.case prod.case d
    by (simp add: command_of_def set_session_def telnet0_def session0_def)
  then show ?thesis
    by (simp only: reading_def fold_simps delivered)
      (simp add: read_state_def game_out_def session_at_def session0_def asked_state_def Let_def)
qed

lemma print_script: "console_script ''print(1)'' = ''console_print(1)''"
  by (simp add: console_script_def replace_all.simps)

definition ran_state :: "unit chain" where
  "ran_state = read_state\<lparr>ch_game := (telnet0 ())\<lparr>tn_sessions := [session0\<lparr>se_out := [''console_print(1)''],
       se_late := [False]\<rparr>], tn_running := Some [], tn_env := [0], tn_issued := [Debug ''print(1)'' 0],
       tn_taken := [(0, ''console_print(1)'')]\<rparr>,
     ch_order := (ch_order read_state)\<lparr>ol_read := 1, ol_replies := [''console_print(1)'']\<rparr>\<rparr>"

lemma running_run: "fold game_act running read_state = ran_state"
  by (simp add: running_def read_state_def asked_state_def ran_state_def telnet0_def session0_def session_at_def
      set_session_def onRunCommand_def onResult_def debugCommandHandler_def run_chunk_def echo_vm_def idle_vm_def
      print_script result_capacity_def response_text_def game_out_def Let_def)

definition print_run :: "unit chain" where
  "print_run = chain_run game_telnet ''game.1.1'' False echo_vm None () (asking @ reading @ running @ replying)"

lemma print_run_out:
  "ws_out (the_conn (ch_order print_run)) = [one_command ''console_print(1)'']"
  "ol_late (ch_order print_run) = [False]" "game_late print_run = [False]" "ch_asked print_run = [''print(1)'']"
proof -
  have p: "print_run = fold game_act replying ran_state"
    by (simp add: print_run_def chain_run_def asking_run reading_run running_run del: chain_act.simps)
  show "ws_out (the_conn (ch_order print_run)) = [one_command ''console_print(1)'']"
    "ol_late (ch_order print_run) = [False]" "game_late print_run = [False]" "ch_asked print_run = [''print(1)'']"
    unfolding p
    by (simp_all add: replying_def ran_state_def read_state_def asked_state_def the_conn_def admin0_def ws_conn0_def
        run_steps one_command_def game_late_def session_at_def telnet0_def session0_def trim_right_def quiet_env_def)
qed


end
