(* ===== verification/ExportSystem.thy ===== *)
theory ExportSystem
  imports ExportEndToEnd EndToEnd
begin

text \<open>
  The export page and the admin process as one system: the second instance of \<open>served_page\<close>.  The
  set \<open>P\<close> of configurations is a parameter of the instance (what the users submit and what was saved
  before), so the instance also says where the shown configuration comes from.
\<close>

section \<open>Page, requests and answers\<close>

fun export_user :: "(exportTableConfig \<Rightarrow> bool) \<Rightarrow> export_event \<Rightarrow> bool" where
  "export_user P (ReceiveExport now t) = False"
| "export_user P (SubmitConfig v) = (\<exists>p q r u. P (config_of p q r u) \<and> v = config_values p q r u)"
| "export_user P _ = True"

inductive export_step :: "(exportTableConfig \<Rightarrow> bool) \<Rightarrow> export_page \<Rightarrow> export_page \<Rightarrow> bool"
  for P where
  opened: "ready_of (table_net p) i = CONNECTING \<Longrightarrow> export_step P p (onopenExport i p)"
| closed: "ready_of (table_net p) i \<noteq> CLOSED \<Longrightarrow> export_step P p (oncloseExport i p)"
| user: "export_user P ev \<Longrightarrow> export_step P p (export_act ev p)"

definition export_receive :: "string \<Rightarrow> export_page \<Rightarrow> export_page \<Rightarrow> bool" where
  "export_receive t p p' \<longleftrightarrow> (\<exists>now. p' = export_act (ReceiveExport now t) p)"

definition table_texts :: "export_page \<Rightarrow> string set" where
  "table_texts p = snd ` set (frames (table_net p))"

definition empty_config :: exportTableConfig where
  "empty_config = config_of [] [] [] []"

text \<open>What the configuration file may hold: nothing, or a configuration of the set.\<close>

definition saved :: "(exportTableConfig \<Rightarrow> bool) \<Rightarrow> string option \<Rightarrow> bool" where
  "saved P f \<longleftrightarrow> opened_file f = [] \<or> (\<exists>p q r u. P (config_of p q r u) \<and> f = Some (config_text_of p q r u))"

definition table_kind :: "(exportTableConfig \<Rightarrow> bool) \<Rightarrow> web_message \<Rightarrow> bool" where
  "table_kind P m \<longleftrightarrow>
     wm_type m \<in> {''tableConfig'', ''exportTable'', ''findSheet''}
     \<or> wm_type m = ''setTableConfig''
       \<and> (\<exists>p q r u. P (config_of p q r u) \<and> wm_data m = Str (config_text_of p q r u))"

definition config_answer :: "(exportTableConfig \<Rightarrow> bool) \<Rightarrow> jsval \<Rightarrow> bool" where
  "config_answer P d \<longleftrightarrow> d = Str (stringify (Obj []))
     \<or> (\<exists>p q r u. P (config_of p q r u) \<and> d = Str (config_text_of p q r u))"

definition table_answer :: "(exportTableConfig \<Rightarrow> bool) \<Rightarrow> web_message \<Rightarrow> bool" where
  "table_answer P m \<longleftrightarrow>
     wm_type m = ''tableConfig'' \<and> config_answer P (wm_data m)
     \<or> wm_type m = ''setTableConfig''
     \<or> wm_type m \<in> {''exportTable'', ''findSheet'', ''error''} \<and> (\<exists>d. wm_data m = Str d)"

definition page_config :: "(exportTableConfig \<Rightarrow> bool) \<Rightarrow> exportTableConfig \<Rightarrow> bool" where
  "page_config P c \<longleftrightarrow> c = empty_config \<or> P c"

definition table_inv :: "(exportTableConfig \<Rightarrow> bool) \<Rightarrow> export_page \<Rightarrow> bool" where
  "table_inv P s \<longleftrightarrow>
     (\<forall>q \<in> set (frames (table_net s)). requests (table_kind P) (snd q))
     \<and> (\<forall>c. exportConfig s = Some c \<longrightarrow> page_config P c)
     \<and> (\<forall>l \<in> set (tempMsg s). \<exists>d. line_content l = Str d) \<and> set (resultData s) \<subseteq> set (tempMsg s)"

section \<open>The admin process\<close>

text \<open>The first 2048 bytes of a saved configuration are the configuration, or no JSON object and not null.\<close>

lemma read_saved:
  assumes "go_is_map (read_config (config_text_of p q r u))"
  shows "read_config (config_text_of p q r u) = config_text_of p q r u"
proof (rule ccontr)
  let ?t = "config_text_of p q r u" and ?ps = "[(exportCmdName, Str p), (excelPathName, Str q),
      (exportClientPathName, Str r), (exportServerPathName, Str u)]"
  assume "read_config ?t \<noteq> ?t"
  then have "2048 < length ?t" by (simp add: json_prefix_short read_size_def)
  moreover have "js_wf (Obj ?ps)" using config_values_wf(1) by (simp only: config_values_def)
  ultimately have "JSON_parse (read_config ?t) = Inr w \<Longrightarrow> is_number w" for w
    using object_cut[of ?ps 2048 w]
    by (simp add: config_text_of_def config_values_def read_config_def read_size_def)
  with assms show False by (fastforce simp: go_is_map_def split: sum.splits jsval.splits)
qed

lemma saved_cases:
  assumes "saved P f"
  obtains "opened_file f = []" "read_config (opened_file f) = []"
  | p q r u where "P (config_of p q r u)" "opened_file f = config_text_of p q r u" "f = Some (config_text_of p q r u)"
proof (cases "opened_file f = []")
  case True
  then show thesis by (intro that(1)) (simp_all add: read_config_def)
next
  case False
  with assms obtain p q r u where "P (config_of p q r u)" "f = Some (config_text_of p q r u)"
    by (auto simp: saved_def)
  then show thesis by (intro that(2)) (simp_all add: opened_file_def)
qed

lemma saved_opened: "saved P f \<Longrightarrow> saved P (Some (opened_file f))"
  by (cases f) (simp_all add: saved_def opened_file_def)

lemma get_config_ok:
  assumes "saved P f" and "wm_type req = ''tableConfig''" and "onGetExportTableConfig e req f = (f', ms, res)"
  shows "saved P f' \<and> ms = [] \<and> outcome_ok telnet (table_answer P) (\<lambda>k. False) res"
proof (cases "te_open e")
  case None
  let ?b = "read_config (opened_file f)"
  have b: "config_answer P (Str (if ?b \<noteq> [] \<and> go_is_map ?b then ?b else stringify (Obj [])))"
    using assms(1) by (cases rule: saved_cases) (auto simp: config_answer_def read_saved)
  show ?thesis using assms b None saved_opened[of P f]
    by (auto simp: onGetExportTableConfig_def Let_def table_answer_def)
qed (use assms in \<open>auto simp: onGetExportTableConfig_def table_answer_def error_message_def web_message0_def\<close>)

lemma set_config_ok:
  assumes "saved P f" and "wm_type req = ''setTableConfig''"
    and "P (config_of p q r u)" "wm_data req = Str (config_text_of p q r u)"
    and "onSetExportTableConfig e req f = (f', ms, res)"
  shows "saved P f' \<and> ms = [] \<and> outcome_ok telnet (table_answer P) (\<lambda>k. False) res"
proof -
  have "saved P (Some (config_text_of p q r u))" using assms(3) by (auto simp: saved_def)
  with assms saved_opened[of P f] show ?thesis
    by (auto simp: onSetExportTableConfig_def set_config_def table_answer_def error_message_def web_message0_def
        Let_def split: option.splits)
qed

lemma run_ok:
  assumes "saved P f" and "wm_type req = ''exportTable''" and "onExportTable e req f = (f', ms, res)"
  shows "saved P f' \<and> (\<forall>m \<in> set ms. table_answer P m) \<and> outcome_ok telnet (table_answer P) (\<lambda>k. False) res"
  using assms saved_opened[of P f]
  by (auto simp: onExportTable_def run_export_def table_answer_def error_message_def web_message0_def
      Let_def split: option.splits run.splits if_splits)

lemma find_ok:
  assumes "saved P f" and "wm_type req = ''findSheet''" and "onFindSheet e req f = (f', ms, res)"
  shows "saved P f' \<and> ms = [] \<and> outcome_ok telnet (table_answer P) (\<lambda>k. False) res"
  using assms saved_opened[of P f]
  by (auto simp: onFindSheet_def table_answer_def error_message_def web_message0_def
      Let_def split: option.splits sum.splits if_splits)

lemma table_dispatched:
  assumes "table_kind P req" and "saved P f" and "dispatcher e req f = (f', ms, r)"
  shows "saved P f' \<and> (\<forall>m \<in> set ms. table_answer P m) \<and> outcome_ok telnet (table_answer P) (\<lambda>k. False) r"
  using assms get_config_ok[of P f req "en_table e" f' ms r telnet]
    set_config_ok[of P f req _ _ _ _ "en_table e" f' ms r telnet] run_ok[of P f req "en_table e" f' ms r telnet]
    find_ok[of P f req "en_table e" f' ms r telnet]
  by (auto simp: table_kind_def dispatcher_def)

section \<open>The page\<close>

lemma table_kind_frames:
  "ty \<in> {''tableConfig'', ''exportTable'', ''findSheet''} \<Longrightarrow>
     requests (table_kind P) (stringify (Obj [(''type'', Str ty)]))"
  "ty \<in> {''tableConfig'', ''exportTable'', ''findSheet''} \<Longrightarrow>
     requests (table_kind P) (stringify (Obj [(''type'', Str ty), (''data'', Str d)]))"
  "P (config_of p q r u) \<Longrightarrow> requests (table_kind P)
     (stringify (Obj [(''type'', Str ''setTableConfig''), (''data'', Str (stringify (config_values p q r u)))]))"
  by (auto simp: requests_def decode_frame table_kind_def sent_request_def web_message0_def config_text_of_def)

lemma table_inv_send:
  assumes "table_inv P s" and "requests (table_kind P) t"
  shows "table_inv P (s\<lparr>table_net := or_keep (table_net s) (send c t (table_net s))\<rparr>)" "table_inv P (tableSend t s)"
  using assms frames_or_keep_send[of "table_net s" c t for c]
  by (fastforce simp: table_inv_def tableSend_def split: option.splits)+

lemma table_inv_net:
  "table_inv P s \<Longrightarrow> frames n = frames (table_net s) \<Longrightarrow> table_inv P (s\<lparr>table_net := n\<rparr>)"
  by (simp add: table_inv_def)

text \<open>The page handles every such answer, and a configuration it then shows is one of the set, or empty.\<close>

lemma receive_config:
  assumes "config_answer P d"
  shows "\<exists>r c. d = Str r \<and> page_config P c \<and>
    (\<exists>ps. JSON_parse r = Inr (Obj ps) \<and> config_field (Obj ps) ''export_cmd'' = Inr (export_cmd c)
      \<and> config_field (Obj ps) ''excel_path'' = Inr (excel_path c)
      \<and> config_field (Obj ps) ''export_client_path'' = Inr (export_client_path c)
      \<and> config_field (Obj ps) ''export_server_path'' = Inr (export_server_path c))"
proof -
  consider "d = Str (stringify (Obj []))" | p q r u where "P (config_of p q r u)" "d = Str (config_text_of p q r u)"
    using assms by (auto simp: config_answer_def)
  then show ?thesis
  proof cases
    case 1
    have "JSON_parse (stringify (Obj [])) = Inr (Obj [])" by (subst JSON_parse_stringify) simp_all
    with 1 show ?thesis
      by (intro exI[of _ "stringify (Obj [])"] exI[of _ empty_config])
        (simp add: page_config_def empty_config_def config_of_def config_field_def js_or_def)
  next
    case (2 p q r u)
    then show ?thesis
      by (intro exI[of _ "config_text_of p q r u"] exI[of _ "config_of p q r u"])
        (simp add: page_config_def config_parse config_of_def config_field_def js_or_def config_values_def
          cmd_names prop_get_Cons)
  qed
qed

lemma receive_table_answer:
  assumes "table_answer P m" and "JSON_parse t = Inr (message_value m)"
  shows "\<exists>s'. onExportMessage now t s = Inr s' \<and> (table_inv P s \<longrightarrow> table_inv P s')"
proof -
  consider "wm_type m = ''tableConfig''" "config_answer P (wm_data m)" | "wm_type m = ''setTableConfig''"
    | d where "wm_type m \<in> {''exportTable'', ''findSheet'', ''error''}" "wm_data m = Str d"
    using assms(1) by (auto simp: table_answer_def)
  then show ?thesis
  proof cases
    case 1
    with receive_config[OF 1(2)] obtain r c ps where "wm_data m = Str r" and c: "page_config P c"
        "JSON_parse r = Inr (Obj ps)" "config_field (Obj ps) ''export_cmd'' = Inr (export_cmd c)"
        "config_field (Obj ps) ''excel_path'' = Inr (excel_path c)"
        "config_field (Obj ps) ''export_client_path'' = Inr (export_client_path c)"
        "config_field (Obj ps) ''export_server_path'' = Inr (export_server_path c)" by blast
    then have "onExportMessage now t s = Inr (s\<lparr>exportConfig := Some c\<rparr>)"
      using assms(2) 1(1)
      by (simp add: onExportMessage_def message_value_def prop_get_Cons cmd_names)
    with c(1) show ?thesis by (simp add: table_inv_def)
  next
    case 2
    then show ?thesis
      using assms(2) by (auto simp: onExportMessage_def message_value_def prop_get_Cons cmd_names table_inv_def)
  next
    case (3 d)
    then show ?thesis
      using assms(2)
      by (auto simp: onExportMessage_def message_value_def prop_get_Cons cmd_names table_inv_def Let_def)
  qed
qed

lemma table_inv_opened: "table_inv P p \<Longrightarrow> table_inv P (onopenExport i p)"
  using table_inv_send(1)[of P "p\<lparr>table_net := mark i OPEN (table_net p), table_client := Some i\<rparr>"
      "stringify (Obj [(''type'', Str ''tableConfig'')])" i] table_kind_frames(1)[of "''tableConfig''" P]
  by (simp add: onopenExport_def tableClientEffect_def cmd_names) (simp add: table_inv_def)

lemma table_inv_closed: "table_inv P p \<Longrightarrow> table_inv P (oncloseExport i p)"
  by (simp add: oncloseExport_def startExportSocket_def table_inv_def)

lemma table_inv_user:
  assumes "table_inv P s" and "export_user P ev"
  shows "table_inv P (export_act ev s)"
proof (cases ev)
  case ClickExport
  have "table_inv P (s\<lparr>tempMsg := [], resultData := []\<rparr>)" using assms(1) by (simp add: table_inv_def)
  with ClickExport show ?thesis
    by (simp add: doExportTable_def cmd_names table_inv_send(2) table_kind_frames(1))
next
  case (SearchSheet v)
  have "table_inv P (s\<lparr>table_net := emit (Toast k w) (table_net s)\<rparr>)" for k w
    by (rule table_inv_net[OF assms(1)]) simp
  with SearchSheet assms(1) show ?thesis
    by (simp add: doFindSheet_def cmd_names table_inv_send(2) table_kind_frames(2))
qed (use assms in \<open>auto simp: onSubmitConfig_def cmd_names Let_def intro!: table_inv_send(2) table_kind_frames(3)\<close>,
  use assms in \<open>simp_all add: table_inv_def\<close>)

section \<open>Both together\<close>

interpretation export: served_page telnet "table_kind P" "table_answer P" "\<lambda>k. False" "\<lambda>e. True" "saved P"
  export0 "export_step P" export_receive table_texts "table_inv P"
  for telnet P
proof unfold_locales
  fix req e f f' ms r
  assume "table_kind P req" "saved P f" "dispatcher e req f = (f', ms, r)"
  then show "saved P f' \<and> (\<forall>m \<in> set ms. table_answer P m)
      \<and> outcome_ok telnet (table_answer P) (\<lambda>k. False) r" by (rule table_dispatched)
next
  show "table_inv P export0"
    by (simp add: table_inv_def export0_def mountExport_def startExportSocket_def)
next
  fix p p'
  assume "table_inv P p" "export_step P p p'"
  from this(2,1) show "table_inv P p'"
    by cases (simp_all add: table_inv_opened table_inv_closed table_inv_user)
next
  fix p m t p'
  assume p: "table_inv P p" and m: "table_answer P m" "JSON_parse t = Inr (message_value m)"
    and "export_receive t p p'"
  then obtain now where p': "p' = export_act (ReceiveExport now t) p" by (auto simp: export_receive_def)
  show "table_inv P p'" using receive_table_answer[OF m, of now p] p by (auto simp: p')
next
  fix p t
  assume "table_inv P p" "t \<in> table_texts p"
  then show "requests (table_kind P) t" by (auto simp: table_inv_def table_texts_def)
qed simp

abbreviation export_system :: "(exportTableConfig \<Rightarrow> bool) \<Rightarrow> (string \<Rightarrow> bool) \<Rightarrow> export_page \<Rightarrow> admin \<Rightarrow> bool" where
  "export_system P telnet \<equiv>
     system telnet (\<lambda>e. True) (saved P) export0 (export_step P) export_receive table_texts"


text \<open>A run: the page connects, the user submits a configuration, and the process saves it.\<close>

definition submitted :: "exportTableConfig \<Rightarrow> bool" where
  "submitted c \<longleftrightarrow> c = config_of ''dir'' ''dir'' ''dir'' ''dir''"

definition page_submitted :: export_page where
  "page_submitted = export_act (SubmitConfig (config_values ''dir'' ''dir'' ''dir'' ''dir'')) export_open"

definition submit_text :: string where
  "submit_text = stringify (set_message (config_text_of ''dir'' ''dir'' ''dir'' ''dir''))"

definition admin_saved :: admin where
  "admin_saved = admin_act a_telnet (Handle 0 export_world) (admin_act a_telnet (Arrive 0 submit_text)
     (admin_act a_telnet NewConnection (admin0 None)))"

lemma submit_run: "config_file admin_saved = Some (config_text_of ''dir'' ''dir'' ''dir'' ''dir'')"
  "ws_out (ws_conns admin_saved ! 0) = [sent_request ''setTableConfig'' Null]"
proof -
  let ?t = "config_text_of ''dir'' ''dir'' ''dir'' ''dir''"
  have "decode_message submit_text = Decoded (sent_request ''setTableConfig'' (Str ?t))"
    by (simp add: submit_text_def set_message_def decode_frame)
  moreover have "check_paths (en_table export_world) (te_order (en_table export_world)
      (config_entries ''dir'' ''dir'' ''dir'' ''dir'')) = None"
    by (subst check_config) (simp_all add: export_world_def is_directory_def)
  ultimately have "dispatcher export_world (sent_request ''setTableConfig'' (Str ?t)) None =
      (Some ?t, [], Reply (sent_request ''setTableConfig'' Null))"
    by (simp add: dispatcher_def sent_request_def onSetExportTableConfig_def config_map set_config_def web_message0_def)
      (simp add: export_world_def web_message0_def)
  with \<open>decode_message submit_text = _\<close>
  show "config_file admin_saved = Some ?t" "ws_out (ws_conns admin_saved ! 0) = [sent_request ''setTableConfig'' Null]"
    by (simp_all add: admin_saved_def admin_act_def admin0_def ws_conn0_def onArrive_def on_conn_def onHandle_def
        finish_def set_call_def ws_write_def outcome_messages_def Let_def)
qed

lemma submit_frame: "submit_text \<in> table_texts page_submitted"
  using export_open_state(1,2)
  by (simp add: page_submitted_def table_texts_def onSubmitConfig_def tableSend_def send_open submit_text_def
      set_message_def cmd_names config_text_of_def Let_def)

lemma submit_system: "export_system submitted a_telnet page_submitted admin_saved"
proof -
  let ?open = "export_open"
  have s: "export_system submitted a_telnet export0 (admin0 None)"
    by (rule system.start) (simp add: saved_def opened_file_def)
  have "export_step submitted export0 ?open"
    unfolding export_open_def
    by (rule export_step.opened) (simp add: export0_def mountExport_def startExportSocket_def ready_of_def)
  from system.page[OF s this] have "export_system submitted a_telnet ?open (admin0 None)" .
  then have "export_system submitted a_telnet page_submitted (admin0 None)"
    unfolding page_submitted_def
    by (rule system.page) (rule export_step.user, force simp: submitted_def)
  then have n: "export_system submitted a_telnet page_submitted (admin_act a_telnet NewConnection (admin0 None))"
    by (rule system.internal) simp
  from system.to_admin[OF n submit_frame, of 0] show ?thesis
    unfolding admin_saved_def by (rule system.internal) simp
qed


end
