(* ===== verification/GmSystem.thy ===== *)
theory GmSystem
  imports GmEndToEnd AdminContract
begin

text \<open>
  The page of the GM commands and the admin process as one system: the third instance of
  \<open>served_page\<close>.  Whatever the game servers answer is passed on, so the page may get a list that is
  none; what becomes of it then is the subject of the second section.
\<close>

section \<open>Page, requests and answers\<close>

text \<open>The game servers that the stubs and the entities name are known to the admin process.\<close>

definition gm_env :: "(string \<Rightarrow> bool) \<Rightarrow> admin_env \<Rightarrow> bool" where
  "gm_env telnet e \<longleftrightarrow>
     (\<forall>t. stub_target (en_stubs e) = Some t \<longrightarrow> known_target telnet t)
     \<and> (\<forall>i v t. en_entity e i = Some v \<longrightarrow> prop_get v ''server'' = Some (Str t) \<longrightarrow> t \<noteq> '''' \<longrightarrow>
          known_target telnet t)"

fun gm_user :: "gm_event \<Rightarrow> bool" where
  "gm_user (GmReceive i t) = False"
| "gm_user (FormSubmit vs) = js_wf (Obj vs)"
| "gm_user _ = True"

inductive gm_step :: "gm_page \<Rightarrow> gm_page \<Rightarrow> bool" where
  opened: "ready_of (gm_net p) i = CONNECTING \<Longrightarrow> gm_step p (onopenGm i p)"
| closed: "ready_of (gm_net p) i \<noteq> CLOSED \<Longrightarrow> gm_step p (oncloseGm i p)"
| user: "gm_user ev \<Longrightarrow> gm_step p (gm_act ev p)"

definition gm_receive :: "string \<Rightarrow> gm_page \<Rightarrow> gm_page \<Rightarrow> bool" where
  "gm_receive t p p' \<longleftrightarrow> (\<exists>i. p' = gm_act (GmReceive i t) p)"

definition gm_texts :: "gm_page \<Rightarrow> string set" where
  "gm_texts p = snd ` set (frames (gm_net p))"

definition gm_kind :: "web_message \<Rightarrow> bool" where
  "gm_kind m \<longleftrightarrow> wm_type m = ''gmList'' \<or> wm_type m = ''gmCommand''"

definition gm_text_answer :: "web_message \<Rightarrow> bool" where
  "gm_text_answer m \<longleftrightarrow> gm_kind m \<and> (\<exists>d. wm_data m = Str d)"

fun gm_cont :: "cont \<Rightarrow> bool" where
  "gm_cont (ForGmList req) = (wm_type req = ''gmList'')"
| "gm_cont (ForGmCommand req) = (wm_type req = ''gmCommand'')"
| "gm_cont _ = False"

definition shows_texts :: "gm_page \<Rightarrow> bool" where
  "shows_texts s \<longleftrightarrow> (\<forall>k v. prop_get (gm_shown s) k = Some v \<longrightarrow> v = Undef \<or> (\<exists>d. v = Str d))"

definition gm_sys_inv :: "gm_page \<Rightarrow> bool" where
  "gm_sys_inv s \<longleftrightarrow> gm_inv s \<and> shows_texts s
     \<and> (\<forall>q \<in> set (frames (gm_net s)). requests gm_kind (snd q))
     \<and> (\<forall>q \<in> set (gm_timers s). requests gm_kind (snd q))"

section \<open>The admin process\<close>

lemma gm_target_entity:
  assumes "gm_env telnet e" and "en_entity e i = Some v"
  shows "(case prop_get v ''server'' of Some (Str t) \<Rightarrow> t | _ \<Rightarrow> '''') \<noteq> '''' \<Longrightarrow>
     known_target telnet (case prop_get v ''server'' of Some (Str t) \<Rightarrow> t | _ \<Rightarrow> '''')"
  using assms unfolding gm_env_def
  by (cases "prop_get v ''server''"; cases "the (prop_get v ''server'')") simp_all

lemma gm_target_known:
  assumes "gm_env telnet e" and "gm_target e d \<noteq> ''''"
  shows "known_target telnet (gm_target e d)"
proof (cases d)
  case (Obj ps)
  let ?i = "InterfaceToInt (prop_get ps ''entity_id'')"
  show ?thesis
  proof (cases "?i > 0")
    case True
    with Obj assms(2) obtain v where v: "en_entity e ?i = Some v"
      by (cases "en_entity e ?i") (simp_all add: gm_target_def)
    show ?thesis
      using gm_target_entity[OF assms(1) v] assms(2)
      unfolding gm_target_def Obj jsval.case Let_def if_P[OF True] v option.case by blast
  next
    case False
    with Obj assms obtain t where "stub_target (en_stubs e) = Some t"
      by (cases "stub_target (en_stubs e)") (simp_all add: gm_target_def)
    with Obj False assms(1) show ?thesis by (simp add: gm_target_def gm_env_def)
  qed
qed (use assms(2) in \<open>simp_all add: gm_target_def\<close>)

lemma gm_dispatched:
  assumes "gm_kind req" and "gm_env telnet e" and "dispatcher e req f = (f', ms, r)"
  shows "(\<forall>m \<in> set ms. gm_text_answer m) \<and> outcome_ok telnet gm_text_answer gm_cont r"
  using assms gm_target_known[OF assms(2)]
  by (auto simp: gm_kind_def dispatcher_def onGetGMList_def onGMCommand_def gm_text_answer_def gm_reply_def
      text_reply_def gm_env_def Let_def split: option.splits if_splits)

lemma gm_resumed:
  assumes "gm_cont k" and "resume k u = (ms, r)"
  shows "(\<forall>m \<in> set ms. gm_text_answer m) \<and> outcome_ok telnet gm_text_answer gm_cont r"
  using assms by (cases k) (auto simp: gm_text_answer_def gm_kind_def text_reply_def gm_reply_def)

section \<open>The page\<close>

lemma gm_kind_frames:
  "requests gm_kind (stringify (Obj [(''type'', Str ''gmList'')]))"
  "js_wf (Obj vs) \<Longrightarrow> requests gm_kind
     (stringify (Obj [(''type'', Str ''gmCommand''), (''data'', Obj vs)]))"
  "js_wf (Obj vs) \<Longrightarrow> requests gm_kind
     (stringify (Obj [(''type'', Str ''gmCommand''), (''data'', Obj vs), (''command'', Str c)]))"
proof -
  have "JSON_parse (stringify (Obj [(''type'', Str ''gmList'')])) = Inr (Obj [(''type'', Str ''gmList'')])"
    by (subst JSON_parse_stringify) (simp_all add: prop_ordered_names array_index_name is_digit_def)
  then show "requests gm_kind (stringify (Obj [(''type'', Str ''gmList'')]))"
    by (simp add: requests_def decode_message_def go_string_def prop_get_Cons gm_kind_def)
  assume "js_wf (Obj vs)"
  then have j: "JSON_parse (stringify (Obj [(''type'', Str ''gmCommand''), (''data'', Obj vs)])) =
      Inr (Obj [(''type'', Str ''gmCommand''), (''data'', clean (Obj vs))])"
    "JSON_parse (stringify (Obj [(''type'', Str ''gmCommand''), (''data'', Obj vs), (''command'', Str c)])) =
      Inr (Obj [(''type'', Str ''gmCommand''), (''data'', clean (Obj vs)), (''command'', Str c)])"
    by (subst JSON_parse_stringify; simp add: gm_message_names)+
  from decode_gm(2)[OF j(1)] decode_gm(1)[OF j(2)]
  show "requests gm_kind (stringify (Obj [(''type'', Str ''gmCommand''), (''data'', Obj vs)]))"
    "requests gm_kind (stringify (Obj [(''type'', Str ''gmCommand''), (''data'', Obj vs), (''command'', Str c)]))"
    by (auto simp: requests_def gm_kind_def gm_request_def simp del: clean.simps)
qed

lemma gm_sys_parts: "gm_sys_inv s \<Longrightarrow> gm_inv s" "gm_sys_inv s \<Longrightarrow> one_object s"
  by (simp_all add: gm_sys_inv_def gm_inv_def)

lemma rendered_shown: "one_object s \<Longrightarrow> gm_shown (rendered s) = gm_shown s"
  by (simp add: rendered_def one_object_def gm_object_def)

lemma gm_sys_rendered: "gm_sys_inv s \<Longrightarrow> gm_sys_inv (rendered s)"
  by (simp add: gm_sys_inv_def gm_inv_rendered shows_texts_def rendered_shown gm_inv_def[of s])
    (simp add: rendered_def)

lemma gm_sys_fields [simp]:
  "gm_sys_inv (s\<lparr>gm_client := c\<rparr>) = gm_sys_inv s" "gm_sys_inv (s\<lparr>gm_drafts := d\<rparr>) = gm_sys_inv s"
  by (simp_all add: gm_sys_inv_def shows_texts_def)

lemma gm_sys_mark [simp]: "gm_sys_inv (s\<lparr>gm_net := mark i r (gm_net s)\<rparr>) = gm_sys_inv s"
  by (simp add: gm_sys_inv_def shows_texts_def)

lemma gm_sys_send:
  assumes "gm_sys_inv s" and "requests gm_kind t"
  shows "gm_sys_inv (gmSend c t s)"
  using assms by (fastforce simp: gm_sys_inv_def gmSend_def shows_texts_def send_def split: ready.splits)

lemma gm_sys_result:
  assumes "gm_sys_inv s" and "d = Undef \<or> (\<exists>u. d = Str u)"
  shows "gm_sys_inv (setCommandResponse 0 c d s)"
proof -
  have "shows_texts (setCommandResponse 0 c d s)"
    using assms gm_sys_parts(2)[OF assms(1)]
    by (auto simp: setCommandResponse_eq shows_texts_def gm_sys_inv_def prop_get_set split: if_splits)
  moreover have "gm_timers (setCommandResponse 0 c d s) = gm_timers s"
    by (simp add: setCommandResponse_def setAllGmCommandResponse_def Let_def)
  ultimately show ?thesis using assms(1) by (simp add: gm_sys_inv_def setCommandResponse_inv)
qed
lemma setGmList_fields: "one_object s \<Longrightarrow> gm_shown (setGmList cats s) = gm_shown s"
  "gm_net (setGmList cats s) = gm_net s" "gm_timers (setGmList cats s) = gm_timers s"
  by (simp_all add: setGmList_def Let_def rendered_def one_object_def gm_object_def)

text \<open>A message is handled, but for a list that is none.\<close>

lemma gm_command_handled:
  assumes "gm_text_answer m" and "carries v m" and "wm_type m = ''gmCommand''"
  shows "\<exists>s'. onGmMessage cap v s = Inr s'"
  using assms by (auto simp: carries_def message_value_def onGmMessage_def prop_get_Cons)

lemma gm_sys_receive:
  assumes "gm_sys_inv s" and "gm_text_answer m" and "JSON_parse v = Inr (message_value m)"
  shows "gm_sys_inv (gm_act (GmReceive i v) s)"
proof (cases "onGmMessage 0 v s")
  case (Inr s')
  have inv: "gm_inv s'" using onGmMessage_inv[OF gm_sys_parts(1)[OF assms(1)] Inr] .
  from assms(2) consider "wm_type m = ''gmList''" | d where "wm_type m = ''gmCommand''" "wm_data m = Str d"
    by (auto simp: gm_text_answer_def gm_kind_def)
  then have "gm_sys_inv s'"
  proof cases
    case 1
    then obtain cats where "s' = setGmList cats s"
      using assms(2,3) Inr
      by (auto simp: onGmMessage_def message_value_def prop_get_Cons and_then_Inr gm_text_answer_def)
    with inv assms(1) gm_sys_parts(2)[OF assms(1)] show ?thesis
      by (simp add: gm_sys_inv_def shows_texts_def setGmList_fields)
  next
    case (2 d)
    then have "s' = setCommandResponse 0 (Str (wm_command m)) (Str d) s"
      using assms(3) Inr by (simp add: onGmMessage_def message_value_def prop_get_Cons)
    with gm_sys_result[OF assms(1)] show ?thesis by blast
  qed
  with Inr gm_inv_captured[OF gm_sys_parts(1)[OF assms(1)], of i] show ?thesis by simp
qed (use assms(1) gm_inv_captured[OF gm_sys_parts(1)[OF assms(1)], of i] in simp)

lemma gm_sys_submit:
  assumes "gm_sys_inv s" and "js_wf (Obj vs)"
  shows "gm_sys_inv (onSubmitGMCommand c vs s)"
proof -
  let ?s = "setCommandResponse 0 (Str c) Undef s"
  have s: "gm_sys_inv ?s" using assms(1) by (intro gm_sys_result) simp_all
  have "gm_response s = 0" using gm_sys_parts(2)[OF assms(1)] by (simp add: one_object_def)
  note wf = gm_frame_wf[OF assms(2), of c]
  have "gm_sys_inv (startGmSocket ?s)"
    using s by (simp add: gm_sys_inv_def gm_inv_startGmSocket) (simp add: startGmSocket_def shows_texts_def)
  then have "gm_sys_inv ((startGmSocket ?s)\<lparr>gm_timers := gm_timers (startGmSocket ?s) @
      [(length (socks (gm_net ?s)), stringify (Obj [(''type'', Str ''gmCommand''),
        (''data'', Obj (prop_set ''command'' (Str c) vs))]))]\<rparr>)"
    using gm_kind_frames(2)[OF wf] by (simp add: gm_sys_inv_def shows_texts_def)
  with \<open>gm_response s = 0\<close> show ?thesis
    using gm_sys_send[OF s gm_kind_frames(3)[OF wf]]
    by (simp add: onSubmitGMCommand_def Let_def split: option.splits)
qed

lemma gm_sys_timer:
  assumes "gm_sys_inv s"
  shows "gm_sys_inv (onTimer i s)"
proof (cases "i < length (gm_timers s)")
  case True
  obtain c t where ct: "gm_timers s ! i = (c, t)" by (cases "gm_timers s ! i")
  let ?s = "s\<lparr>gm_timers := take i (gm_timers s) @ drop (Suc i) (gm_timers s)\<rparr>"
  have "requests gm_kind t" using assms True ct nth_mem[OF True] by (auto simp: gm_sys_inv_def)
  moreover have "gm_sys_inv ?s"
    using assms by (auto simp: gm_sys_inv_def shows_texts_def dest: in_set_takeD in_set_dropD)
  ultimately show ?thesis using True ct gm_sys_send[of ?s t c] by (simp add: onTimer_def)
qed (use assms in \<open>simp add: onTimer_def\<close>)

text \<open>A step that leaves the results, the frames and the timers as they are.\<close>

lemma gm_sys_same:
  assumes "gm_sys_inv s" and "gm_shown t = gm_shown s" and "gm_net t = gm_net s" and "gm_timers t = gm_timers s"
    and "gm_inv t"
  shows "gm_sys_inv t"
  using assms by (simp add: gm_sys_inv_def shows_texts_def)

lemma gm_sys_user:
  assumes "gm_sys_inv s" and "gm_user ev"
  shows "gm_sys_inv (gm_act ev s)"
proof -
  note inv = gm_act_inv[OF gm_sys_parts(1)[OF assms(1)], of ev]
  have one: "gm_shown s = gm_object 0 s" "gm_response s = 0"
    using gm_sys_parts(2)[OF assms(1)] by (simp_all add: one_object_def)
  show ?thesis
  proof (cases ev)
    case (FormSubmit vs)
    with assms show ?thesis by (auto simp: onSubmit_def gm_sys_submit split: option.splits)
  next
    case (Timer i)
    with assms(1) show ?thesis by (simp add: gm_sys_timer)
  next
    case (GmReceive i t)
    with assms(2) show ?thesis by simp
  qed (rule gm_sys_same[OF assms(1) _ _ _ inv]; use one in \<open>simp add: onClickGmCommand_def onMenuSelected_def
      onCommandSelected_def rendered_def gm_object_def split: option.splits\<close>)+
qed

lemma gm_sys_opened: "gm_sys_inv p \<Longrightarrow> gm_sys_inv (onopenGm i p)"
proof -
  assume p: "gm_sys_inv p"
  have "gm_sys_inv (rendered (p\<lparr>gm_net := mark i OPEN (gm_net p), gm_client := Some i\<rparr>))"
    by (rule gm_sys_rendered) (use p gm_sys_mark[of i OPEN p] in simp)
  from gm_sys_send[OF this gm_kind_frames(1), of i] show ?thesis
    by (simp add: onopenGm_def gmClientEffect_def rendered_def)
qed

lemma gm_sys_closed: "gm_sys_inv p \<Longrightarrow> gm_sys_inv (oncloseGm i p)"
  unfolding oncloseGm_def by (rule gm_sys_rendered) (use gm_sys_mark[of i CLOSED p] in simp)

section \<open>Both together\<close>

interpretation gm: served_page telnet gm_kind gm_text_answer gm_cont "gm_env telnet" "\<lambda>f. True"
  gm0 gm_step gm_receive gm_texts gm_sys_inv
  for telnet
proof unfold_locales
  fix req e f f' ms r
  assume "gm_kind req" "gm_env telnet e" "dispatcher e req f = (f', ms, r)"
  from gm_dispatched[OF this] show "True \<and> (\<forall>m \<in> set ms. gm_text_answer m)
      \<and> outcome_ok telnet gm_text_answer gm_cont r" by simp
next
  show "gm_sys_inv gm0"
    using gm_inv_reach[OF ws_reach.start]
    by (simp add: gm_sys_inv_def) (simp add: gm0_def startGmSocket_def shows_texts_def)
next
  fix p p'
  assume "gm_sys_inv p" "gm_step p p'"
  from this(2,1) show "gm_sys_inv p'"
    by cases (simp_all add: gm_sys_opened gm_sys_closed gm_sys_user del: gm_act.simps)
next
  fix p m t p'
  assume "gm_sys_inv p" "gm_text_answer m" "JSON_parse t = Inr (message_value m)" "gm_receive t p p'"
  then show "gm_sys_inv p'" using gm_sys_receive by (auto simp: gm_receive_def simp del: gm_act.simps)
next
  fix p t
  assume "gm_sys_inv p" "t \<in> gm_texts p"
  then show "requests gm_kind t" by (auto simp: gm_sys_inv_def gm_texts_def)
qed (use gm_resumed in blast)

abbreviation gm_system :: "(string \<Rightarrow> bool) \<Rightarrow> gm_page \<Rightarrow> admin \<Rightarrow> bool" where
  "gm_system telnet \<equiv> system telnet (gm_env telnet) (\<lambda>f. True) gm0 gm_step gm_receive gm_texts"


text \<open>A run: the page connects and asks for the list while no game server is registered.\<close>

definition no_stubs :: admin_env where
  "no_stubs = \<lparr>en_servers = [], en_stubs = [], en_entity = (\<lambda>_. None), en_write = None,
     en_table = \<lparr>te_open = None, te_write = None, te_stat = (\<lambda>_. Missing),
       te_unmarshal_error = (\<lambda>_. ''error''), te_order = (\<lambda>r. r), te_run = (\<lambda>_. Output '''' ''''),
       te_combined = (\<lambda>_. Inr ''''), te_merge = (@), te_decode = (\<lambda>s. s), te_format = (\<lambda>_. '''')\<rparr>\<rparr>"

definition list_text :: string where
  "list_text = stringify (Obj [(''type'', Str ''gmList'')])"

definition gm_asked :: gm_page where
  "gm_asked = onopenGm 0 gm0"

definition admin_listed :: admin where
  "admin_listed = admin_act (\<lambda>s. False) (Handle 0 no_stubs) (admin_act (\<lambda>s. False) (Arrive 0 list_text)
     (admin_act (\<lambda>s. False) NewConnection (admin0 None)))"

definition empty_list :: web_message where
  "empty_list = \<lparr>wm_type = ''gmList'', wm_target = '''', wm_command = '''', wm_data = Str ''{}''\<rparr>"

lemma gm_asked_frames: "frames (gm_net gm_asked) = [(0, list_text)]" "socks (gm_net gm_asked) = [OPEN]"
  "gm_client gm_asked = Some 0" "gm_timers gm_asked = []" "GMData gm_asked = []"
  "gmCommandProps gm_asked = Some no_gm_props"
proof -
  have "ready_of (mark 0 OPEN (gm_net gm0)) 0 = OPEN" by (simp add: gm0_def startGmSocket_def ready_of_def)
  then show "frames (gm_net gm_asked) = [(0, list_text)]" "socks (gm_net gm_asked) = [OPEN]"
    "gm_client gm_asked = Some 0" "gm_timers gm_asked = []" "GMData gm_asked = []"
    "gmCommandProps gm_asked = Some no_gm_props"
    by (simp_all add: gm_asked_def onopenGm_def gmClientEffect_def rendered_def gmSend_def send_open list_text_def)
      (simp_all add: gm0_def startGmSocket_def)
qed

lemma gm_listed_run: "gm_system (\<lambda>s. False) gm_asked admin_listed" "empty_list \<in> sent_by_admin admin_listed"
proof -
  have r: "ready_of (gm_net gm0) 0 = CONNECTING" by (simp add: gm0_def startGmSocket_def ready_of_def)
  have "gm_system (\<lambda>s. False) gm0 (admin0 None)" by (rule system.start) simp
  from system.page[OF this gm_step.opened[OF r]] have "gm_system (\<lambda>s. False) gm_asked (admin0 None)"
    by (simp add: gm_asked_def)
  then have n: "gm_system (\<lambda>s. False) gm_asked (admin_act (\<lambda>s. False) NewConnection (admin0 None))"
    by (rule system.internal) simp
  have "list_text \<in> gm_texts gm_asked" by (simp add: gm_texts_def gm_asked_frames)
  from system.to_admin[OF n this, of 0] show "gm_system (\<lambda>s. False) gm_asked admin_listed"
    unfolding admin_listed_def by (rule system.internal) (simp add: gm_env_def no_stubs_def)
  have "JSON_parse list_text = Inr (Obj [(''type'', Str ''gmList'')])"
    unfolding list_text_def by (subst JSON_parse_stringify) (simp_all add: prop_ordered_names array_index_name is_digit_def)
  then have "decode_message list_text = Decoded (web_message0\<lparr>wm_type := ''gmList''\<rparr>)"
    by (simp add: decode_message_def go_string_def go_any_def prop_get_Cons web_message0_def)
  then show "empty_list \<in> sent_by_admin admin_listed"
    by (simp add: admin_listed_def sent_by_admin_def admin_act_def admin0_def ws_conn0_def onArrive_def on_conn_def
        onHandle_def dispatcher_def onGetGMList_def no_stubs_def web_message0_def finish_def set_call_def
        ws_write_def outcome_messages_def text_reply_def empty_list_def Let_def)
qed


section \<open>A page without a list\<close>

text \<open>The user's steps, and what happens to connections by itself, while nothing arrives.\<close>

fun gm_alone :: "gm_event \<Rightarrow> gm_page \<Rightarrow> gm_page" where
  "gm_alone (GmReceive i t) s = s"
| "gm_alone ev s = gm_act ev s"

definition gm_deaf :: "gm_page \<Rightarrow> bool" where
  "gm_deaf s \<longleftrightarrow> GMData s = [] \<and> shown_form s = None \<and> (\<forall>i < length (socks (gm_net s)). socks (gm_net s) ! i = CLOSED)"

lemma gm_deaf_ready: "gm_deaf s \<Longrightarrow> ready_of (gm_net s) i = CLOSED"
  by (simp add: gm_deaf_def ready_of_def)

lemma gm_deaf_labels: "gm_inv s \<Longrightarrow> gm_deaf s \<Longrightarrow> menu_keys s = [] \<and> selectOptions s = []"
  by (auto simp: gm_inv_def menu_ok_def menu_keys_def gm_deaf_def)

lemma gm_deaf_alone:
  assumes "gm_inv s" and "gm_deaf s"
  shows "gm_deaf (gm_alone ev s) \<and> socks (gm_net (gm_alone ev s)) = socks (gm_net s)
    \<and> frames (gm_net (gm_alone ev s)) = frames (gm_net s)"
proof (cases ev)
  case (SelectChange v)
  with gm_deaf_labels[OF assms] assms(2) show ?thesis
    by (auto simp: onCommandSelected_def rendered_def gm_deaf_def shown_form_def no_gm_props_def split: option.splits)
next
  case (Timer i)
  have "ready_of (gm_net s) c = CLOSED" for c using assms(2) by (rule gm_deaf_ready)
  with Timer assms(2) show ?thesis
    by (simp add: onTimer_def gmSend_def send_def gm_deaf_def shown_form_def case_prod_beta' Let_def)
qed (use gm_deaf_labels[OF assms] assms(2) in \<open>simp_all add: gm_deaf_def\<close>)

lemma gm_alone_inv: "gm_inv s \<Longrightarrow> gm_inv (gm_alone ev s)"
  by (cases ev) (simp_all add: gm_act_inv del: gm_act.simps)

lemma gm_deaf_forever:
  assumes "ws_reach gm_net onopenGm oncloseGm gm_alone s t" and "gm_inv s" and "gm_deaf s"
  shows "gm_inv t \<and> gm_deaf t \<and> socks (gm_net t) = socks (gm_net s) \<and> frames (gm_net t) = frames (gm_net s)"
  using assms(1)
proof (induction rule: ws_reach.induct)
  case (step t u)
  from step.hyps(2) show ?case
    using step.IH gm_deaf_ready[of t] gm_deaf_alone[of t] gm_alone_inv[of t]
    by cases auto
qed (use assms in simp)

definition no_list_page :: vnode where
  "no_list_page = Elem ''PageContainer'' []
     [Elem ''Result'' [(''status'', PS ''404''), (''title'', PS ''404''),
       (''subTitle'', PS ((utf8 [0x672A, 0x83B7, 0x53D6, 0x5230] @ ''GM'' @ utf8 [0x547D, 0x4EE4, 0x5217, 0x8868])))] []]"

text \<open>
  C15.  A page whose connection closes before it has a list is lost: whatever the user does, it makes
  no new connection and sends nothing, and it shows that it has no list (the form, whose submission is
  all that connects the page again, is never on it).
\<close>

theorem gm_page_stuck:
  assumes "gm_reach s" and "GMData s = []" and "shown_form s = None"
    and "\<And>i. i < length (socks (gm_net s)) \<Longrightarrow> socks (gm_net s) ! i = CLOSED"
    and "ws_reach gm_net onopenGm oncloseGm gm_alone s t"
  shows "render_gm t = Inr no_list_page \<and> socks (gm_net t) = socks (gm_net s)
    \<and> frames (gm_net t) = frames (gm_net s)"
proof -
  have "gm_inv s" using assms(1) by (rule gm_inv_reach)
  moreover have "gm_deaf s" using assms(2-4) by (simp add: gm_deaf_def)
  ultimately have "gm_deaf t \<and> socks (gm_net t) = socks (gm_net s) \<and> frames (gm_net t) = frames (gm_net s)"
    using gm_deaf_forever[OF assms(5)] by blast
  then show ?thesis by (simp add: render_gm_def gm_deaf_def no_list_page_def)
qed

theorem gm_page_stuck_witness:
  "render_gm (gm_alone (SelectChange None) (oncloseGm 0 gm_asked)) = Inr no_list_page
   \<and> socks (gm_net (gm_alone (SelectChange None) (oncloseGm 0 gm_asked))) = [CLOSED]"
proof -
  have "gm_reach gm_asked"
    unfolding gm_asked_def by (intro gm_reach_open ws_reach.start) (simp add: gm0_def startGmSocket_def ready_of_def)
  then have r: "gm_reach (oncloseGm 0 gm_asked)"
    by (rule gm_reach_close) (simp add: ready_of_def gm_asked_frames)
  have c: "GMData (oncloseGm 0 gm_asked) = []" "shown_form (oncloseGm 0 gm_asked) = None"
    "socks (gm_net (oncloseGm 0 gm_asked)) = [CLOSED]"
    by (simp_all add: oncloseGm_def gm_asked_frames shown_form_def) (simp_all add: rendered_def gm_asked_frames no_gm_props_def)
  show ?thesis
    using gm_page_stuck[OF r c(1,2) _ ws_reach.step[OF ws_reach.start ws_step.acted]] c(3)
    by (simp del: gm_alone.simps)
qed

end
