(* ===== verification/RingBuffer.thy ===== *)
theory RingBuffer
  imports Prelude "HOL-Library.Word"
begin

unbundle bit_operations_syntax

text \<open>
  The byte buffer of the connections between processes (\<open>engine/engine/RingBuffer/ring_buffer.go\<close>): a
  ring in an array whose size is a power of two, which grows when it is full and is halved whenever it
  becomes empty.  It refines a plain queue of bytes; a panic is \<open>None\<close>.
\<close>

section \<open>Powers of two\<close>

definition fillBits :: "int \<Rightarrow> int" where
  "fillBits n =
     (let n = n OR drop_bit 1 n;
          n = n OR drop_bit 2 n;
          n = n OR drop_bit 4 n;
          n = n OR drop_bit 8 n;
          n = n OR drop_bit 16 n;
          n = n OR drop_bit 32 n
      in n)"

definition maxintHeadBit :: int where
  "maxintHeadBit = 2 ^ 62"

definition CeilToPowerOfTwo :: "int \<Rightarrow> int option" where
  "CeilToPowerOfTwo n =
     (if n AND maxintHeadBit \<noteq> 0 \<and> n > maxintHeadBit then None
      else if n \<le> 2 then Some 2
      else Some (fillBits (n - 1) + 1))"

lemma smear:
  assumes "\<And>i. bit m i \<longleftrightarrow> (\<exists>d<w. bit (n::int) (i + d))"
  shows "bit (m OR drop_bit w m) i \<longleftrightarrow> (\<exists>d<2 * w. bit n (i + d))"
proof -
  have "bit (m OR drop_bit w m) i \<longleftrightarrow> (\<exists>d<w. bit n (i + d)) \<or> (\<exists>d<w. bit n (w + i + d))"
    by (simp add: bit_or_iff bit_drop_bit_eq assms add.commute)
  also have "\<dots> \<longleftrightarrow> (\<exists>d<2 * w. bit n (i + d))"
  proof (intro iffI)
    assume "\<exists>d<2 * w. bit n (i + d)"
    then obtain d where d: "d < 2 * w" "bit n (i + d)" by blast
    show "(\<exists>d<w. bit n (i + d)) \<or> (\<exists>d<w. bit n (w + i + d))"
    proof (cases "d < w")
      case False
      with d have "d - w < w" "bit n (w + i + (d - w))" by (simp_all add: add.commute add.left_commute)
      then show ?thesis by blast
    qed (use d in blast)
  next
    assume "(\<exists>d<w. bit n (i + d)) \<or> (\<exists>d<w. bit n (w + i + d))"
    then show "\<exists>d<2 * w. bit n (i + d)"
    proof
      assume "\<exists>d<w. bit n (w + i + d)"
      then obtain d where "d < w" "bit n (i + (w + d))" by (auto simp: ac_simps)
      then show ?thesis by (intro exI[of _ "w + d"]) simp
    qed (use less_le_trans in fastforce)
  qed
  finally show ?thesis .
qed

lemma fillBits_bits: "bit (fillBits n) i \<longleftrightarrow> (\<exists>d<64. bit n (i + d))"
proof -
  have 1: "bit n i \<longleftrightarrow> (\<exists>d<1. bit n (i + d))" for i by auto
  note 2 = smear[OF 1, simplified]
  note 4 = smear[of _ 2, OF 2, simplified]
  note 8 = smear[of _ 4, OF 4, simplified]
  note 16 = smear[of _ 8, OF 8, simplified]
  note 32 = smear[of _ 16, OF 16, simplified]
  note 64 = smear[of _ 32, OF 32, simplified]
  show ?thesis unfolding fillBits_def Let_def using 64 by simp
qed

lemma fillBits_power:
  assumes "2 ^ k \<le> n" and "n < 2 ^ Suc k" and "k < 64"
  shows "fillBits n = 2 ^ Suc k - 1"
proof -
  have n: "bit n j \<Longrightarrow> j \<le> k" for j
  proof (rule ccontr)
    assume "bit n j" "\<not> j \<le> k"
    then have "n < 2 ^ j" using assms(2) power_increasing[of "Suc k" j "2::int"] by simp
    moreover have "0 \<le> n" using assms(1) by (smt (verit) zero_le_power)
    ultimately have "n div 2 ^ j = 0" by (simp add: div_pos_pos_trivial)
    with \<open>bit n j\<close> show False by (simp add: bit_iff_odd)
  qed
  have "n div 2 ^ k = 1"
    using assms(1,2) by (intro int_div_pos_eq[of n "2 ^ k" 1 "n - 2 ^ k"]) simp_all
  then have k: "bit n k" by (simp add: bit_iff_odd)
  have "bit (fillBits n) i \<longleftrightarrow> i < Suc k" for i
  proof
    assume "bit (fillBits n) i"
    then show "i < Suc k" using n by (fastforce simp: fillBits_bits)
  next
    assume "i < Suc k"
    then have "k - i < 64" "bit n (i + (k - i))" using k assms(3) by simp_all
    then show "bit (fillBits n) i" unfolding fillBits_bits by blast
  qed
  then have "fillBits n = mask (Suc k)" by (auto simp: bit_eq_iff bit_mask_iff)
  then show ?thesis by (simp add: mask_eq_exp_minus_1)
qed

lemma power_interval: "0 < (n::nat) \<Longrightarrow> \<exists>k. 2 ^ k \<le> n \<and> n < 2 ^ Suc k"
  using ex_power_ivl1[of 2 n] by auto

lemma ceil_power:
  assumes "n \<le> 2 ^ 62"
  shows "\<exists>k. CeilToPowerOfTwo n = Some (2 ^ Suc k) \<and> n \<le> 2 ^ Suc k \<and> (2 < n \<longrightarrow> 2 ^ k < n) \<and> k < 62"
proof (cases "n \<le> 2")
  case True
  then show ?thesis using assms by (intro exI[of _ 0]) (simp add: CeilToPowerOfTwo_def maxintHeadBit_def)
next
  case False
  then obtain k where "2 ^ k \<le> nat (n - 1)" "nat (n - 1) < 2 ^ Suc k" using power_interval[of "nat (n - 1)"] by auto
  then have "2 ^ k \<le> int (nat (n - 1))" "int (nat (n - 1)) < 2 ^ Suc k"
    by (metis of_nat_le_iff of_nat_numeral of_nat_power, metis of_nat_less_iff of_nat_numeral of_nat_power)
  then have k: "2 ^ k \<le> n - 1" "n - 1 < 2 ^ Suc k" using False by simp_all
  have "k < 62"
  proof (rule ccontr)
    assume "\<not> k < 62"
    then have "(2::int) ^ 62 \<le> 2 ^ k" using power_increasing[of 62 k "2::int"] by simp
    with k(1) assms show False by simp
  qed
  then have "fillBits (n - 1) = 2 ^ Suc k - 1" using fillBits_power[OF k] by simp
  with k False assms \<open>k < 62\<close> show ?thesis
    by (intro exI[of _ k]) (auto simp: CeilToPowerOfTwo_def maxintHeadBit_def)
qed
section \<open>The ring\<close>

text \<open>
  The numbers of a ring are lengths and indices; the mask is -1 when the size is 0 after halving.
\<close>

record ring =
  rb_buf :: string
  rb_size :: nat
  rb_mask :: int
  rb_r :: nat
  rb_w :: nat
  rb_empty :: bool

definition zero_bytes :: "nat \<Rightarrow> string" where
  "zero_bytes n = replicate n (CHR 0x00)"

text \<open>\<open>b[i:j]\<close> and \<open>copy(b[i:], p)\<close>.\<close>

definition slice :: "string \<Rightarrow> nat \<Rightarrow> nat \<Rightarrow> string" where
  "slice b i j = take (j - i) (drop i b)"

definition copy_at :: "string \<Rightarrow> nat \<Rightarrow> string \<Rightarrow> string" where
  "copy_at b i p = take i b @ take (length b - i) p @ drop (i + length p) b"

definition initSize :: nat where
  "initSize = 4096"

definition New :: "nat \<Rightarrow> ring option" where
  "New n =
     (if n = 0 then Some \<lparr>rb_buf = [], rb_size = 0, rb_mask = 0, rb_r = 0, rb_w = 0, rb_empty = True\<rparr>
      else map_option (\<lambda>s. \<lparr>rb_buf = zero_bytes (nat s), rb_size = nat s, rb_mask = s - 1, rb_r = 0, rb_w = 0,
             rb_empty = True\<rparr>) (CeilToPowerOfTwo (int n)))"

definition Reset :: "ring \<Rightarrow> ring" where
  "Reset b =
     (let newCap = rb_size b div 2
      in \<lparr>rb_buf = zero_bytes newCap, rb_size = newCap, rb_mask = int newCap - 1, rb_r = 0, rb_w = 0,
          rb_empty = True\<rparr>)"

definition Length :: "ring \<Rightarrow> nat" where
  "Length b =
     (if rb_r b = rb_w b then (if rb_empty b then 0 else rb_size b)
      else if rb_w b > rb_r b then rb_w b - rb_r b
      else rb_size b - rb_r b + rb_w b)"

definition Free :: "ring \<Rightarrow> nat" where
  "Free b =
     (if rb_r b = rb_w b then (if rb_empty b then rb_size b else 0)
      else if rb_w b < rb_r b then rb_r b - rb_w b
      else rb_size b - rb_w b + rb_r b)"

definition Len :: "ring \<Rightarrow> nat" where
  "Len b = length (rb_buf b)"

definition Cap :: "ring \<Rightarrow> nat" where
  "Cap b = rb_size b"

definition IsFull :: "ring \<Rightarrow> bool" where
  "IsFull b \<longleftrightarrow> rb_r b = rb_w b \<and> \<not> rb_empty b"

definition IsEmpty :: "ring \<Rightarrow> bool" where
  "IsEmpty b \<longleftrightarrow> rb_empty b"

text \<open>\<open>head\<close> and \<open>tail\<close>; a nil slice is the empty text.\<close>

definition LazyRead :: "int \<Rightarrow> ring \<Rightarrow> string \<times> string" where
  "LazyRead len b =
     (if rb_empty b then ([], [])
      else if len \<le> 0 then ([], [])
      else if rb_w b > rb_r b then
        let n = min (rb_w b - rb_r b) (nat len) in (slice (rb_buf b) (rb_r b) (rb_r b + n), [])
      else
        let n = min (rb_size b - rb_r b + rb_w b) (nat len) in
        if rb_r b + n \<le> rb_size b then (slice (rb_buf b) (rb_r b) (rb_r b + n), [])
        else
          let c1 = rb_size b - rb_r b; c2 = n - c1
          in (drop (rb_r b) (rb_buf b), take c2 (rb_buf b)))"

definition LazyReadAll :: "ring \<Rightarrow> string \<times> string" where
  "LazyReadAll b =
     (if rb_empty b then ([], [])
      else if rb_w b > rb_r b then (slice (rb_buf b) (rb_r b) (rb_w b), [])
      else (drop (rb_r b) (rb_buf b), if rb_w b \<noteq> 0 then take (rb_w b) (rb_buf b) else []))"

text \<open>\<open>(i + n) & mask\<close>.\<close>

definition masked :: "nat \<Rightarrow> ring \<Rightarrow> nat" where
  "masked i b = nat (int i AND rb_mask b)"

definition Shift :: "int \<Rightarrow> ring \<Rightarrow> ring" where
  "Shift n b =
     (if n \<le> 0 then b
      else if n < int (Length b) then b\<lparr>rb_r := masked (rb_r b + nat n) b\<rparr>
      else Reset b)"

text \<open>
  \<open>Read\<close> into a slice of length \<open>k\<close>: the bytes that are copied to its beginning, or \<open>ErrIsEmpty\<close>.
\<close>

datatype ring_error = ErrIsEmpty

definition reset_if_read :: "ring \<Rightarrow> ring" where
  "reset_if_read b = (if rb_r b = rb_w b then Reset b else b)"

definition Read :: "nat \<Rightarrow> ring \<Rightarrow> (ring_error + string) \<times> ring" where
  "Read k b =
     (if k = 0 then (Inr [], b)
      else if rb_empty b then (Inl ErrIsEmpty, b)
      else if rb_w b > rb_r b then
        let n = min (rb_w b - rb_r b) k
        in (Inr (slice (rb_buf b) (rb_r b) (rb_r b + n)), reset_if_read (b\<lparr>rb_r := rb_r b + n\<rparr>))
      else
        let n = min (rb_size b - rb_r b + rb_w b) k;
            p = (if rb_r b + n \<le> rb_size b then slice (rb_buf b) (rb_r b) (rb_r b + n)
                 else let c1 = rb_size b - rb_r b; c2 = n - c1
                      in drop (rb_r b) (rb_buf b) @ take c2 (rb_buf b))
        in (Inr p, reset_if_read (b\<lparr>rb_r := masked (rb_r b + n) b\<rparr>)))"

definition ReadByte :: "ring \<Rightarrow> (ring_error + char) \<times> ring" where
  "ReadByte b =
     (if rb_empty b then (Inl ErrIsEmpty, b)
      else
        let c = rb_buf b ! rb_r b;
            r = Suc (rb_r b);
            r' = (if r = rb_size b then 0 else r)
        in (Inr c, reset_if_read (b\<lparr>rb_r := r'\<rparr>)))"

definition malloc :: "nat \<Rightarrow> ring \<Rightarrow> ring option" where
  "malloc n b =
     (case (if rb_size b = 0 \<and> n < initSize then Some (int initSize)
            else CeilToPowerOfTwo (int (rb_size b + n))) of
        None \<Rightarrow> None
      | Some newCap \<Rightarrow>
          let newBuf = zero_bytes (nat newCap);
              oldLen = Length b;
              (p, b') = Read (nat newCap) b;
              newBuf = (case p of Inl e \<Rightarrow> newBuf | Inr s \<Rightarrow> copy_at newBuf 0 s)
          in Some (b'\<lparr>rb_buf := newBuf, rb_r := 0, rb_w := oldLen, rb_size := nat newCap, rb_mask := newCap - 1\<rparr>))"

definition wrap_w :: "ring \<Rightarrow> ring" where
  "wrap_w b = (if rb_w b = rb_size b then b\<lparr>rb_w := 0\<rparr> else b)\<lparr>rb_empty := False\<rparr>"

text \<open>Putting bytes behind what is there, and all of \<open>Write\<close>, which always writes all of its bytes.\<close>

definition put :: "string \<Rightarrow> ring \<Rightarrow> ring" where
  "put p b =
     (let n = length p in
      if rb_w b \<ge> rb_r b then
        let c1 = rb_size b - rb_w b in
        if c1 \<ge> n then b\<lparr>rb_buf := copy_at (rb_buf b) (rb_w b) p, rb_w := rb_w b + n\<rparr>
        else
          let c2 = n - c1;
              buf = copy_at (rb_buf b) (rb_w b) (take c1 p)
          in b\<lparr>rb_buf := copy_at buf 0 (drop c1 p), rb_w := c2\<rparr>
      else b\<lparr>rb_buf := copy_at (rb_buf b) (rb_w b) p, rb_w := rb_w b + n\<rparr>)"

definition Write :: "string \<Rightarrow> ring \<Rightarrow> ring option" where
  "Write p b =
     (let n = length p in
      if n = 0 then Some b
      else
        let free = Free b in
        case (if n > free then malloc (n - free) b else Some b) of None \<Rightarrow> None
        | Some b \<Rightarrow> Some (wrap_w (put p b)))"

definition WriteByte :: "char \<Rightarrow> ring \<Rightarrow> ring option" where
  "WriteByte c b =
     (case (if Free b < 1 then malloc 1 b else Some b) of None \<Rightarrow> None
      | Some b \<Rightarrow> Some (wrap_w (b\<lparr>rb_buf := (rb_buf b)[rb_w b := c], rb_w := Suc (rb_w b)\<rparr>)))"

definition WriteString :: "string \<Rightarrow> ring \<Rightarrow> ring option" where
  "WriteString s b = Write s b"

definition ByteBuffer :: "ring \<Rightarrow> string option" where
  "ByteBuffer b =
     (if rb_empty b then None
      else if rb_w b = rb_r b then Some (drop (rb_r b) (rb_buf b) @ take (rb_w b) (rb_buf b))
      else if rb_w b > rb_r b then Some (slice (rb_buf b) (rb_r b) (rb_w b))
      else Some (drop (rb_r b) (rb_buf b) @ (if rb_w b \<noteq> 0 then take (rb_w b) (rb_buf b) else [])))"

definition WithByteBuffer :: "string \<Rightarrow> ring \<Rightarrow> string" where
  "WithByteBuffer s b =
     (if rb_empty b then s
      else if rb_w b = rb_r b then drop (rb_r b) (rb_buf b) @ take (rb_w b) (rb_buf b) @ s
      else if rb_w b > rb_r b then slice (rb_buf b) (rb_r b) (rb_w b) @ s
      else drop (rb_r b) (rb_buf b) @ (if rb_w b \<noteq> 0 then take (rb_w b) (rb_buf b) else []) @ s)"

section \<open>What the ring holds\<close>

definition power_size :: "nat \<Rightarrow> bool" where
  "power_size n \<longleftrightarrow> n = 0 \<or> (\<exists>k. n = 2 ^ k)"

definition ring_ok :: "ring \<Rightarrow> bool" where
  "ring_ok b \<longleftrightarrow> length (rb_buf b) = rb_size b \<and> power_size (rb_size b)
     \<and> (rb_size b \<noteq> 0 \<longrightarrow> rb_mask b = int (rb_size b) - 1 \<and> rb_r b < rb_size b \<and> rb_w b < rb_size b)
     \<and> (rb_size b = 0 \<longrightarrow> rb_empty b) \<and> (rb_empty b \<longrightarrow> rb_r b = 0 \<and> rb_w b = 0)"

definition bytes_of :: "ring \<Rightarrow> string" where
  "bytes_of b =
     (if rb_empty b then []
      else if rb_r b < rb_w b then slice (rb_buf b) (rb_r b) (rb_w b)
      else drop (rb_r b) (rb_buf b) @ take (rb_w b) (rb_buf b))"

lemma masked_mod: "ring_ok b \<Longrightarrow> rb_size b \<noteq> 0 \<Longrightarrow> masked i b = i mod rb_size b"
proof -
  assume b: "ring_ok b" "rb_size b \<noteq> 0"
  then obtain k where k: "rb_size b = 2 ^ k" "rb_mask b = 2 ^ k - 1"
    by (auto simp: ring_ok_def power_size_def)
  have "int i AND rb_mask b = int i mod 2 ^ k"
    by (simp add: k(2) flip: mask_eq_exp_minus_1 take_bit_eq_mask take_bit_eq_mod)
  then show ?thesis by (simp add: masked_def k(1) nat_mod_as_int)
qed

lemma length_slice: "j \<le> length b \<Longrightarrow> length (slice b i j) = j - i"
  by (simp add: slice_def)

lemma length_bytes: "ring_ok b \<Longrightarrow> length (bytes_of b) = Length b"
  by (auto simp: ring_ok_def bytes_of_def Length_def length_slice)

lemma bytes_empty: "ring_ok b \<Longrightarrow> rb_empty b \<longleftrightarrow> bytes_of b = []"
  by (auto simp: bytes_of_def ring_ok_def slice_def)

lemma Free_Length: "ring_ok b \<Longrightarrow> Free b = rb_size b - Length b \<and> Length b \<le> rb_size b"
  by (auto simp: ring_ok_def Free_def Length_def)

lemma power_size_half: "power_size n \<Longrightarrow> power_size (n div 2)"
proof -
  have "power_size (2 ^ k div 2)" for k by (cases k) (simp_all add: power_size_def)
  then show "power_size n \<Longrightarrow> ?thesis" by (auto simp: power_size_def[of n]) (simp add: power_size_def)
qed

lemma Reset_ok: "ring_ok b \<Longrightarrow> ring_ok (Reset b)" "bytes_of (Reset b) = []"
  by (simp_all add: Reset_def bytes_of_def ring_ok_def Let_def zero_bytes_def power_size_half)

text \<open>The positions of a ring that holds something.\<close>

definition between :: "nat \<Rightarrow> nat \<Rightarrow> nat \<Rightarrow> nat" where
  "between s r w = (if r < w then w - r else s - r + w)"

lemma Length_between: "ring_ok b \<Longrightarrow> \<not> rb_empty b \<Longrightarrow> Length b = between (rb_size b) (rb_r b) (rb_w b)"
  by (auto simp: Length_def between_def ring_ok_def)

definition ahead :: "nat \<Rightarrow> nat \<Rightarrow> nat \<Rightarrow> nat" where
  "ahead s r n = (if r + n < s then r + n else r + n - s)"

lemma ahead_mod: "r < s \<Longrightarrow> n \<le> s \<Longrightarrow> (r + n) mod s = ahead s r n"
  by (cases "r + n < s") (simp_all add: ahead_def le_mod_geq)

lemma between_ahead:
  assumes "r < s" and "w < s" and "n < between s r w"
  shows "between s (ahead s r n) w = between s r w - n" and "ahead s r n < s"
  using assms unfolding between_def ahead_def by (auto split: if_splits)

lemma meet_ahead:
  assumes "r < s" and "w < s" and "0 < n" and "n \<le> between s r w"
  shows "ahead s r n = w \<longleftrightarrow> n = between s r w" and "ahead s r n < s"
  using assms unfolding between_def ahead_def by (auto split: if_splits)

text \<open>The bytes as a window of the array put twice in a row, which starts at the read position.\<close>

definition window :: "ring \<Rightarrow> nat \<Rightarrow> nat \<Rightarrow> string" where
  "window b i n = take n (drop i (rb_buf b @ rb_buf b))"

lemma window_pieces:
  assumes "ring_ok b" and "i < rb_size b" and "n \<le> rb_size b"
  shows "window b i n = (if i + n \<le> rb_size b then slice (rb_buf b) i (i + n)
    else drop i (rb_buf b) @ take (n - (rb_size b - i)) (rb_buf b))"
  using assms by (simp add: window_def ring_ok_def slice_def)

lemma bytes_window:
  assumes "ring_ok b"
  shows "bytes_of b = window b (rb_r b) (Length b)"
  using assms by (auto simp: bytes_of_def window_def Length_def ring_ok_def slice_def)

lemma window_take: "n \<le> m \<Longrightarrow> window b i n = take n (window b i m)"
  by (simp add: window_def min_def)

lemma drop_window: "drop n (take (n + m) (drop i xs)) = take m (drop (i + n) xs)"
  by (simp add: drop_take add.commute)

lemma window_move:
  assumes "ring_ok b" and "i < rb_size b" and "n + m \<le> rb_size b"
  shows "window b (ahead (rb_size b) i n) m = drop n (window b i (n + m))"
proof (cases "i + n < rb_size b")
  case True
  then show ?thesis unfolding window_def drop_window by (simp add: ahead_def)
next
  case False
  have len: "length (rb_buf b) = rb_size b" using assms(1) by (simp add: ring_ok_def)
  let ?j = "i + n - rb_size b"
  have "m \<le> rb_size b - ?j" using False assms by linarith
  then have "take m (drop ?j (rb_buf b @ rb_buf b)) = take m (drop ?j (rb_buf b))" by (simp add: len)
  moreover have "drop (i + n) (rb_buf b @ rb_buf b) = drop ?j (rb_buf b)" using False by (simp add: len)
  ultimately show ?thesis unfolding window_def drop_window using False by (simp add: ahead_def)
qed

section \<open>Reading\<close>

lemma straight: "r < w \<Longrightarrow> w < s \<Longrightarrow> r + min (w - r) n < s" for r w s n :: nat
  by auto

lemma LazyReadAll_bytes: "ring_ok b \<Longrightarrow> fst (LazyReadAll b) @ snd (LazyReadAll b) = bytes_of b"
  by (auto simp: LazyReadAll_def bytes_of_def)

text \<open>What both reading operations take out of the array, and how long it is.\<close>

definition pieces :: "nat \<Rightarrow> ring \<Rightarrow> string \<times> string" where
  "pieces n b =
     (if rb_r b + n \<le> rb_size b then (slice (rb_buf b) (rb_r b) (rb_r b + n), [])
      else (drop (rb_r b) (rb_buf b), take (n - (rb_size b - rb_r b)) (rb_buf b)))"

lemma pieces_window:
  assumes "ring_ok b" and "rb_r b < rb_size b" and "n \<le> rb_size b"
  shows "fst (pieces n b) @ snd (pieces n b) = window b (rb_r b) n"
  unfolding window_pieces[OF assms] pieces_def by simp

lemma pieces_straight:
  "rb_r b < rb_w b \<Longrightarrow> rb_w b < rb_size b \<Longrightarrow>
     pieces (min (rb_w b - rb_r b) n) b = (slice (rb_buf b) (rb_r b) (rb_r b + min (rb_w b - rb_r b) n), [])"
  using straight[of "rb_r b" "rb_w b" "rb_size b" n] by (simp only: pieces_def less_imp_le if_True)

lemma window_min:
  assumes "ring_ok b"
  shows "window b (rb_r b) (min (Length b) n) = take n (bytes_of b)"
  unfolding bytes_window[OF assms] window_def take_take by (simp only: min.commute)

lemma LazyRead_pieces:
  assumes "ring_ok b" and "\<not> rb_empty b" and "\<not> n \<le> 0"
  shows "LazyRead n b = pieces (min (Length b) (nat n)) b"
proof -
  have w: "rb_w b < rb_size b" using assms(1,2) by (auto simp: ring_ok_def)
  note e = assms(2,3) LazyRead_def Length_between[OF assms(1,2)] between_def Let_def if_True if_False
  show ?thesis
  proof (cases "rb_r b < rb_w b")
    case True
    with pieces_straight[OF True w] show ?thesis by (simp only: e)
  next
    case False
    then show ?thesis by (simp only: e pieces_def)
  qed
qed

lemma LazyRead_bytes:
  assumes "ring_ok b"
  shows "fst (LazyRead n b) @ snd (LazyRead n b) = take (nat n) (bytes_of b)"
proof (cases "rb_empty b \<or> n \<le> 0")
  case False
  let ?m = "min (Length b) (nat n)"
  have r: "rb_r b < rb_size b" "?m \<le> rb_size b"
    using False assms Free_Length[OF assms] by (auto simp: ring_ok_def)
  have "fst (LazyRead n b) @ snd (LazyRead n b) = window b (rb_r b) ?m"
    using False by (simp only: LazyRead_pieces[OF assms] pieces_window[OF assms r] de_Morgan_disj simp_thms)
  also have "\<dots> = take (nat n) (bytes_of b)"
    by (rule window_min[OF assms])
  finally show ?thesis .
qed (auto simp: LazyRead_def bytes_of_def)

text \<open>Moving the read position, by less than what is there.\<close>

lemma move_read:
  assumes "ring_ok b" and "n < Length b"
  shows "ring_ok (b\<lparr>rb_r := masked (rb_r b + n) b\<rparr>) \<and> bytes_of (b\<lparr>rb_r := masked (rb_r b + n) b\<rparr>) = drop n (bytes_of b)"
proof -
  have ne: "\<not> rb_empty b" using assms by (auto simp: Length_def ring_ok_def)
  then have s: "rb_size b \<noteq> 0" "rb_r b < rb_size b" "rb_w b < rb_size b" using assms(1) by (auto simp: ring_ok_def)
  let ?r = "ahead (rb_size b) (rb_r b) n"
  let ?b = "b\<lparr>rb_r := masked (rb_r b + n) b\<rparr>"
  have n: "n < between (rb_size b) (rb_r b) (rb_w b)" using assms(2) by (simp add: Length_between[OF assms(1) ne])
  have "n \<le> rb_size b" using assms Free_Length[OF assms(1)] by simp
  then have b: "?b = b\<lparr>rb_r := ?r\<rparr>" by (simp add: masked_mod[OF assms(1) s(1)] ahead_mod[OF s(2)])
  have ok: "ring_ok ?b" using assms(1) ne s between_ahead(2)[OF s(2,3) n] unfolding b by (simp add: ring_ok_def)
  have "Length ?b = Length b - n"
    using between_ahead(1)[OF s(2,3) n] Length_between[OF ok] ne Length_between[OF assms(1) ne] by (simp add: b)
  then have "bytes_of ?b = window b ?r (Length b - n)"
    using bytes_window[OF ok] by (simp add: b window_def)
  also have "\<dots> = drop n (window b (rb_r b) (n + (Length b - n)))"
    using assms Free_Length[OF assms(1)] by (intro window_move s) auto
  also have "\<dots> = drop n (bytes_of b)" using assms(2) by (simp add: bytes_window[OF assms(1)])
  finally show ?thesis using ok by blast
qed

lemma Shift_bytes:
  assumes "ring_ok b"
  shows "ring_ok (Shift n b) \<and> bytes_of (Shift n b) = drop (nat n) (bytes_of b)"
proof (cases "0 < n \<and> n < int (Length b)")
  case True
  then have "nat n < Length b" by linarith
  with True show ?thesis using move_read[OF assms, of "nat n"] by (simp add: Shift_def)
next
  case False
  then show ?thesis using assms Reset_ok length_bytes[OF assms] by (auto simp: Shift_def)
qed

text \<open>All that is there is read exactly if the positions meet.\<close>

lemma read_step:
  assumes "ring_ok b" and "\<not> rb_empty b" and "n \<le> Length b" and "0 < n"
  shows "ring_ok (reset_if_read (b\<lparr>rb_r := masked (rb_r b + n) b\<rparr>))
    \<and> bytes_of (reset_if_read (b\<lparr>rb_r := masked (rb_r b + n) b\<rparr>)) = drop n (bytes_of b)"
proof -
  let ?b = "b\<lparr>rb_r := masked (rb_r b + n) b\<rparr>"
  have s: "rb_size b \<noteq> 0" "rb_r b < rb_size b" "rb_w b < rb_size b" using assms(1,2) by (auto simp: ring_ok_def)
  have meet: "rb_r ?b = rb_w ?b \<longleftrightarrow> n = Length b"
    using assms(3,4) meet_ahead(1)[OF s(2,3), of n] Free_Length[OF assms(1)]
    by (simp add: masked_mod[OF assms(1) s(1)] Length_between[OF assms(1,2)] ahead_mod[OF s(2)])
  show ?thesis
  proof (cases "n = Length b")
    case True
    have "ring_ok ?b" using assms(1,2) s by (simp add: ring_ok_def masked_mod[OF assms(1) s(1)])
    with True meet show ?thesis
      using Reset_ok length_bytes[OF assms(1)] by (auto simp: reset_if_read_def)
  next
    case False
    with meet move_read[OF assms(1), of n] assms(3) show ?thesis by (simp add: reset_if_read_def)
  qed
qed

lemma Read_pieces:
  assumes "ring_ok b" and "\<not> rb_empty b" and "k \<noteq> 0"
  shows "Read k b = (let n = min (Length b) k in
    (Inr (fst (pieces n b) @ snd (pieces n b)), reset_if_read (b\<lparr>rb_r := masked (rb_r b + n) b\<rparr>)))"
proof -
  have s: "rb_size b \<noteq> 0" "rb_w b < rb_size b" using assms(1,2) by (auto simp: ring_ok_def)
  note e = assms(2,3) Read_def Length_between[OF assms(1,2)] between_def Let_def if_True if_False
  show ?thesis
  proof (cases "rb_r b < rb_w b")
    case True
    have "masked (rb_r b + min (rb_w b - rb_r b) k) b = rb_r b + min (rb_w b - rb_r b) k"
      using straight[OF True s(2), of k] by (simp only: masked_mod[OF assms(1) s(1)] mod_less)
    with True pieces_straight[OF True s(2), of k] show ?thesis by (simp only: e fst_conv snd_conv append_Nil2)
  next
    case False
    then show ?thesis
      by (cases "rb_r b + min (rb_size b - rb_r b + rb_w b) k \<le> rb_size b")
        (simp_all only: e pieces_def fst_conv snd_conv append_Nil2)
  qed
qed

lemma Read_bytes:
  assumes "ring_ok b"
  shows "fst (Read k b) = (if k \<noteq> 0 \<and> bytes_of b = [] then Inl ErrIsEmpty else Inr (take k (bytes_of b)))
    \<and> ring_ok (snd (Read k b)) \<and> bytes_of (snd (Read k b)) = drop k (bytes_of b)"
proof (cases "k = 0 \<or> rb_empty b")
  case True
  then show ?thesis using assms bytes_empty[OF assms] by (auto simp: Read_def)
next
  case False
  let ?n = "min (Length b) k"
  have ne: "\<not> rb_empty b" using False by simp
  have s: "rb_size b \<noteq> 0" "rb_r b < rb_size b" "rb_w b < rb_size b" "Length b \<le> rb_size b" "0 < Length b"
    using assms ne Free_Length[OF assms] by (auto simp: ring_ok_def Length_def)
  have k: "k \<noteq> 0" "?n \<le> rb_size b" using False s(4) by auto
  have r: "Read k b = (Inr (window b (rb_r b) ?n), reset_if_read (b\<lparr>rb_r := masked (rb_r b + ?n) b\<rparr>))"
    by (simp only: Read_pieces[OF assms ne k(1)] pieces_window[OF assms s(2) k(2)] Let_def)
  have "window b (rb_r b) ?n = take k (bytes_of b)"
    by (rule window_min[OF assms])
  moreover have "drop ?n (bytes_of b) = drop k (bytes_of b)" using length_bytes[OF assms] by (simp add: min_def)
  moreover have "bytes_of b \<noteq> []" using bytes_empty[OF assms] ne by simp
  ultimately show ?thesis using read_step[OF assms ne, of ?n] s(5) False by (simp add: r)
qed

lemma ReadByte_bytes:
  assumes "ring_ok b"
  shows "fst (ReadByte b) = (case bytes_of b of [] \<Rightarrow> Inl ErrIsEmpty | c # cs \<Rightarrow> Inr c)
    \<and> ring_ok (snd (ReadByte b)) \<and> bytes_of (snd (ReadByte b)) = tl (bytes_of b)"
proof (cases "rb_empty b")
  case True
  then show ?thesis using assms bytes_empty[OF assms] by (simp add: ReadByte_def)
next
  case False
  have s: "rb_size b \<noteq> 0" "rb_r b < rb_size b" "rb_w b < rb_size b" "0 < Length b"
    using assms False by (auto simp: ring_ok_def Length_def)
  have "(if Suc (rb_r b) = rb_size b then 0 else Suc (rb_r b)) = masked (rb_r b + 1) b"
    using s by (simp add: masked_mod[OF assms s(1)])
  then have r: "ReadByte b = (Inr (rb_buf b ! rb_r b), reset_if_read (b\<lparr>rb_r := masked (rb_r b + 1) b\<rparr>))"
    using False by (simp add: ReadByte_def Let_def)
  have "bytes_of b ! 0 = rb_buf b ! rb_r b"
    using s assms by (simp add: bytes_window[OF assms] window_def ring_ok_def nth_append)
  moreover have "bytes_of b \<noteq> []" using bytes_empty[OF assms] False by simp
  ultimately show ?thesis
    using read_step[OF assms False, of 1] s(4) by (cases "bytes_of b") (simp_all add: r)
qed
section \<open>Writing\<close>

lemma copy_at_eq: "i + length p \<le> length b \<Longrightarrow> copy_at b i p = take i b @ p @ drop (i + length p) b"
  by (simp add: copy_at_def)

lemma length_copy_at: "i \<le> length b \<Longrightarrow> length (copy_at b i p) = length b"
  by (auto simp: copy_at_def)

text \<open>
  The window of an array after the bytes \<open>p\<close> were put behind its first \<open>m\<close> bytes: in one piece, behind
  them but wrapped around, and in the middle of the array.
\<close>

definition cyclic :: "string \<Rightarrow> nat \<Rightarrow> nat \<Rightarrow> string" where
  "cyclic b i n = take n (drop i (b @ b))"

lemma cyclic_straight: "i + n \<le> length b \<Longrightarrow> cyclic b i n = take n (drop i b)"
  by (simp add: cyclic_def)

lemma cyclic_wrapped: "i \<le> length b \<Longrightarrow> length b \<le> i + n \<Longrightarrow> n \<le> length b \<Longrightarrow>
    cyclic b i n = drop i b @ take (i + n - length b) b"
  by (simp add: cyclic_def add.commute)

lemma put_straight:
  assumes "r + m + length p \<le> length b"
  shows "cyclic (copy_at b (r + m) p) r (m + length p) = cyclic b r m @ p"
proof -
  have l: "length (copy_at b (r + m) p) = length b" using assms by (simp add: length_copy_at)
  have "cyclic (copy_at b (r + m) p) r (m + length p) = take (m + length p) (drop r (copy_at b (r + m) p))"
    using assms l by (intro cyclic_straight) simp
  also have "\<dots> = take m (drop r b) @ p"
    using assms by (simp add: copy_at_eq) (simp add: drop_take)
  also have "take m (drop r b) = cyclic b r m" using assms by (simp add: cyclic_straight)
  finally show ?thesis .
qed

lemma drop_over: "length q \<le> r \<Longrightarrow> drop r (q @ drop (length q) xs) = drop r xs"
  by simp

lemma put_wrapped:
  assumes "r + m < length b" and "length b < r + m + length p" and "m + length p \<le> length b"
  defines "c \<equiv> length b - (r + m)"
  shows "cyclic (copy_at (copy_at b (r + m) (take c p)) 0 (drop c p)) r (m + length p) = cyclic b r m @ p"
proof -
  let ?b1 = "take (r + m) b @ take c p"
  have b1: "copy_at b (r + m) (take c p) = ?b1"
    using assms by (subst copy_at_eq) simp_all
  have l1: "length ?b1 = length b" using assms by simp
  have c2: "length (drop c p) \<le> r" "c \<le> length p" using assms by simp_all
  let ?b2 = "drop c p @ drop (length (drop c p)) ?b1"
  have b2: "copy_at ?b1 0 (drop c p) = ?b2"
    using c2 l1 assms(1) by (subst copy_at_eq) simp_all
  have l2: "length ?b2 = length b" using l1 c2 assms(1) by simp
  have "cyclic ?b2 r (m + length p) = drop r ?b2 @ take (r + (m + length p) - length b) ?b2"
    using l2 assms by (subst cyclic_wrapped) simp_all
  also have "r + (m + length p) - length b = length (drop c p)" using assms by simp
  also have "take (length (drop c p)) ?b2 = drop c p" by simp
  also have "drop r ?b2 = drop r ?b1" using c2(1) by (rule drop_over)
  also have "drop r ?b1 = take m (drop r b) @ take c p" using assms(1) by (simp add: drop_take)
  also have "take m (drop r b) = cyclic b r m" using assms(1) by (simp add: cyclic_straight)
  finally show ?thesis unfolding b1 b2 by simp
qed

lemma put_middle:
  assumes "r < length b" and "length b \<le> r + m" and "m + length p \<le> length b"
  shows "cyclic (copy_at b (r + m - length b) p) r (m + length p) = cyclic b r m @ p"
proof -
  let ?w = "r + m - length b"
  have w: "?w + length p \<le> r" using assms by linarith
  then have eq: "copy_at b ?w p = take ?w b @ p @ drop (?w + length p) b" using assms(1) by (simp add: copy_at_eq)
  have l: "length (copy_at b ?w p) = length b" using assms by (intro length_copy_at) linarith
  have "cyclic (copy_at b ?w p) r (m + length p)
      = drop r (copy_at b ?w p) @ take (r + (m + length p) - length b) (copy_at b ?w p)"
    using cyclic_wrapped[of r "copy_at b ?w p" "m + length p"] assms by (simp only: l less_imp_le)
  also have "drop r (copy_at b ?w p) = drop r b"
    using w assms(1) by (simp add: eq)
  also have "r + (m + length p) - length b = ?w + length p" using assms by linarith
  also have "take (?w + length p) (copy_at b ?w p) = take ?w b @ p"
    using w assms(1) by (simp add: eq)
  also have "drop r b @ take ?w b @ p = cyclic b r m @ p"
    using assms by (simp add: cyclic_wrapped)
  finally show ?thesis .
qed


text \<open>A ring with room, which holds \<open>xs\<close> right before the write position.\<close>

definition placed :: "ring \<Rightarrow> string \<Rightarrow> bool" where
  "placed b xs \<longleftrightarrow> length (rb_buf b) = rb_size b \<and> power_size (rb_size b) \<and> rb_mask b = int (rb_size b) - 1
     \<and> rb_r b < rb_size b \<and> length xs < rb_size b \<and> rb_w b = ahead (rb_size b) (rb_r b) (length xs)
     \<and> cyclic (rb_buf b) (rb_r b) (length xs) = xs"

lemma ahead_between: "r < s \<Longrightarrow> w < s \<Longrightarrow> ahead s r (between s r w) = w"
  unfolding between_def ahead_def by (auto split: if_splits)

lemma between_ahead_full:
  "r < s \<Longrightarrow> 0 < n \<Longrightarrow> n \<le> s \<Longrightarrow> between s r (ahead s r n) = n \<and> ahead s r n < s"
  unfolding between_def ahead_def by (auto split: if_splits)

lemma placed_bytes:
  assumes "ring_ok b" and "Length b < rb_size b"
  shows "placed b (bytes_of b)"
proof -
  have s: "rb_size b \<noteq> 0" "rb_r b < rb_size b" "rb_w b < rb_size b" "length (rb_buf b) = rb_size b"
    "power_size (rb_size b)" "rb_mask b = int (rb_size b) - 1"
    using assms by (auto simp: ring_ok_def)
  have "rb_w b = ahead (rb_size b) (rb_r b) (Length b)"
  proof (cases "rb_empty b")
    case True
    with assms(1) s(1) show ?thesis by (simp add: ring_ok_def Length_def ahead_def)
  next
    case False
    show ?thesis unfolding Length_between[OF assms(1) False] using ahead_between[OF s(2,3)] by simp
  qed
  moreover have "cyclic (rb_buf b) (rb_r b) (Length b) = bytes_of b"
    by (simp only: bytes_window[OF assms(1)] window_def cyclic_def)
  ultimately show ?thesis using s assms(2) by (simp add: placed_def length_bytes[OF assms(1)])
qed

lemma put_cyclic:
  assumes "placed b xs" and "0 < length p" and "length xs + length p \<le> rb_size b"
  defines "b' \<equiv> wrap_w (put p b)"
  shows "cyclic (rb_buf b') (rb_r b) (length xs + length p) = xs @ p
    \<and> length (rb_buf b') = rb_size b \<and> rb_w b' = ahead (rb_size b) (rb_r b) (length xs + length p)"
proof -
  let ?s = "rb_size b" and ?r = "rb_r b" and ?m = "length xs"
  have l: "length (rb_buf b) = ?s" "?r < ?s" and xs: "cyclic (rb_buf b) ?r ?m = xs"
    and w: "rb_w b = ahead ?s ?r ?m" using assms(1) by (simp_all add: placed_def)
  show ?thesis
  proof (cases "?r + ?m < ?s")
    case True
    then have w: "rb_w b = ?r + ?m" using w by (simp add: ahead_def)
    show ?thesis
    proof (cases "?r + ?m + length p \<le> ?s")
      case fits: True
      then have p: "put p b = b\<lparr>rb_buf := copy_at (rb_buf b) (?r + ?m) p, rb_w := ?r + ?m + length p\<rparr>"
        using w by (simp add: put_def Let_def)
      have "?r + ?m + length p \<le> length (rb_buf b)" using fits l(1) by simp
      from put_straight[OF this] show ?thesis
        using fits l xs by (auto simp: b'_def p wrap_w_def ahead_def length_copy_at)
    next
      case False
      let ?c = "?s - (?r + ?m)"
      have p: "put p b = b\<lparr>rb_buf := copy_at (copy_at (rb_buf b) (?r + ?m) (take ?c p)) 0 (drop ?c p),
          rb_w := length p - ?c\<rparr>"
      proof -
        have "(rb_w b \<ge> ?r) = True" "(?s - rb_w b \<ge> length p) = False" using w False True by auto
        then show ?thesis by (simp only: put_def Let_def if_True if_False w)
      qed
      have "?r + ?m < length (rb_buf b)" "length (rb_buf b) < ?r + ?m + length p"
        "?m + length p \<le> length (rb_buf b)" using True False assms(3) l by simp_all
      from put_wrapped[OF this] show ?thesis
        using True False l xs assms(3) by (auto simp: b'_def p wrap_w_def ahead_def length_copy_at)
    qed
  next
    case False
    then have w: "rb_w b = ?r + ?m - ?s" using w by (simp add: ahead_def)
    have "?m < ?s" using assms(1) by (simp add: placed_def)
    then have lt: "?r + ?m - ?s < ?r" using l(2) False by linarith
    then have p: "put p b = b\<lparr>rb_buf := copy_at (rb_buf b) (?r + ?m - ?s) p, rb_w := ?r + ?m - ?s + length p\<rparr>"
      using w by (simp add: put_def Let_def)
    have "?r < length (rb_buf b)" "length (rb_buf b) \<le> ?r + ?m" "?m + length p \<le> length (rb_buf b)"
      using False assms(3) l by simp_all
    from put_middle[OF this] show ?thesis
      using False lt l xs assms(3) by (auto simp: b'_def p wrap_w_def ahead_def length_copy_at)
  qed
qed

lemma put_fields [simp]: "rb_size (put p b) = rb_size b" "rb_r (put p b) = rb_r b" "rb_mask (put p b) = rb_mask b"
  by (simp_all add: put_def Let_def)

lemma wrap_w_fields [simp]: "rb_size (wrap_w b) = rb_size b" "rb_r (wrap_w b) = rb_r b" "rb_mask (wrap_w b) = rb_mask b"
  "\<not> rb_empty (wrap_w b)"
  by (simp_all add: wrap_w_def)

lemma put_placed:
  assumes "placed b xs" and "0 < length p" and "length xs + length p \<le> rb_size b"
  shows "ring_ok (wrap_w (put p b)) \<and> bytes_of (wrap_w (put p b)) = xs @ p"
proof -
  let ?b = "wrap_w (put p b)" and ?n = "length xs + length p"
  note c = put_cyclic[OF assms]
  have s: "rb_r b < rb_size b" "0 < ?n" "power_size (rb_size b)" "rb_mask b = int (rb_size b) - 1"
    using assms(1,2) by (simp_all add: placed_def)
  note w = between_ahead_full[OF s(1,2) assms(3)]
  have ok: "ring_ok ?b" using c s w by (simp add: ring_ok_def)
  have "Length ?b = ?n" using Length_between[OF ok] c w by simp
  then have "bytes_of ?b = xs @ p" using bytes_window[OF ok] c by (simp only: window_def cyclic_def wrap_w_fields put_fields)
  with ok show ?thesis by blast
qed

text \<open>Making room: the ring starts anew, with all its bytes at the beginning of a bigger array.\<close>

definition enough :: nat where
  "enough = 2 ^ 62"

lemma power_size_grown: "power_size (nat (2 ^ k))" "power_size initSize"
proof -
  show "power_size (nat (2 ^ k))" by (auto simp: power_size_def nat_power_eq)
  have "initSize = 2 ^ 12" by (simp add: initSize_def)
  then show "power_size initSize" unfolding power_size_def by blast
qed

lemma malloc_size:
  assumes "n + rb_size b \<le> enough" and "0 < n"
  obtains c where "(if rb_size b = 0 \<and> n < initSize then Some (int initSize)
        else CeilToPowerOfTwo (int (rb_size b + n))) = Some (int c)"
    and "power_size c" "rb_size b + n \<le> c" "c \<le> max initSize (2 * (rb_size b + n))"
proof (cases "rb_size b = 0 \<and> n < initSize")
  case True
  then show ?thesis using that[of initSize] power_size_grown(2) by simp
next
  case False
  have "int (rb_size b + n) \<le> 2 ^ 62" using assms(1) by (simp add: enough_def)
  from ceil_power[OF this] obtain k where k: "CeilToPowerOfTwo (int (rb_size b + n)) = Some (2 ^ Suc k)"
    "int (rb_size b + n) \<le> 2 ^ Suc k" "2 < int (rb_size b + n) \<longrightarrow> 2 ^ k < int (rb_size b + n)" by blast
  let ?c = "2 ^ Suc k :: nat"
  have i: "int ?c = 2 ^ Suc k" by simp
  have "?c \<le> max initSize (2 * (rb_size b + n))"
  proof (cases "2 < int (rb_size b + n)")
    case True
    with k(3) have "int ?c < int (2 * (rb_size b + n))" by simp
    then show ?thesis by linarith
  next
    case small: False
    have "rb_size b = 0 \<or> rb_size b \<noteq> 0" by blast
    with small False assms(2) have "rb_size b + n \<le> 2" by linarith
    moreover have "?c = 2"
    proof -
      have "CeilToPowerOfTwo (int (rb_size b + n)) = Some 2"
        using calculation by (simp add: CeilToPowerOfTwo_def maxintHeadBit_def)
      with k(1) have "int ?c = 2" by simp
      then show ?thesis by linarith
    qed
    ultimately show ?thesis by (simp add: initSize_def)
  qed
  moreover have "rb_size b + n \<le> ?c" using k(2) i by linarith
  moreover have "power_size ?c" unfolding power_size_def by blast
  moreover have "CeilToPowerOfTwo (int (rb_size b + n)) = Some (int ?c)" using k(1) i by simp
  ultimately show ?thesis using that[of ?c] False by simp
qed

lemma malloc_placed:
  assumes "ring_ok b" and "0 < n" and "n + rb_size b \<le> enough"
  shows "\<exists>b'. malloc n b = Some b' \<and> placed b' (bytes_of b) \<and> rb_size b + n \<le> rb_size b'
    \<and> rb_size b' \<le> max initSize (2 * (rb_size b + n))"
proof -
  from malloc_size[OF assms(3,2)] obtain c where c: "(if rb_size b = 0 \<and> n < initSize then Some (int initSize)
        else CeilToPowerOfTwo (int (rb_size b + n))) = Some (int c)"
    "power_size c" "rb_size b + n \<le> c" "c \<le> max initSize (2 * (rb_size b + n))" .
  let ?buf = "bytes_of b @ zero_bytes (c - length (bytes_of b))"
  let ?b = "(snd (Read c b))\<lparr>rb_buf := ?buf, rb_r := 0, rb_w := length (bytes_of b), rb_size := c, rb_mask := int c - 1\<rparr>"
  have l: "length (bytes_of b) < c" using c(3) assms(2) Free_Length[OF assms(1)] length_bytes[OF assms(1)] by linarith
  have copy: "copy_at (zero_bytes c) 0 (bytes_of b) = ?buf" using l by (simp add: copy_at_def zero_bytes_def)
  have "(case fst (Read c b) of Inl e \<Rightarrow> zero_bytes c | Inr s \<Rightarrow> copy_at (zero_bytes c) 0 s) = ?buf"
    using Read_bytes[OF assms(1), of c] l copy by (cases "bytes_of b = []") simp_all
  then have "malloc n b = Some ?b"
    by (simp add: malloc_def c(1) Let_def case_prod_beta' length_bytes[OF assms(1)])
  moreover have "placed ?b (bytes_of b)"
    using l c(2) by (simp add: placed_def ahead_def cyclic_def zero_bytes_def)
  ultimately show ?thesis using c(3,4) by (intro exI[of _ ?b]) simp
qed

lemma Write_bytes:
  assumes "ring_ok b" and "Length b + length p \<le> enough"
  shows "\<exists>b'. Write p b = Some b' \<and> ring_ok b' \<and> bytes_of b' = bytes_of b @ p
    \<and> rb_size b' \<le> max (rb_size b) (max initSize (2 * (Length b + length p)))"
proof (cases "length p = 0")
  case True
  then show ?thesis using assms(1) by (simp add: Write_def)
next
  case False
  note f = Free_Length[OF assms(1)]
  show ?thesis
  proof (cases "length p > Free b")
    case True
    let ?n = "length p - Free b"
    have n: "0 < ?n" "?n + rb_size b \<le> enough" "rb_size b + ?n = Length b + length p" using True f assms(2) by linarith+
    from malloc_placed[OF assms(1) n(1,2)] obtain b' where b': "malloc ?n b = Some b'" "placed b' (bytes_of b)"
      "rb_size b + ?n \<le> rb_size b'" "rb_size b' \<le> max initSize (2 * (rb_size b + ?n))" by blast
    have "0 < length p" "length (bytes_of b) + length p \<le> rb_size b'"
      using b'(3) False n(3) length_bytes[OF assms(1)] by simp_all
    from put_placed[OF b'(2) this] b'(1,4) True False n(3) show ?thesis by (simp add: Write_def Let_def)
  next
    case fits: False
    then have "Length b < rb_size b" "Length b + length p \<le> rb_size b" using f False by linarith+
    with put_placed[OF placed_bytes[OF assms(1)], of p] False fits length_bytes[OF assms(1)] show ?thesis
      by (simp add: Write_def Let_def)
  qed
qed

lemma WriteByte_Write:
  assumes "ring_ok b" and "Length b + 1 \<le> enough"
  shows "WriteByte c b = Write [c] b"
proof -
  have one: "b\<lparr>rb_buf := (rb_buf b)[rb_w b := c], rb_w := Suc (rb_w b)\<rparr> = put [c] b"
    if "rb_w b < rb_size b" "length (rb_buf b) = rb_size b" for b
    using that by (simp add: put_def Let_def copy_at_eq upd_conv_take_nth_drop)
  have placed_w: "rb_w b < rb_size b" "length (rb_buf b) = rb_size b" if "placed b xs" for b xs
    using that by (auto simp: placed_def ahead_def)
  note f = Free_Length[OF assms(1)]
  show ?thesis
  proof (cases "Free b < 1")
    case True
    then have "0 < (1::nat)" "1 + rb_size b \<le> enough" using f assms(2) by linarith+
    from malloc_placed[OF assms(1) this] obtain b' where "malloc 1 b = Some b'" "placed b' (bytes_of b)" by blast
    with True one[OF placed_w] show ?thesis by (simp add: WriteByte_def Write_def)
  next
    case False
    then have "Length b < rb_size b" using f by linarith
    from placed_bytes[OF assms(1) this] False one[OF placed_w] show ?thesis
      by (simp add: WriteByte_def Write_def Let_def)
  qed
qed

lemma ByteBuffer_bytes:
  assumes "ring_ok b"
  shows "ByteBuffer b = (if bytes_of b = [] then None else Some (bytes_of b))"
  using bytes_empty[OF assms] by (auto simp: ByteBuffer_def bytes_of_def)

lemma WithByteBuffer_bytes: "ring_ok b \<Longrightarrow> WithByteBuffer s b = bytes_of b @ s"
  by (auto simp: WithByteBuffer_def bytes_of_def)

lemma IsFull_Length: "ring_ok b \<Longrightarrow> IsFull b \<longleftrightarrow> Length b = rb_size b \<and> Length b \<noteq> 0"
  by (auto simp: IsFull_def Length_def ring_ok_def)

lemma New_ok:
  assumes "int n \<le> 2 ^ 62"
  shows "\<exists>b. New n = Some b \<and> ring_ok b \<and> bytes_of b = []"
proof (cases "n = 0")
  case True
  then show ?thesis by (simp add: New_def ring_ok_def power_size_def bytes_of_def)
next
  case False
  from ceil_power[OF assms] obtain k where "CeilToPowerOfTwo (int n) = Some (2 ^ Suc k)" by blast
  moreover note power_size_grown(1)[of "Suc k"]
  ultimately show ?thesis using False
    by (auto simp: New_def ring_ok_def bytes_of_def zero_bytes_def simp del: power_Suc)
qed

section \<open>The ring is a queue\<close>

text \<open>
  What the connections rely on: of the operations they call, what becomes of the bytes.  \<open>limit\<close> is how
  many bytes there may be at most.
\<close>

locale byte_queue =
  fixes inv :: "'q \<Rightarrow> bool"
    and bytes :: "'q \<Rightarrow> string"
    and app :: "string \<Rightarrow> 'q \<Rightarrow> 'q option"
    and read_all :: "'q \<Rightarrow> string \<times> string"
    and shift :: "int \<Rightarrow> 'q \<Rightarrow> 'q"
    and len :: "'q \<Rightarrow> nat"
    and limit :: nat
  assumes write_law: "inv q \<Longrightarrow> length (bytes q) + length p \<le> limit \<Longrightarrow>
      \<exists>q'. app p q = Some q' \<and> inv q' \<and> bytes q' = bytes q @ p"
    and read_all_law: "inv q \<Longrightarrow> fst (read_all q) @ snd (read_all q) = bytes q"
    and shift_law: "inv q \<Longrightarrow> inv (shift n q) \<and> bytes (shift n q) = drop (nat n) (bytes q)"
    and len_law: "inv q \<Longrightarrow> len q = length (bytes q)"
begin

lemma write_total: "inv q \<Longrightarrow> length (bytes q) + length p \<le> limit \<Longrightarrow> app p q \<noteq> None"
  using write_law[of q p] by auto

lemma write_result:
  "inv q \<Longrightarrow> length (bytes q) + length p \<le> limit \<Longrightarrow> app p q = Some q' \<Longrightarrow> inv q' \<and> bytes q' = bytes q @ p"
  using write_law[of q p] by auto

text \<open>What has been taken, put before what is left, is what was there.\<close>

lemma taken:
  "inv q \<Longrightarrow> n \<le> len q \<Longrightarrow>
     take n (fst (read_all q) @ snd (read_all q)) @ bytes (shift (int n) q) = bytes q"
  by (simp add: read_all_law shift_law)

lemma flushed: "inv q \<Longrightarrow> bytes (shift (int (length (fst (read_all q) @ snd (read_all q)))) q) = []"
  using shift_law[of q "int (length (bytes q))"] by (simp only: read_all_law) simp

end

interpretation rb: byte_queue ring_ok bytes_of Write LazyReadAll Shift Length enough
proof unfold_locales
  fix b :: ring and p :: string
  assume b: "ring_ok b"
  show "length (bytes_of b) + length p \<le> enough \<Longrightarrow> \<exists>b'. Write p b = Some b' \<and> ring_ok b' \<and> bytes_of b' = bytes_of b @ p"
    using Write_bytes[OF b, of p] by (auto simp: length_bytes[OF b])
qed (simp_all add: LazyReadAll_bytes Shift_bytes length_bytes)

text \<open>All operations, with what they give, on the ring and on a plain sequence of bytes.\<close>

datatype ring_op =
    OpLazyRead int
  | OpLazyReadAll
  | OpShift int
  | OpRead nat
  | OpReadByte
  | OpWrite string
  | OpWriteByte char
  | OpWriteString string
  | OpLength
  | OpIsEmpty
  | OpByteBuffer
  | OpWithByteBuffer string
  | OpReset

datatype ring_out =
    Quiet
  | Bytes string
  | Byte char
  | Error ring_error
  | Count nat
  | Flag bool
  | Buffer "string option"

definition out_of :: "('a \<Rightarrow> ring_out) \<Rightarrow> ring_error + 'a \<Rightarrow> ring_out" where
  "out_of f r = (case r of Inl e \<Rightarrow> Error e | Inr x \<Rightarrow> f x)"

fun ring_do :: "ring_op \<Rightarrow> ring \<Rightarrow> (ring_out \<times> ring) option" where
  "ring_do (OpLazyRead n) b = Some (let (h, t) = LazyRead n b in (Bytes (h @ t), b))"
| "ring_do OpLazyReadAll b = Some (let (h, t) = LazyReadAll b in (Bytes (h @ t), b))"
| "ring_do (OpShift n) b = Some (Quiet, Shift n b)"
| "ring_do (OpRead k) b = Some (let (r, b') = Read k b in (out_of Bytes r, b'))"
| "ring_do OpReadByte b = Some (let (r, b') = ReadByte b in (out_of Byte r, b'))"
| "ring_do (OpWrite p) b = map_option (Pair (Count (length p))) (Write p b)"
| "ring_do (OpWriteByte c) b = map_option (Pair Quiet) (WriteByte c b)"
| "ring_do (OpWriteString s) b = map_option (Pair (Count (length s))) (WriteString s b)"
| "ring_do OpLength b = Some (Count (Length b), b)"
| "ring_do OpIsEmpty b = Some (Flag (IsEmpty b), b)"
| "ring_do OpByteBuffer b = Some (Buffer (ByteBuffer b), b)"
| "ring_do (OpWithByteBuffer s) b = Some (Bytes (WithByteBuffer s b), b)"
| "ring_do OpReset b = Some (Quiet, Reset b)"

fun queue_do :: "ring_op \<Rightarrow> string \<Rightarrow> ring_out \<times> string" where
  "queue_do (OpLazyRead n) q = (Bytes (take (nat n) q), q)"
| "queue_do OpLazyReadAll q = (Bytes q, q)"
| "queue_do (OpShift n) q = (Quiet, drop (nat n) q)"
| "queue_do (OpRead k) q = (if k \<noteq> 0 \<and> q = [] then (Error ErrIsEmpty, q) else (Bytes (take k q), drop k q))"
| "queue_do OpReadByte q = (case q of [] \<Rightarrow> (Error ErrIsEmpty, []) | c # cs \<Rightarrow> (Byte c, cs))"
| "queue_do (OpWrite p) q = (Count (length p), q @ p)"
| "queue_do (OpWriteByte c) q = (Quiet, q @ [c])"
| "queue_do (OpWriteString s) q = (Count (length s), q @ s)"
| "queue_do OpLength q = (Count (length q), q)"
| "queue_do OpIsEmpty q = (Flag (q = []), q)"
| "queue_do OpByteBuffer q = (Buffer (if q = [] then None else Some q), q)"
| "queue_do (OpWithByteBuffer s) q = (Bytes (q @ s), q)"
| "queue_do OpReset q = (Quiet, [])"

fun ring_run :: "ring_op list \<Rightarrow> ring \<Rightarrow> (ring_out list \<times> ring) option" where
  "ring_run [] b = Some ([], b)"
| "ring_run (a # as) b =
     (case ring_do a b of None \<Rightarrow> None
      | Some (x, b) \<Rightarrow> map_option (\<lambda>(xs, b). (x # xs, b)) (ring_run as b))"

fun queue_run :: "ring_op list \<Rightarrow> string \<Rightarrow> ring_out list \<times> string" where
  "queue_run [] q = ([], q)"
| "queue_run (a # as) q = (let (x, q) = queue_do a q; (xs, q) = queue_run as q in (x # xs, q))"

fun op_bytes :: "ring_op \<Rightarrow> nat" where
  "op_bytes (OpWrite p) = length p"
| "op_bytes (OpWriteString p) = length p"
| "op_bytes (OpWriteByte c) = 1"
| "op_bytes _ = 0"

definition run_bytes :: "ring_op list \<Rightarrow> nat" where
  "run_bytes as = sum_list (map op_bytes as)"

lemma run_bytes_simps [simp]: "run_bytes [] = 0" "run_bytes (a # as) = op_bytes a + run_bytes as"
  by (simp_all add: run_bytes_def)

lemma ring_do_queue:
  assumes "ring_ok b" and "Length b + op_bytes a \<le> enough"
  shows "\<exists>x b'. ring_do a b = Some (x, b') \<and> queue_do a (bytes_of b) = (x, bytes_of b') \<and> ring_ok b'"
proof -
  note l = length_bytes[OF assms(1)]
  show ?thesis
  proof (cases a)
    case (OpLazyRead n)
    with assms(1) LazyRead_bytes[OF assms(1), of n] show ?thesis by (simp add: case_prod_beta')
  next
    case OpLazyReadAll
    with assms(1) LazyReadAll_bytes[OF assms(1)] show ?thesis by (simp add: case_prod_beta')
  next
    case (OpShift n)
    with Shift_bytes[OF assms(1), of n] show ?thesis by simp
  next
    case (OpRead k)
    with Read_bytes[OF assms(1), of k] show ?thesis by (auto simp: case_prod_beta' out_of_def)
  next
    case OpReadByte
    with ReadByte_bytes[OF assms(1)] show ?thesis
      by (cases "bytes_of b") (auto simp: case_prod_beta' out_of_def)
  next
    case (OpWrite p)
    with Write_bytes[OF assms(1), of p] assms(2) show ?thesis by auto
  next
    case (OpWriteByte c)
    with assms Write_bytes[OF assms(1), of "[c]"] WriteByte_Write[OF assms(1), of c] show ?thesis by auto
  next
    case (OpWriteString p)
    with Write_bytes[OF assms(1), of p] assms(2) show ?thesis by (auto simp: WriteString_def)
  qed (use assms(1) l bytes_empty[OF assms(1)] Reset_ok ByteBuffer_bytes[OF assms(1)] WithByteBuffer_bytes[OF assms(1)]
      in \<open>simp_all add: IsEmpty_def\<close>)
qed

lemma queue_do_length: "length (snd (queue_do a q)) \<le> length q + op_bytes a"
  by (cases a) (auto split: list.splits)

lemma ring_run_queue:
  assumes "ring_ok b" and "Length b + run_bytes as \<le> enough"
  shows "\<exists>xs b'. ring_run as b = Some (xs, b') \<and> queue_run as (bytes_of b) = (xs, bytes_of b') \<and> ring_ok b'"
  using assms
proof (induction "as" arbitrary: b)
  case (Cons a "as")
  then obtain x b1 where 1: "ring_do a b = Some (x, b1)" "queue_do a (bytes_of b) = (x, bytes_of b1)" "ring_ok b1"
    using ring_do_queue[of b a] by auto
  have "Length b1 \<le> Length b + op_bytes a"
    using queue_do_length[of a "bytes_of b"] 1 Cons.prems(1) by (simp add: length_bytes[symmetric])
  then have "Length b1 + run_bytes as \<le> enough" using Cons.prems(2) by simp
  with Cons.IH[OF 1(3)] 1 show ?case by auto
qed simp

text \<open>
  C12.  The ring buffer is a queue of bytes: whatever sequence of its operations is run on a new one,
  every operation gives what it gives on a plain sequence of bytes, through all growing, halving and
  wrapping around, and none panics, as long as not more than 2^62 bytes are written.
\<close>

theorem ring_refines_queue:
  assumes "int n \<le> 2 ^ 62" and "run_bytes as \<le> 2 ^ 62"
  shows "\<exists>b xs b'. New n = Some b \<and> ring_run as b = Some (xs, b') \<and> queue_run as [] = (xs, bytes_of b') \<and> ring_ok b'"
proof -
  obtain b where b: "New n = Some b" "ring_ok b" "bytes_of b = []" using New_ok[OF assms(1)] by blast
  then have "Length b + run_bytes as \<le> enough" using assms(2) length_bytes[OF b(2)] by (simp add: enough_def)
  from ring_run_queue[OF b(2) this] b(1,3) show ?thesis by auto
qed

theorem ring_refines_queue_witness:
  "\<exists>b xs b'. New 0 = Some b \<and> ring_run [OpWrite ''abc'', OpShift 1, OpReadByte, OpWriteByte CHR ''d'', OpLazyReadAll] b = Some (xs, b')
     \<and> xs = [Count 3, Quiet, Byte CHR ''b'', Quiet, Bytes ''cd'']"
proof -
  let ?as = "[OpWrite ''abc'', OpShift 1, OpReadByte, OpWriteByte CHR ''d'', OpLazyReadAll]"
  obtain b xs b' where r: "New 0 = Some b" "ring_run ?as b = Some (xs, b')" "queue_run ?as [] = (xs, bytes_of b')"
    using ring_refines_queue[of 0 ?as] by auto
  from r(3) have "xs = [Count 3, Quiet, Byte CHR ''b'', Quiet, Bytes ''cd'']" by (auto simp: Let_def)
  with r(1,2) show ?thesis by blast
qed

text \<open>
  C31.  Writing to a ring, whose bytes and the new ones an integer can count, panics exactly when it would
  hold more than 2^62 bytes; otherwise its size stays a power of two or 0, and where it had to grow it is at
  most twice what the ring holds (or 4096 bytes).
\<close>

theorem ring_write_bounds:
  assumes "ring_ok b" and "int (rb_size b) + int (length p) < 2 ^ 63"
  shows "(Write p b = None \<longleftrightarrow> Length b + length p > 2 ^ 62)
    \<and> (\<forall>b'. Write p b = Some b' \<longrightarrow> power_size (rb_size b') \<and> Length b' = Length b + length p
        \<and> rb_size b' \<le> max (rb_size b) (max 4096 (2 * (Length b + length p))))"
proof (cases "Length b + length p \<le> enough")
  case True
  from Write_bytes[OF assms(1) this] obtain b' where b': "Write p b = Some b'" "ring_ok b'"
    "bytes_of b' = bytes_of b @ p" "rb_size b' \<le> max (rb_size b) (max initSize (2 * (Length b + length p)))" by blast
  moreover have "Length b' = Length b + length p"
    using length_bytes[OF b'(2)] length_bytes[OF assms(1)] b'(3) by simp
  ultimately show ?thesis using True by (auto simp: ring_ok_def enough_def initSize_def)
next
  case False
  note f = Free_Length[OF assms(1)]
  have "power_size (rb_size b)" using assms(1) by (simp add: ring_ok_def)
  then have small: "rb_size b \<le> enough"
  proof -
    have "k \<le> 62" if "rb_size b = 2 ^ k" for k
    proof (rule ccontr)
      assume "\<not> k \<le> 62"
      then have "(2::int) ^ 63 \<le> 2 ^ k" using power_increasing[of 63 k "2::int"] by simp
      with that assms(2) show False by simp
    qed
    moreover have "(2::nat) ^ k \<le> 2 ^ 62" if "k \<le> 62" for k using that by (intro power_increasing) simp_all
    ultimately show ?thesis
      using \<open>power_size (rb_size b)\<close> unfolding power_size_def enough_def by (metis zero_le)
  qed
  let ?n = "length p - Free b"
  have grow: "length p > Free b" using False f small by linarith
  have n: "int (rb_size b + ?n) > 2 ^ 62" "int (rb_size b + ?n) < 2 ^ 63"
    using False f grow assms(2) by (simp_all add: enough_def)
  have bit: "int (rb_size b + ?n) AND maxintHeadBit \<noteq> 0"
  proof
    assume z: "int (rb_size b + ?n) AND maxintHeadBit = 0"
    have "int (rb_size b + ?n) div 2 ^ 62 = 1"
      using n by (intro int_div_pos_eq[of _ "2 ^ 62" 1 "int (rb_size b + ?n) - 2 ^ 62"]) simp_all
    then have "bit (int (rb_size b + ?n)) 62" by (simp add: bit_iff_odd)
    moreover have "bit maxintHeadBit 62" by (simp add: maxintHeadBit_def bit_iff_odd)
    ultimately have "bit (int (rb_size b + ?n) AND maxintHeadBit) 62" unfolding bit_and_iff by blast
    with z show False by simp
  qed
  have not_first: "(rb_size b = 0 \<and> ?n < initSize) = False" using n(1) by (auto simp: initSize_def)
  have "malloc ?n b = None"
    using n bit not_first by (simp only: malloc_def CeilToPowerOfTwo_def maxintHeadBit_def if_True if_False simp_thms option.case)
  then have "Write p b = None" using grow by (cases p) (simp_all add: Write_def Let_def)
  with False show ?thesis by (simp add: enough_def)
qed

theorem ring_write_bounds_witness:
  "\<exists>b. New 3 = Some b \<and> (\<exists>b'. Write ''hello'' b = Some b' \<and> rb_size b' \<le> 4096)"
proof -
  obtain b where b: "New 3 = Some b" "ring_ok b" "bytes_of b = []" using New_ok[of 3] by auto
  have s: "rb_size b = 4"
    using b(1) by (simp add: New_def CeilToPowerOfTwo_def maxintHeadBit_def fillBits_def) auto
  have "Length b = 0" using length_bytes[OF b(2)] b(3) by simp
  with ring_write_bounds[OF b(2), of "''hello''"] s b(1) show ?thesis by auto
qed
end
