(* ===== verification/TcpClient.thy ===== *)
theory TcpClient
  imports RingBuffer "HOL-Library.Sublist"
begin

text \<open>
  The TCP client of the admin process (\<open>engine/engine/tcp_client.go\<close>): two ring buffers, the goroutine
  that dials, the goroutine that reads, the one that reconnects, and the tick that hands on what has come
  and writes what is due.  Its codec is a parameter (\<open>admin.go\<close> has the one of the admin process), and so
  is what the network does, in the events.  A tick and a step of a goroutine happen as a whole; the code lets
  a tick fall between two stores of \<open>connect\<close>, which here are one step (\<open>onDialled\<close>).
\<close>

section \<open>State\<close>

datatype connect_status = Disconnected | Connecting | Connected

datatype conn_action = NoAction | CloseConn | Reconnect

datatype handler_action = NoEvent | NowConnected | NowDisconnected

datatype handler_call = OnConnect | OnDisconnect

datatype dialler = ByConnect | ByReconnect

text \<open>The goroutine that reconnects: not running, at the head of its loop, in \<open>connect\<close>, asleep.\<close>

datatype reconnect_phase = NotRunning | LoopHead | Dialling | Sleeping

record tcp_codec =
  encode :: "string \<Rightarrow> string option"
  decode :: "string \<Rightarrow> (int \<times> string) option"

text \<open>
  \<open>tc_live\<close>: there is a connection and this side has not closed it; \<open>tc_pending\<close>: calls of \<open>Connect\<close>
  whose goroutine has not started; \<open>tc_dialling\<close>: goroutines inside \<open>DialTCP\<close>; \<open>tc_readers\<close>: goroutines in
  \<open>receive\<close>, each with the bytes it has read and not stored yet.  History: \<open>tc_got\<close>, the bytes read;
  \<open>tc_messages\<close>, what \<open>OnMessage\<close> was given; \<open>tc_taken\<close>, the bytes taken out for that; \<open>tc_given\<close>, the bytes
  accepted for sending; \<open>tc_flushed\<close>, those that were written without an error; \<open>tc_wire\<close>, all that was
  written; \<open>tc_calls\<close>, the other calls of the handler.
\<close>

record tcp_client =
  tc_in :: ring
  tc_out :: ring
  tc_conn :: bool
  tc_live :: bool
  tc_action :: conn_action
  tc_status :: connect_status
  tc_event :: handler_action
  tc_auto :: bool
  tc_times :: nat
  tc_reconnect :: reconnect_phase
  tc_context :: "string option"
  tc_pending :: nat
  tc_dialling :: "dialler list"
  tc_readers :: "string option list"
  tc_crashed :: bool
  tc_got :: string
  tc_taken :: string
  tc_messages :: "string list"
  tc_given :: string
  tc_flushed :: string
  tc_wire :: string
  tc_calls :: "handler_call list"

definition new_ring :: ring where
  "new_ring = \<lparr>rb_buf = [], rb_size = 0, rb_mask = 0, rb_r = 0, rb_w = 0, rb_empty = True\<rparr>"

lemma new_ring: "New 0 = Some new_ring" "ring_ok new_ring" "bytes_of new_ring = []"
  by (simp_all add: New_def new_ring_def ring_ok_def power_size_def bytes_of_def)

definition NewTcpClient :: tcp_client where
  "NewTcpClient = \<lparr>tc_in = new_ring, tc_out = new_ring, tc_conn = False, tc_live = False, tc_action = NoAction,
     tc_status = Disconnected, tc_event = NoEvent, tc_auto = False, tc_times = 0, tc_reconnect = NotRunning,
     tc_context = None, tc_pending = 0, tc_dialling = [], tc_readers = [], tc_crashed = False, tc_got = [], tc_taken = [],
     tc_messages = [], tc_given = [], tc_flushed = [], tc_wire = [], tc_calls = []\<rparr>"

definition adminHandler :: tcp_codec where
  "adminHandler = \<lparr>encode = Some, decode = (\<lambda>d. Some (int (length d), d))\<rparr>"

definition autoReconnectRetryTimes :: nat where
  "autoReconnectRetryTimes = 60"

definition read_chunk :: nat where
  "read_chunk = 2048"

section \<open>Connecting\<close>

definition IsDisconnected :: "tcp_client \<Rightarrow> bool" where
  "IsDisconnected c \<longleftrightarrow> tc_status c = Disconnected"

definition Disconnect :: "tcp_client \<Rightarrow> tcp_client" where
  "Disconnect c = c\<lparr>tc_action := CloseConn\<rparr>"

definition SetContext :: "string \<Rightarrow> tcp_client \<Rightarrow> tcp_client" where
  "SetContext ctx c = c\<lparr>tc_context := Some ctx\<rparr>"

definition Status :: "tcp_client \<Rightarrow> connect_status" where
  "Status c = tc_status c"

definition markReconnect :: "tcp_client \<Rightarrow> tcp_client" where
  "markReconnect c = (if tc_action c = CloseConn then c else c\<lparr>tc_action := Reconnect\<rparr>)"

definition Connect :: "bool \<Rightarrow> tcp_client \<Rightarrow> tcp_client" where
  "Connect auto c = c\<lparr>tc_auto := auto, tc_pending := Suc (tc_pending c)\<rparr>"

text \<open>\<open>connect\<close> up to the dial: \<open>None\<close> if it returns at once, without an error.\<close>

definition connect_begin :: "dialler \<Rightarrow> tcp_client \<Rightarrow> tcp_client option" where
  "connect_begin d c =
     (if tc_status c = Connected \<or> tc_status c = Connecting then None
      else Some (c\<lparr>tc_status := Connecting, tc_dialling := tc_dialling c @ [d]\<rparr>))"

definition onConnectRuns :: "tcp_client \<Rightarrow> tcp_client" where
  "onConnectRuns c =
     (if tc_pending c = 0 then c
      else
        let c = c\<lparr>tc_pending := tc_pending c - 1\<rparr>
        in case connect_begin ByConnect c of None \<Rightarrow> c | Some c \<Rightarrow> c)"

definition without :: "nat \<Rightarrow> 'a list \<Rightarrow> 'a list" where
  "without i xs = take i xs @ drop (Suc i) xs"

text \<open>
  The dial returns.  A failed one leaves no connection (an address that cannot be resolved leaves the old
  one); whoever reconnects then sleeps, and is done after a success.
\<close>

definition onDialFailed :: "bool \<Rightarrow> nat \<Rightarrow> tcp_client \<Rightarrow> tcp_client" where
  "onDialFailed resolved i c =
     (if i < length (tc_dialling c) then
        c\<lparr>tc_dialling := without i (tc_dialling c), tc_status := Disconnected,
          tc_conn := tc_conn c \<and> \<not> resolved, tc_live := tc_live c \<and> \<not> resolved,
          tc_reconnect := (if tc_dialling c ! i = ByReconnect then Sleeping else tc_reconnect c)\<rparr>
      else c)"

definition onDialled :: "nat \<Rightarrow> tcp_client \<Rightarrow> tcp_client" where
  "onDialled i c =
     (if i < length (tc_dialling c) then
        let c1 = c\<lparr>tc_dialling := without i (tc_dialling c), tc_conn := True, tc_live := True,
                   tc_status := Connected, tc_event := NowConnected, tc_readers := tc_readers c @ [None]\<rparr>
        in if tc_dialling c ! i = ByReconnect then c1\<lparr>tc_action := NoAction, tc_reconnect := NotRunning\<rparr> else c1
      else c)"

text \<open>One round of the goroutine that reconnects, up to its dial.\<close>

definition onReconnectRound :: "tcp_client \<Rightarrow> tcp_client" where
  "onReconnectRound c =
     (if tc_reconnect c \<noteq> LoopHead then c
      else if tc_times c < autoReconnectRetryTimes \<and> tc_action c = Reconnect then
        let c = c\<lparr>tc_times := Suc (tc_times c)\<rparr>
        in case connect_begin ByReconnect c of
             None \<Rightarrow> c\<lparr>tc_action := NoAction, tc_reconnect := NotRunning\<rparr>
           | Some c \<Rightarrow> c\<lparr>tc_reconnect := Dialling\<rparr>
      else c\<lparr>tc_reconnect := NotRunning\<rparr>)"

section \<open>Reading and writing\<close>

text \<open>\<open>receive\<close>: bytes are read, then stored, until reading fails.\<close>

definition onRead :: "nat \<Rightarrow> string \<Rightarrow> tcp_client \<Rightarrow> tcp_client" where
  "onRead i s c =
     (if i < length (tc_readers c) \<and> tc_readers c ! i = None \<and> tc_live c \<and> s \<noteq> [] \<and> length s \<le> read_chunk then
        c\<lparr>tc_readers := (tc_readers c)[i := Some s], tc_got := tc_got c @ s\<rparr>
      else c)"

definition onStore :: "nat \<Rightarrow> tcp_client \<Rightarrow> tcp_client" where
  "onStore i c =
     (if i < length (tc_readers c) then
        case tc_readers c ! i of None \<Rightarrow> c
        | Some s \<Rightarrow>
            (case Write s (tc_in c) of None \<Rightarrow> c\<lparr>tc_crashed := True\<rparr>
             | Some b \<Rightarrow> c\<lparr>tc_in := b, tc_readers := (tc_readers c)[i := None]\<rparr>)
      else c)"

definition onReadError :: "nat \<Rightarrow> tcp_client \<Rightarrow> tcp_client" where
  "onReadError i c =
     (if i < length (tc_readers c) \<and> tc_readers c ! i = None then
        let c1 = c\<lparr>tc_readers := without i (tc_readers c)\<rparr>
        in if tc_auto c then markReconnect c1 else Disconnect c1
      else c)"

definition WriteBuf :: "tcp_codec \<Rightarrow> string \<Rightarrow> tcp_client \<Rightarrow> tcp_client" where
  "WriteBuf k s c =
     (case encode k s of None \<Rightarrow> c
      | Some d \<Rightarrow>
          (case Write d (tc_out c) of None \<Rightarrow> c\<lparr>tc_crashed := True\<rparr>
           | Some b \<Rightarrow> c\<lparr>tc_out := b, tc_given := tc_given c @ d\<rparr>))"

definition Send :: "tcp_codec \<Rightarrow> string \<Rightarrow> tcp_client \<Rightarrow> tcp_client" where
  "Send k s c = (if IsDisconnected c then c else WriteBuf k s c)"

section \<open>The tick\<close>

definition doHandlerAction :: "tcp_client \<Rightarrow> tcp_client" where
  "doHandlerAction c =
     (case tc_event c of
        NowConnected \<Rightarrow> c\<lparr>tc_times := 0, tc_calls := tc_calls c @ [OnConnect]\<rparr>
      | NowDisconnected \<Rightarrow> c\<lparr>tc_calls := tc_calls c @ [OnDisconnect]\<rparr>
      | NoEvent \<Rightarrow> c)\<lparr>tc_event := NoEvent\<rparr>"

definition doConnAction :: "tcp_client \<Rightarrow> tcp_client" where
  "doConnAction c =
     (if tc_action c = NoAction then c
      else
        let c1 = c\<lparr>tc_live := False\<rparr>;
            c2 = (if tc_status c1 = Connected then
                    doHandlerAction (c1\<lparr>tc_status := Disconnected, tc_event := NowDisconnected\<rparr>)
                  else c1)
        in if tc_action c = Reconnect then
             (if tc_reconnect c2 = NotRunning then c2\<lparr>tc_reconnect := LoopHead\<rparr> else c2)
           else c2\<lparr>tc_action := NoAction\<rparr>)"

definition doAction :: "tcp_client \<Rightarrow> tcp_client" where
  "doAction c = doConnAction (doHandlerAction c)"

definition all_bytes :: "ring \<Rightarrow> string" where
  "all_bytes b = (let (h, t) = LazyReadAll b in h @ t)"

text \<open>The log of an error names the address of the connection, which needs one.\<close>

definition handle_input :: "tcp_codec \<Rightarrow> tcp_client \<Rightarrow> tcp_client" where
  "handle_input k c =
     (let buf = all_bytes (tc_in c) in
      case decode k buf of
        None \<Rightarrow> if tc_conn c then markReconnect c else c\<lparr>tc_crashed := True\<rparr>
      | Some (n, d) \<Rightarrow>
          if n > 0 then
            c\<lparr>tc_messages := tc_messages c @ [d], tc_taken := tc_taken c @ take (nat n) buf, tc_in := Shift n (tc_in c)\<rparr>
          else c)"

text \<open>
  \<open>w\<close> is what the network makes of the write: all is written, or an error after some bytes.  Writing
  without a connection dereferences a nil pointer; on a connection that this side has closed it fails.
\<close>

definition flush_output :: "nat option \<Rightarrow> tcp_client \<Rightarrow> tcp_client" where
  "flush_output w c =
     (if Length (tc_out c) > 0 then
        let buf = all_bytes (tc_out c) in
        if \<not> tc_conn c then c\<lparr>tc_crashed := True\<rparr>
        else if \<not> tc_live c then c
        else
          (case w of
             Some n \<Rightarrow> c\<lparr>tc_wire := tc_wire c @ take n buf\<rparr>
           | None \<Rightarrow> c\<lparr>tc_wire := tc_wire c @ buf, tc_flushed := tc_flushed c @ buf,
                        tc_out := Shift (int (length buf)) (tc_out c)\<rparr>)
      else c)"

text \<open>\<open>Tick\<close>; a panic ends it.\<close>

definition if_alive :: "(tcp_client \<Rightarrow> tcp_client) \<Rightarrow> tcp_client \<Rightarrow> tcp_client" where
  "if_alive f c = (if tc_crashed c then c else f c)"

definition tick :: "tcp_codec \<Rightarrow> nat option \<Rightarrow> tcp_client \<Rightarrow> tcp_client" where
  "tick k w c =
     (if IsDisconnected c then (if tc_auto c then doConnAction (markReconnect c) else c)
      else if_alive doAction (if_alive (flush_output w) (handle_input k c)))"

datatype tcp_event =
    CallConnect bool
  | ConnectRuns
  | DialFailed bool nat
  | Dialled nat
  | ReconnectRound
  | WakeUp
  | ReadBytes nat string
  | StoreBytes nat
  | ReadError nat
  | CallWriteBuf string
  | CallSend string
  | CallDisconnect
  | CallSetContext string
  | Tick "nat option"

fun tcp_act :: "tcp_codec \<Rightarrow> tcp_event \<Rightarrow> tcp_client \<Rightarrow> tcp_client" where
  "tcp_act k (CallConnect auto) c = Connect auto c"
| "tcp_act k ConnectRuns c = onConnectRuns c"
| "tcp_act k (DialFailed r i) c = onDialFailed r i c"
| "tcp_act k (Dialled i) c = onDialled i c"
| "tcp_act k ReconnectRound c = onReconnectRound c"
| "tcp_act k WakeUp c = (if tc_reconnect c = Sleeping then c\<lparr>tc_reconnect := LoopHead\<rparr> else c)"
| "tcp_act k (ReadBytes i s) c = onRead i s c"
| "tcp_act k (StoreBytes i) c = onStore i c"
| "tcp_act k (ReadError i) c = onReadError i c"
| "tcp_act k (CallWriteBuf s) c = WriteBuf k s c"
| "tcp_act k (CallSend s) c = Send k s c"
| "tcp_act k CallDisconnect c = Disconnect c"
| "tcp_act k (CallSetContext ctx) c = SetContext ctx c"
| "tcp_act k (Tick w) c = tick k w c"

text \<open>After a panic nothing happens any more.\<close>

definition tcp_run :: "tcp_codec \<Rightarrow> tcp_event list \<Rightarrow> tcp_client \<Rightarrow> tcp_client" where
  "tcp_run k evs c = fold (\<lambda>ev. if_alive (tcp_act k ev)) evs c"


section \<open>The client of the admin process\<close>

text \<open>It connects once, without reconnecting.\<close>

definition no_connect :: "tcp_event list \<Rightarrow> bool" where
  "no_connect evs \<longleftrightarrow> (\<forall>auto. CallConnect auto \<notin> set evs)"

definition admin_client :: "tcp_event list \<Rightarrow> tcp_client" where
  "admin_client evs = tcp_run adminHandler (CallConnect False # evs) NewTcpClient"

definition in_hand :: "tcp_client \<Rightarrow> string" where
  "in_hand c = concat (map (\<lambda>r. case r of None \<Rightarrow> [] | Some s \<Rightarrow> s) (tc_readers c))"

text \<open>The streams: nothing is lost, doubled or reordered between the parts of the client.\<close>

definition streams :: "tcp_client \<Rightarrow> bool" where
  "streams c \<longleftrightarrow> ring_ok (tc_in c) \<and> ring_ok (tc_out c)
     \<and> tc_taken c @ bytes_of (tc_in c) @ in_hand c = tc_got c \<and> concat (tc_messages c) = tc_taken c
     \<and> [] \<notin> set (tc_messages c) \<and> tc_flushed c @ bytes_of (tc_out c) = tc_given c"

text \<open>Where a client that connects once is in its life.\<close>

datatype life = Pending | Opening | Failed | Fresh | Open | Over

definition life_ok :: "life \<Rightarrow> tcp_client \<Rightarrow> bool" where
  "life_ok l c \<longleftrightarrow> \<not> tc_auto c \<and> tc_reconnect c = NotRunning \<and> tc_action c \<noteq> Reconnect
     \<and> tc_pending c = (if l = Pending then 1 else 0)
     \<and> tc_dialling c = (if l = Opening then [ByConnect] else [])
     \<and> length (tc_readers c) \<le> (if l \<in> {Fresh, Open, Over} then 1 else 0)
     \<and> tc_status c = (if l \<in> {Fresh, Open} then Connected else if l = Opening then Connecting else Disconnected)
     \<and> tc_conn c = (l \<in> {Fresh, Open, Over})
     \<and> tc_event c = (if l = Fresh then NowConnected else NoEvent)
     \<and> tc_calls c = (if l = Open then [OnConnect] else if l = Over then [OnConnect, OnDisconnect] else [])"

fun life_next :: "life \<Rightarrow> life set" where
  "life_next Pending = {Pending, Opening}"
| "life_next Opening = {Opening, Failed, Fresh}"
| "life_next Failed = {Failed}"
| "life_next Fresh = {Fresh, Open, Over}"
| "life_next Open = {Open, Over}"
| "life_next Over = {Over}"

lemma all_bytes: "ring_ok b \<Longrightarrow> all_bytes b = bytes_of b"
  using rb.read_all_law[of b] by (simp add: all_bytes_def case_prod_beta')

lemma one_reader:
  assumes "length xs \<le> 1" and "i < length xs"
  shows "i = 0 \<and> (\<exists>x. xs = [x])"
  using assms by (cases xs) auto

lemma reader_at:
  assumes "life_ok l c" and "i < length (tc_readers c)"
  shows "i = 0 \<and> (\<exists>x. tc_readers c = [x])"
proof (rule one_reader[OF _ assms(2)])
  show "length (tc_readers c) \<le> 1" using assms(1) by (simp add: life_ok_def split: if_splits)
qed

lemma streams_same:
  assumes "streams c" and "tc_in d = tc_in c" "tc_out d = tc_out c" "tc_readers d = tc_readers c" "tc_got d = tc_got c"
    "tc_taken d = tc_taken c" "tc_messages d = tc_messages c" "tc_given d = tc_given c" "tc_flushed d = tc_flushed c"
  shows "streams d"
  using assms by (simp add: streams_def in_hand_def)

subsection \<open>The parts of the tick\<close>

lemma handle_input_streams:
  assumes "streams c"
  shows "streams (handle_input adminHandler c)"
proof -
  have i: "ring_ok (tc_in c)" using assms by (simp add: streams_def)
  show ?thesis
  proof (cases "bytes_of (tc_in c) = []")
    case True
    then show ?thesis using assms by (simp add: handle_input_def adminHandler_def all_bytes[OF i])
  next
    case False
    have "bytes_of (Shift (int (length (bytes_of (tc_in c)))) (tc_in c)) = []"
      using rb.shift_law[OF i] by simp
    with False assms rb.shift_law[OF i] show ?thesis
      by (simp add: handle_input_def adminHandler_def all_bytes[OF i] streams_def in_hand_def Let_def)
  qed
qed

lemma handle_input_frame:
  "\<exists>ms t b. handle_input adminHandler c = c\<lparr>tc_messages := ms, tc_taken := t, tc_in := b\<rparr>"
proof (cases "all_bytes (tc_in c) = []")
  case True
  then have "handle_input adminHandler c = c\<lparr>tc_messages := tc_messages c, tc_taken := tc_taken c, tc_in := tc_in c\<rparr>"
    by (simp add: handle_input_def adminHandler_def)
  then show ?thesis by blast
qed (force simp: handle_input_def adminHandler_def Let_def)

lemma flush_output_streams:
  assumes "streams c"
  shows "streams (flush_output w c)"
proof -
  have o: "ring_ok (tc_out c)" using assms by (simp add: streams_def)
  show ?thesis
    using assms rb.shift_law[OF o, of "int (length (bytes_of (tc_out c)))"]
    by (auto simp: flush_output_def all_bytes[OF o] streams_def in_hand_def Let_def split: option.splits)
qed

lemma flush_output_frame:
  "\<exists>b f w' cr. flush_output w c = c\<lparr>tc_out := b, tc_flushed := f, tc_wire := w', tc_crashed := cr\<rparr>"
proof -
  have same: "c = c\<lparr>tc_out := tc_out c, tc_flushed := tc_flushed c, tc_wire := tc_wire c, tc_crashed := tc_crashed c\<rparr>"
    by simp
  show ?thesis
  proof (cases "Length (tc_out c) > 0 \<and> (tc_conn c \<longrightarrow> tc_live c)")
    case False
    then have "flush_output w c = c" by (auto simp: flush_output_def)
    with same show ?thesis by metis
  next
    case True
    show ?thesis
    proof (cases "tc_conn c")
      case False
      with True have "flush_output w c = c\<lparr>tc_out := tc_out c, tc_flushed := tc_flushed c, tc_wire := tc_wire c, tc_crashed := True\<rparr>"
        by (simp add: flush_output_def)
      then show ?thesis by blast
    next
      case conn: True
      show ?thesis
      proof (cases w)
        case None
        with True conn have "flush_output w c = c\<lparr>tc_out := Shift (int (length (all_bytes (tc_out c)))) (tc_out c),
            tc_flushed := tc_flushed c @ all_bytes (tc_out c), tc_wire := tc_wire c @ all_bytes (tc_out c),
            tc_crashed := tc_crashed c\<rparr>" by (simp add: flush_output_def Let_def)
        then show ?thesis by blast
      next
        case (Some n)
        with True conn have "flush_output w c = c\<lparr>tc_out := tc_out c, tc_flushed := tc_flushed c,
            tc_wire := tc_wire c @ take n (all_bytes (tc_out c)), tc_crashed := tc_crashed c\<rparr>"
          by (simp add: flush_output_def Let_def)
        then show ?thesis by blast
      qed
    qed
  qed
qed

lemma doAction_streams: "streams c \<Longrightarrow> streams (doAction c)"
  by (erule streams_same)
    (simp_all add: doAction_def doConnAction_def doHandlerAction_def Let_def split: handler_action.split)

lemma life_frame:
  "life_ok l (c\<lparr>tc_messages := ms, tc_taken := t, tc_in := b\<rparr>) = life_ok l c"
  "life_ok l (c\<lparr>tc_out := b, tc_flushed := f, tc_wire := w, tc_crashed := cr\<rparr>) = life_ok l c"
  by (simp_all add: life_ok_def)

lemma doAction_life:
  assumes "life_ok l c" and "l \<in> {Opening, Fresh, Open}"
  shows "\<exists>l' \<in> life_next l. life_ok l' (doAction c)"
proof (cases "l = Opening")
  case True
  with assms(1) have "life_ok Opening (doAction c)"
    by (simp add: life_ok_def doAction_def doHandlerAction_def doConnAction_def)
  with True show ?thesis by simp
next
  case False
  with assms(2) have l: "l = Fresh \<or> l = Open" by blast
  with assms(1) have "life_ok (if tc_action c = NoAction then Open else Over) (doAction c)"
    by (auto simp: life_ok_def doAction_def doHandlerAction_def doConnAction_def)
  with l show ?thesis by (auto split: if_splits)
qed

lemma tick_kept:
  assumes "life_ok l c" and "streams c"
  shows "\<exists>l' \<in> life_next l. life_ok l' (tick adminHandler w c) \<and> streams (tick adminHandler w c)"
proof (cases "l \<in> {Opening, Fresh, Open}")
  case True
  then have t: "tick adminHandler w c = if_alive doAction (if_alive (flush_output w) (handle_input adminHandler c))"
    using assms(1) by (auto simp: tick_def IsDisconnected_def life_ok_def)
  let ?c1 = "if_alive (flush_output w) (handle_input adminHandler c)"
  have "life_ok l (handle_input adminHandler c)" using handle_input_frame[of c] assms(1) life_frame(1) by metis
  then have c1: "life_ok l ?c1" "streams ?c1"
    using flush_output_frame[of w "handle_input adminHandler c"] life_frame(2) handle_input_streams[OF assms(2)]
      flush_output_streams
    by (auto simp: if_alive_def)
  moreover have "l \<in> life_next l" by (cases l) simp_all
  ultimately show ?thesis using doAction_life[OF c1(1) True] doAction_streams[OF c1(2)]
    by (auto simp: t if_alive_def)
next
  case False
  then have "tick adminHandler w c = c" "l \<in> life_next l"
    using assms(1) by (cases l; simp add: tick_def IsDisconnected_def life_ok_def)+
  with assms show ?thesis by auto
qed

subsection \<open>All steps\<close>

text \<open>Bytes that the client gets or is given; a ring counts them up to \<open>2 ^ 62\<close>.\<close>

fun ev_bytes :: "tcp_event \<Rightarrow> nat" where
  "ev_bytes (ReadBytes i s) = length s"
| "ev_bytes (CallWriteBuf s) = length s"
| "ev_bytes (CallSend s) = length s"
| "ev_bytes _ = 0"

definition run_size :: "tcp_event list \<Rightarrow> nat" where
  "run_size evs = sum_list (map ev_bytes evs)"

definition size_of :: "tcp_client \<Rightarrow> nat" where
  "size_of c = length (tc_got c) + length (tc_given c)"

lemma WriteBuf_kept:
  assumes "life_ok l c" and "streams c" and "size_of c + length s \<le> enough"
  shows "life_ok l (WriteBuf adminHandler s c) \<and> streams (WriteBuf adminHandler s c)
    \<and> tc_crashed (WriteBuf adminHandler s c) = tc_crashed c"
proof -
  have o: "ring_ok (tc_out c)" using assms(2) by (simp add: streams_def)
  have "length (bytes_of (tc_out c)) \<le> length (tc_given c)"
    using assms(2) by (auto simp: streams_def dest: arg_cong[of _ _ length])
  then have "length (bytes_of (tc_out c)) + length s \<le> enough" using assms(3) by (simp add: size_of_def)
  from rb.write_law[OF o this] assms(1,2) show ?thesis
    by (auto simp: WriteBuf_def adminHandler_def life_ok_def streams_def in_hand_def)
qed

lemma reader_steps_kept:
  assumes "life_ok l c" and "streams c" and "size_of c \<le> enough"
  shows "life_ok l (onRead i s c) \<and> streams (onRead i s c)"
    and "life_ok l (onStore i c) \<and> streams (onStore i c) \<and> tc_crashed (onStore i c) = tc_crashed c"
    and "life_ok l (onReadError i c) \<and> streams (onReadError i c)"
proof -
  show "life_ok l (onRead i s c) \<and> streams (onRead i s c)"
  proof (cases "i < length (tc_readers c) \<and> tc_readers c ! i = None")
    case True
    then obtain x where "i = 0" "tc_readers c = [None]" using reader_at[OF assms(1), of i] by auto
    with assms show ?thesis by (auto simp: onRead_def life_ok_def streams_def in_hand_def)
  qed (use assms in \<open>auto simp: onRead_def\<close>)
  show "life_ok l (onReadError i c) \<and> streams (onReadError i c)"
  proof (cases "i < length (tc_readers c) \<and> tc_readers c ! i = None")
    case True
    then have "i = 0" "tc_readers c = [None]" using reader_at[OF assms(1), of i] by auto
    with assms show ?thesis
      by (auto simp: onReadError_def life_ok_def streams_def in_hand_def Disconnect_def without_def Let_def)
  qed (use assms in \<open>auto simp: onReadError_def\<close>)
  show "life_ok l (onStore i c) \<and> streams (onStore i c) \<and> tc_crashed (onStore i c) = tc_crashed c"
  proof (cases "i < length (tc_readers c) \<and> tc_readers c ! i \<noteq> None")
    case True
    then obtain s where r: "i = 0" "tc_readers c = [Some s]" using reader_at[OF assms(1), of i] by auto
    have b: "ring_ok (tc_in c)" using assms(2) by (simp add: streams_def)
    have "length (bytes_of (tc_in c)) + length s \<le> length (tc_got c)"
      using assms(2) r by (auto simp: streams_def in_hand_def dest: arg_cong[of _ _ length])
    then have "length (bytes_of (tc_in c)) + length s \<le> enough" using assms(3) by (simp add: size_of_def)
    from rb.write_law[OF b this] r assms(1,2) show ?thesis
      by (auto simp: onStore_def life_ok_def streams_def in_hand_def)
  next
    case False
    then have "onStore i c = c" by (auto simp: onStore_def split: option.splits)
    with assms show ?thesis by simp
  qed
qed

lemma connecting_kept:
  assumes "life_ok l c" and "streams c"
  shows "\<exists>l' \<in> life_next l. life_ok l' (onConnectRuns c) \<and> streams (onConnectRuns c)"
    and "\<exists>l' \<in> life_next l. life_ok l' (onDialFailed r i c) \<and> streams (onDialFailed r i c)"
    and "\<exists>l' \<in> life_next l. life_ok l' (onDialled i c) \<and> streams (onDialled i c)"
proof -
  have same: "l \<in> life_next l" by (cases l) simp_all
  show "\<exists>l' \<in> life_next l. life_ok l' (onConnectRuns c) \<and> streams (onConnectRuns c)"
  proof (cases "l = Pending")
    case True
    with assms have "life_ok Opening (onConnectRuns c)" "streams (onConnectRuns c)"
      by (auto simp: onConnectRuns_def life_ok_def connect_begin_def streams_def in_hand_def Let_def)
    with True show ?thesis by auto
  next
    case False
    then have "onConnectRuns c = c" using assms(1) by (simp add: onConnectRuns_def life_ok_def)
    with assms same show ?thesis by auto
  qed
  show "\<exists>l' \<in> life_next l. life_ok l' (onDialFailed r i c) \<and> streams (onDialFailed r i c)"
  proof (cases "l = Opening \<and> i < 1")
    case True
    with assms have "life_ok Failed (onDialFailed r i c)" "streams (onDialFailed r i c)"
      by (auto simp: onDialFailed_def life_ok_def without_def streams_def in_hand_def)
    with True show ?thesis by auto
  next
    case False
    then have "onDialFailed r i c = c" using assms(1) by (auto simp: onDialFailed_def life_ok_def)
    with assms same show ?thesis by auto
  qed
  show "\<exists>l' \<in> life_next l. life_ok l' (onDialled i c) \<and> streams (onDialled i c)"
  proof (cases "l = Opening \<and> i < 1")
    case True
    with assms have "life_ok Fresh (onDialled i c)" "streams (onDialled i c)"
      by (auto simp: onDialled_def life_ok_def without_def streams_def in_hand_def Let_def)
    with True show ?thesis by auto
  next
    case False
    then have "onDialled i c = c" using assms(1) by (auto simp: onDialled_def life_ok_def)
    with assms same show ?thesis by auto
  qed
qed

lemma tcp_act_kept:
  assumes "life_ok l c" and "streams c" and "\<And>auto. ev \<noteq> CallConnect auto" and "size_of c + ev_bytes ev \<le> enough"
  shows "\<exists>l' \<in> life_next l. life_ok l' (tcp_act adminHandler ev c) \<and> streams (tcp_act adminHandler ev c)"
proof -
  have keep: "life_ok l d \<and> streams d \<Longrightarrow> ?thesis" if "d = tcp_act adminHandler ev c" for d
    using that by (cases l) auto
  have c: "size_of c \<le> enough" using assms(4) by simp
  show ?thesis
  proof (cases ev)
    case (CallWriteBuf s)
    with WriteBuf_kept[OF assms(1,2), of s] assms(4) keep show ?thesis by simp
  next
    case (CallSend s)
    with WriteBuf_kept[OF assms(1,2), of s] assms keep show ?thesis by (simp add: Send_def split: if_splits)
  next
    case (ReadBytes i s)
    with reader_steps_kept(1)[OF assms(1,2) c] keep show ?thesis by simp
  next
    case (StoreBytes i)
    with reader_steps_kept(2)[OF assms(1,2) c] keep show ?thesis by simp
  next
    case (ReadError i)
    with reader_steps_kept(3)[OF assms(1,2) c] keep show ?thesis by simp
  next
    case CallDisconnect
    with assms(1,2) keep show ?thesis by (simp add: Disconnect_def life_ok_def streams_def in_hand_def)
  next
    case (CallSetContext ctx)
    with assms(1,2) keep show ?thesis by (simp add: SetContext_def life_ok_def streams_def in_hand_def)
  next
    case ReconnectRound
    with assms(1,2) keep show ?thesis by (simp add: onReconnectRound_def life_ok_def)
  next
    case WakeUp
    with assms(1,2) keep show ?thesis by (simp add: life_ok_def)
  qed (use assms(3) tick_kept[OF assms(1,2)] connecting_kept[OF assms(1,2)] in simp_all)
qed

lemma WriteBuf_size: "size_of (WriteBuf adminHandler s c) \<le> size_of c + length s"
  by (simp add: WriteBuf_def adminHandler_def size_of_def split: option.split)

lemma tick_size: "size_of (tick adminHandler w c) = size_of c"
proof -
  have "size_of (handle_input adminHandler c) = size_of c" for c
    using handle_input_frame[of c] by (auto simp: size_of_def)
  moreover have "size_of (flush_output w c) = size_of c" for c
    using flush_output_frame[of w c] by (auto simp: size_of_def)
  moreover have "size_of (doHandlerAction c) = size_of c" for c
    by (simp add: size_of_def doHandlerAction_def split: handler_action.split)
  moreover have "size_of (doConnAction c) = size_of c" for c
    by (simp add: size_of_def doConnAction_def doHandlerAction_def Let_def split: handler_action.split)
  moreover have "size_of (markReconnect c) = size_of c" for c by (simp add: size_of_def markReconnect_def)
  ultimately show ?thesis by (simp add: tick_def if_alive_def doAction_def)
qed

lemma tcp_act_size: "size_of (tcp_act adminHandler ev c) \<le> size_of c + ev_bytes ev"
proof (cases ev)
  case (CallSend s)
  then show ?thesis using WriteBuf_size[of s c] by (simp add: Send_def)
next
  case (StoreBytes i)
  then show ?thesis by (simp add: onStore_def size_of_def split: option.split)
next
  case ReconnectRound
  then show ?thesis by (simp add: onReconnectRound_def connect_begin_def size_of_def Let_def)
next
  case ConnectRuns
  then show ?thesis by (simp add: onConnectRuns_def connect_begin_def size_of_def Let_def)
next
  case (CallWriteBuf s)
  then show ?thesis using WriteBuf_size[of s c] by simp
next
  case (Tick w)
  then show ?thesis by (simp add: tick_size)
qed (simp_all add: Connect_def onDialFailed_def onDialled_def onRead_def onReadError_def markReconnect_def
    Disconnect_def SetContext_def size_of_def Let_def)

text \<open>A panic comes from a tick during the dial, with something to write.\<close>

definition dial_panic :: "tcp_client \<Rightarrow> bool" where
  "dial_panic c \<longleftrightarrow> tc_status c = Connecting \<and> bytes_of (tc_out c) \<noteq> []"

lemma flush_crash:
  assumes "streams c" and "\<not> tc_crashed c"
  shows "tc_crashed (flush_output w c) \<longleftrightarrow> \<not> tc_conn c \<and> bytes_of (tc_out c) \<noteq> []"
    and "tc_crashed (flush_output w c) \<Longrightarrow> flush_output w c = c\<lparr>tc_crashed := True\<rparr>"
proof -
  have "ring_ok (tc_out c)" using assms(1) by (simp add: streams_def)
  from rb.len_law[OF this] assms(2)
  show "tc_crashed (flush_output w c) \<longleftrightarrow> \<not> tc_conn c \<and> bytes_of (tc_out c) \<noteq> []"
    and "tc_crashed (flush_output w c) \<Longrightarrow> flush_output w c = c\<lparr>tc_crashed := True\<rparr>"
    by (auto simp: flush_output_def Let_def split: option.splits)
qed

lemma doAction_crashed: "tc_crashed (doAction c) = tc_crashed c"
  by (simp add: doAction_def doConnAction_def doHandlerAction_def Let_def split: handler_action.split)

lemma tick_crash:
  assumes "life_ok l c" and "streams c" and "\<not> tc_crashed c"
  shows "tc_crashed (tick adminHandler w c) \<longleftrightarrow> dial_panic c"
    and "tc_crashed (tick adminHandler w c) \<Longrightarrow> dial_panic (tick adminHandler w c)"
proof -
  let ?h = "handle_input adminHandler c"
  have h: "tc_conn ?h = tc_conn c" "tc_crashed ?h = tc_crashed c" "tc_out ?h = tc_out c" "tc_status ?h = tc_status c"
    using handle_input_frame[of c] by auto
  have sh: "streams ?h" "\<not> tc_crashed ?h" using handle_input_streams[OF assms(2)] h(2) assms(3) by simp_all
  note f = flush_crash[OF sh, of w]
  have status: "\<not> tc_conn c \<and> tc_status c \<noteq> Disconnected \<longleftrightarrow> tc_status c = Connecting"
    using assms(1) by (cases l) (auto simp: life_ok_def)
  have auto: "\<not> tc_auto c" using assms(1) by (simp add: life_ok_def)
  show a: "tc_crashed (tick adminHandler w c) \<longleftrightarrow> dial_panic c"
    using f(1) h sh(2) assms(3) status auto
    by (auto simp: tick_def IsDisconnected_def if_alive_def doAction_crashed dial_panic_def)
  assume crash: "tc_crashed (tick adminHandler w c)"
  then have p: "dial_panic c" using a by simp
  then have "tc_crashed (flush_output w ?h)" using f(1) h status by (auto simp: dial_panic_def)
  with f(2) p h sh(2) show "dial_panic (tick adminHandler w c)"
    by (simp add: tick_def IsDisconnected_def if_alive_def dial_panic_def)
qed

lemma tcp_act_crash:
  assumes "life_ok l c" and "streams c" and "\<not> tc_crashed c" and "\<And>auto. ev \<noteq> CallConnect auto"
    and "size_of c + ev_bytes ev \<le> enough" and "tc_crashed (tcp_act adminHandler ev c)"
  shows "dial_panic (tcp_act adminHandler ev c)"
proof (cases ev)
  case (Tick w)
  with tick_crash(2)[OF assms(1-3), of w] assms(6) show ?thesis by simp
next
  case (CallWriteBuf s)
  with WriteBuf_kept[OF assms(1,2), of s] assms show ?thesis by simp
next
  case (CallSend s)
  with WriteBuf_kept[OF assms(1,2), of s] assms show ?thesis by (simp add: Send_def split: if_splits)
next
  case (StoreBytes i)
  with reader_steps_kept(2)[OF assms(1,2)] assms show ?thesis by simp
next
  case ReconnectRound
  with assms show ?thesis by (simp add: onReconnectRound_def life_ok_def)
next
  case ConnectRuns
  with assms show ?thesis by (auto simp: onConnectRuns_def connect_begin_def Let_def split: if_splits)
qed (use assms in \<open>auto simp: onDialFailed_def onDialled_def onRead_def onReadError_def markReconnect_def
    Disconnect_def SetContext_def Let_def split: if_splits\<close>)

text \<open>Without a connection nothing is written.\<close>

lemma unconnected_act:
  assumes "\<not> tc_conn c"
  shows "tc_wire (tcp_act adminHandler ev c) = tc_wire c \<and> tc_flushed (tcp_act adminHandler ev c) = tc_flushed c"
proof (cases ev)
  case (Tick w)
  have "\<not> tc_conn (handle_input adminHandler c) \<and> tc_wire (handle_input adminHandler c) = tc_wire c
    \<and> tc_flushed (handle_input adminHandler c) = tc_flushed c"
    using handle_input_frame[of c] assms by auto
  then have "tc_wire (if_alive (flush_output w) (handle_input adminHandler c)) = tc_wire c
    \<and> tc_flushed (if_alive (flush_output w) (handle_input adminHandler c)) = tc_flushed c"
    by (simp add: if_alive_def flush_output_def Let_def)
  moreover have "tc_wire (doAction d) = tc_wire d \<and> tc_flushed (doAction d) = tc_flushed d" for d
    by (simp add: doAction_def doConnAction_def doHandlerAction_def Let_def split: handler_action.split)
  moreover have "tc_wire (doConnAction (markReconnect c)) = tc_wire c \<and> tc_flushed (doConnAction (markReconnect c)) = tc_flushed c"
    by (simp add: doConnAction_def doHandlerAction_def markReconnect_def Let_def split: handler_action.split)
  ultimately show ?thesis using Tick by (simp add: tick_def if_alive_def)
next
  case (CallWriteBuf s)
  then show ?thesis by (simp add: WriteBuf_def split: option.split)
next
  case (CallSend s)
  then show ?thesis by (simp add: Send_def WriteBuf_def split: option.split)
next
  case (StoreBytes i)
  then show ?thesis by (simp add: onStore_def split: option.split)
next
  case ReconnectRound
  then show ?thesis by (simp add: onReconnectRound_def connect_begin_def Let_def)
next
  case ConnectRuns
  then show ?thesis by (simp add: onConnectRuns_def connect_begin_def Let_def)
qed (simp_all add: Connect_def onDialFailed_def onDialled_def onRead_def onReadError_def markReconnect_def
    Disconnect_def SetContext_def Let_def)

definition kept :: "life \<Rightarrow> tcp_client \<Rightarrow> bool" where
  "kept l c \<longleftrightarrow> life_ok l c \<and> streams c \<and> (tc_crashed c \<longrightarrow> dial_panic c)
     \<and> (\<not> tc_conn c \<longrightarrow> tc_wire c = [] \<and> tc_flushed c = [])"

lemma life_conn:
  assumes "life_ok l c" and "l' \<in> life_next l" and "life_ok l' d" and "\<not> tc_conn d"
  shows "\<not> tc_conn c"
  using assms by (cases l) (auto simp: life_ok_def)

lemma step_kept:
  assumes "kept l c" and "\<And>auto. ev \<noteq> CallConnect auto" and "size_of c + ev_bytes ev \<le> enough"
  shows "\<exists>l' \<in> life_next l. kept l' (if_alive (tcp_act adminHandler ev) c)"
proof (cases "tc_crashed c")
  case True
  moreover have "l \<in> life_next l" by (cases l) simp_all
  ultimately show ?thesis using assms(1) by (auto simp: if_alive_def)
next
  case False
  have c: "life_ok l c" "streams c" using assms(1) by (simp_all add: kept_def)
  obtain l' where l': "l' \<in> life_next l" "life_ok l' (tcp_act adminHandler ev c)" "streams (tcp_act adminHandler ev c)"
    using tcp_act_kept[OF c assms(2,3)] by blast
  have "\<not> tc_conn (tcp_act adminHandler ev c) \<Longrightarrow> \<not> tc_conn c" using life_conn[OF c(1) l'(1,2)] .
  with l' tcp_act_crash[OF c False assms(2,3)] unconnected_act[of c ev] assms(1) have "kept l' (tcp_act adminHandler ev c)"
    by (simp add: kept_def)
  with l'(1) False show ?thesis by (auto simp: if_alive_def)
qed

lemma run_kept:
  assumes "kept l c" and "no_connect evs" and "size_of c + run_size evs \<le> enough"
  shows "\<exists>l'. kept l' (tcp_run adminHandler evs c) \<and> (l = Failed \<longrightarrow> l' = Failed)"
  using assms
proof (induction evs arbitrary: l c)
  case (Cons ev evs)
  have ev: "\<And>auto. ev \<noteq> CallConnect auto" "no_connect evs" "size_of c + ev_bytes ev \<le> enough"
    using Cons.prems(2,3) by (auto simp: no_connect_def run_size_def)
  obtain l1 where 1: "l1 \<in> life_next l" "kept l1 (if_alive (tcp_act adminHandler ev) c)"
    using step_kept[OF Cons.prems(1) ev(1,3)] by blast
  have "size_of (if_alive (tcp_act adminHandler ev) c) + run_size evs \<le> enough"
    using Cons.prems(3) tcp_act_size[of ev c] by (simp add: if_alive_def run_size_def)
  from Cons.IH[OF 1(2) ev(2) this] 1(1) show ?case by (auto simp: tcp_run_def)
qed (auto simp: tcp_run_def)

text \<open>What a client takes whose dial has failed: every command, by \<open>WriteBuf\<close>.\<close>

fun accepted :: "tcp_event \<Rightarrow> string" where
  "accepted (CallWriteBuf s) = s"
| "accepted _ = []"

lemma failed_given:
  assumes "kept Failed c" and "size_of c + ev_bytes ev \<le> enough"
  shows "tc_given (if_alive (tcp_act adminHandler ev) c) = tc_given c @ accepted ev"
proof -
  have c: "life_ok Failed c" "streams c" "\<not> tc_crashed c"
    using assms(1) by (auto simp: kept_def dial_panic_def life_ok_def)
  show ?thesis
  proof (cases ev)
    case (CallWriteBuf s)
    have "ring_ok (tc_out c)" using c(2) by (simp add: streams_def)
    moreover have "length (bytes_of (tc_out c)) + length s \<le> enough"
      using c(2) assms(2) CallWriteBuf by (auto simp: streams_def size_of_def dest: arg_cong[of _ _ length])
    ultimately show ?thesis using rb.write_law[of "tc_out c" s] CallWriteBuf c(3)
      by (auto simp: WriteBuf_def adminHandler_def if_alive_def)
  next
    case (StoreBytes i)
    then show ?thesis by (simp add: onStore_def if_alive_def split: option.split)
  next
    case ReconnectRound
    then show ?thesis by (simp add: onReconnectRound_def connect_begin_def if_alive_def Let_def)
  next
    case ConnectRuns
    then show ?thesis by (simp add: onConnectRuns_def connect_begin_def if_alive_def Let_def)
  qed (use c in \<open>simp_all add: if_alive_def tick_def Send_def IsDisconnected_def life_ok_def
      Connect_def onDialFailed_def onDialled_def onRead_def onReadError_def markReconnect_def Disconnect_def SetContext_def Let_def\<close>)
qed

lemma failed_run:
  assumes "kept Failed c" and "no_connect evs" and "size_of c + run_size evs \<le> enough"
  shows "kept Failed (tcp_run adminHandler evs c)"
    and "tc_given (tcp_run adminHandler evs c) = tc_given c @ concat (map accepted evs)"
proof -
  show "kept Failed (tcp_run adminHandler evs c)" using run_kept[OF assms] by auto
  show "tc_given (tcp_run adminHandler evs c) = tc_given c @ concat (map accepted evs)"
    using assms
  proof (induction evs arbitrary: c)
    case (Cons ev evs)
    have ev: "\<And>auto. ev \<noteq> CallConnect auto" "no_connect evs" "size_of c + ev_bytes ev \<le> enough"
      using Cons.prems(2,3) by (auto simp: no_connect_def run_size_def)
    have k: "kept Failed (if_alive (tcp_act adminHandler ev) c)" using step_kept[OF Cons.prems(1) ev(1,3)] by simp
    have "size_of (if_alive (tcp_act adminHandler ev) c) + run_size evs \<le> enough"
      using Cons.prems(3) tcp_act_size[of ev c] by (simp add: if_alive_def run_size_def)
    from Cons.IH[OF k ev(2) this] failed_given[OF Cons.prems(1) ev(3)] show ?case by (simp add: tcp_run_def)
  qed (simp add: tcp_run_def)
qed

lemma start_kept: "kept Pending (Connect False NewTcpClient)"
  using new_ring by (simp add: kept_def life_ok_def streams_def Connect_def NewTcpClient_def in_hand_def)

lemma admin_client_run: "admin_client evs = tcp_run adminHandler evs (Connect False NewTcpClient)"
  by (simp add: admin_client_def tcp_run_def if_alive_def NewTcpClient_def)

lemma admin_client_kept:
  assumes "no_connect evs" and "run_size evs \<le> enough"
  shows "\<exists>l. kept l (admin_client evs)"
proof -
  have "size_of (Connect False NewTcpClient) = 0" by (simp add: size_of_def Connect_def NewTcpClient_def)
  with run_kept[OF start_kept assms(1)] assms(2) show ?thesis by (auto simp: admin_client_run)
qed

lemma tcp_run_size: "size_of (tcp_run adminHandler evs c) \<le> size_of c + run_size evs"
proof (induction evs arbitrary: c)
  case (Cons ev evs)
  have "size_of (if_alive (tcp_act adminHandler ev) c) \<le> size_of c + ev_bytes ev"
    using tcp_act_size[of ev c] by (simp add: if_alive_def)
  with Cons.IH[of "if_alive (tcp_act adminHandler ev) c"] show ?case by (simp add: tcp_run_def run_size_def)
qed (simp add: tcp_run_def)

lemma admin_client_append:
  "admin_client (evs @ later) = tcp_run adminHandler later (admin_client evs)"
  by (simp add: admin_client_def tcp_run_def)

lemma admin_client_size: "size_of (admin_client evs) \<le> run_size evs"
  using tcp_run_size[of evs "Connect False NewTcpClient"]
  by (simp add: admin_client_run size_of_def Connect_def NewTcpClient_def)

text \<open>
  C13.  The TCP client of the admin process, which connects once, is faithful in both directions: the
  messages it hands on, what its buffer holds and what its reader has in hand are, in this order, exactly
  the bytes that came, and no message is empty; what it has written out without an error and what its
  buffer holds are exactly the bytes it was given.  And it reports to its handler, in this order and at
  most once each, that it is connected and that it is disconnected.
\<close>

theorem admin_client_streams:
  assumes "no_connect evs" and "run_size evs \<le> 2 ^ 62"
  shows "let c = admin_client evs in
    concat (tc_messages c) @ bytes_of (tc_in c) @ in_hand c = tc_got c \<and> [] \<notin> set (tc_messages c)
    \<and> tc_flushed c @ bytes_of (tc_out c) = tc_given c
    \<and> prefix (tc_calls c) [OnConnect, OnDisconnect]"
proof -
  obtain l where "life_ok l (admin_client evs)" "streams (admin_client evs)"
    using admin_client_kept[OF assms(1)] assms(2) by (auto simp: enough_def kept_def)
  then show ?thesis by (cases l) (auto simp: Let_def streams_def life_ok_def)
qed

lemma admin_client_streams_witness:
  "let c = admin_client [ConnectRuns, CallWriteBuf ''ab'', Dialled 0, Tick None, ReadBytes 0 ''ok'', StoreBytes 0,
       Tick None, CallWriteBuf ''c'', ReadBytes 0 ''ko'', ReadError 0] in
    concat (tc_messages c) @ bytes_of (tc_in c) @ in_hand c = tc_got c \<and> [] \<notin> set (tc_messages c)
    \<and> tc_flushed c @ bytes_of (tc_out c) = tc_given c
    \<and> prefix (tc_calls c) [OnConnect, OnDisconnect]"
  by (rule admin_client_streams) (simp_all add: no_connect_def run_size_def)

text \<open>
  C14.  What the dial of the admin process's client can do to it.  The client panics in no other way than
  by a tick during the dial with a command to write, and then it does.  A client whose dial fails stays
  disconnected, does not panic and reports nothing, whatever follows; it still takes every command that is
  written to it, and none is ever put on the wire: all lie in its buffer.
\<close>

theorem admin_client_dial:
  assumes "no_connect (evs @ later)" and "run_size (evs @ later) \<le> 2 ^ 62" and "\<not> tc_crashed (admin_client evs)"
  shows "(tc_crashed (admin_client (evs @ [Tick w])) \<longleftrightarrow> dial_panic (admin_client evs))
    \<and> (tc_crashed (admin_client (evs @ later)) \<longrightarrow> dial_panic (admin_client (evs @ later)))
    \<and> (tc_status (admin_client evs) = Connecting \<longrightarrow>
        (let c = admin_client (evs @ DialFailed resolved 0 # later) in
          IsDisconnected c \<and> \<not> tc_crashed c \<and> tc_calls c = [] \<and> tc_wire c = []
          \<and> tc_given c = tc_given (admin_client evs) @ concat (map accepted later)
          \<and> bytes_of (tc_out c) = tc_given c))"
proof (intro conjI impI)
  have later: "no_connect later" "no_connect evs" "run_size evs + run_size later \<le> enough"
    using assms(1,2) by (auto simp: no_connect_def run_size_def enough_def)
  then obtain l where k: "kept l (admin_client evs)" using admin_client_kept[of evs] by auto
  then have l: "life_ok l (admin_client evs)" "streams (admin_client evs)" by (simp_all add: kept_def)
  show "tc_crashed (admin_client (evs @ [Tick w])) \<longleftrightarrow> dial_panic (admin_client evs)"
    using tick_crash(1)[OF l assms(3)] assms(3) by (simp add: admin_client_append tcp_run_def if_alive_def)
  show "dial_panic (admin_client (evs @ later))" if "tc_crashed (admin_client (evs @ later))"
    using admin_client_kept[OF assms(1)] assms(2) that by (auto simp: enough_def kept_def)
  assume c: "tc_status (admin_client evs) = Connecting"
  let ?d = "if_alive (tcp_act adminHandler (DialFailed resolved 0)) (admin_client evs)"
  have lo: "l = Opening" using l(1) c by (cases l) (simp_all add: life_ok_def)
  have d: "?d = onDialFailed resolved 0 (admin_client evs)" using assms(3) by (simp add: if_alive_def)
  have "size_of (admin_client evs) + ev_bytes (DialFailed resolved 0) \<le> enough"
    using admin_client_size[of evs] later(3) by simp
  from step_kept[OF k _ this] obtain l' where l': "l' \<in> life_next l" "kept l' ?d" by auto
  have g: "tc_given ?d = tc_given (admin_client evs)" "size_of ?d = size_of (admin_client evs)"
      "tc_status ?d = Disconnected"
    using l(1) lo by (simp_all add: d onDialFailed_def size_of_def life_ok_def)
  have "l' = Failed" using l' lo g(3) by (auto simp: kept_def life_ok_def)
  with l'(2) have f: "kept Failed ?d" by simp
  have "size_of ?d + run_size later \<le> enough" using g(2) admin_client_size[of evs] later(3) by simp
  note run = failed_run[OF f later(1) this]
  have "admin_client (evs @ DialFailed resolved 0 # later) = tcp_run adminHandler later ?d"
    by (simp add: admin_client_append tcp_run_def)
  with run g(1) show "let c = admin_client (evs @ DialFailed resolved 0 # later) in
        IsDisconnected c \<and> \<not> tc_crashed c \<and> tc_calls c = [] \<and> tc_wire c = []
        \<and> tc_given c = tc_given (admin_client evs) @ concat (map accepted later)
        \<and> bytes_of (tc_out c) = tc_given c"
    by (auto simp: kept_def life_ok_def IsDisconnected_def dial_panic_def streams_def Let_def)
qed

lemma admin_client_dial_witness:
  "tc_crashed (admin_client ([ConnectRuns, CallWriteBuf ''a''] @ [Tick None])) \<and>
   (let c = admin_client ([ConnectRuns, CallWriteBuf ''a''] @ DialFailed True 0 # [CallWriteBuf ''b'', Tick None]) in
     IsDisconnected c \<and> \<not> tc_crashed c \<and> tc_calls c = [] \<and> tc_wire c = []
     \<and> tc_given c = ''ab'' \<and> bytes_of (tc_out c) = tc_given c)"
proof -
  obtain b where b: "Write ''a'' new_ring = Some b" "bytes_of b = ''a''"
    using rb.write_law[of new_ring "''a''"] new_ring by (auto simp: enough_def)
  have "admin_client [ConnectRuns, CallWriteBuf ''a''] = NewTcpClient
      \<lparr>tc_status := Connecting, tc_dialling := [ByConnect], tc_out := b, tc_given := ''a''\<rparr>"
    using b(1) by (simp add: admin_client_def tcp_run_def if_alive_def NewTcpClient_def Connect_def
        onConnectRuns_def connect_begin_def WriteBuf_def adminHandler_def)
  then have "tc_status (admin_client [ConnectRuns, CallWriteBuf ''a'']) = Connecting"
    "\<not> tc_crashed (admin_client [ConnectRuns, CallWriteBuf ''a''])"
    "dial_panic (admin_client [ConnectRuns, CallWriteBuf ''a''])"
    "tc_given (admin_client [ConnectRuns, CallWriteBuf ''a'']) = ''a''"
    using b(2) by (simp_all add: NewTcpClient_def dial_panic_def)
  moreover have "no_connect ([ConnectRuns, CallWriteBuf ''a''] @ [CallWriteBuf ''b'', Tick None])"
    "run_size ([ConnectRuns, CallWriteBuf ''a''] @ [CallWriteBuf ''b'', Tick None]) \<le> 2 ^ 62"
    by (simp_all add: no_connect_def run_size_def)
  ultimately show ?thesis
    using admin_client_dial[of "[ConnectRuns, CallWriteBuf ''a'']" "[CallWriteBuf ''b'', Tick None]" None True]
    by simp
qed

end
