(* ===== verification/Spec2Isabelle.thy ===== *)
theory Spec2Isabelle
  imports ConsoleSpec EndToEnd CommandOrder ExportEndToEnd GmEndToEnd Services Notice HeaderSearch Pwa
    Locales XlsUi XlsUiCopies Typings Telnet TelnetProps GameChain ExportSystem GmSystem
    TcpClient
begin

text \<open>
  The web front ends of the rpg game server, in \<open>src/tools/\<close>.

  There are two of them, both React programs on umi and antd.  The admin console, \<open>tools/web/src\<close>,
  lets an operator talk to the running game processes; the table exporter's front end,
  \<open>tools/xls2lua/ui/src\<close>, is a copy of it with its own start page.  A page of either opens a WebSocket
  to an admin process and exchanges JSON texts with it.  The admin process is a Go program,
  \<open>src/engine/admin\<close>; it passes commands on to the game processes, keeps the exporter's configuration
  and runs the exporter.  It is modelled as far as the pages depend on it, so that the theorems can
  speak of the pages and the process together.  Of the game processes (Go) the debugging port is
  modelled, which is what the admin process talks to.  The rest of them, their scripts (Lua) and
  the exporter itself (Python) are not modelled; what they answer is arbitrary.

  Theories, and what they model.

  Foundations.
  \<^item> \<open>Prelude\<close>: decimal numerals, UTF-8, and the property lists of JavaScript objects with their
    enumeration order (integer keys first); the interface \<open>keyed_object\<close> of objects that are
    assigned property by property; exceptions as values (\<open>thrown\<close>).
  \<^item> \<open>JsValue\<close>: the values of JavaScript with truthiness, coercions, both equalities, property access
    (which throws on undefined and null), loops over indices and keys.
  \<^item> \<open>Json\<close>: \<open>JSON.stringify\<close> and \<open>JSON.parse\<close>, and the proof that parsing what was printed gives the
    value back, up to \<open>clean\<close> (undefined members disappear, undefined elements and NaN become null).
    It is the interpretation of the interface \<open>codec\<close>.  The parser has fuel; \<open>JSON_parse\<close> supplies
    twice the length of the text and one more, which is enough for every text that is JSON, since
    every call that does not consume a character is followed by one that does.
  \<^item> \<open>React\<close>: element trees, the effects of a page in their order (\<open>log\<close>), the connections of a page
    with their states, and the interfaces \<open>ws_page\<close> (opening a connection makes it the client, closing
    one clears the client) and \<open>ws_reconnecting_page\<close> (and opens a new connection at once), from which
    the pages get: the client is an open connection, and exactly one connection is alive.  The interface
    \<open>ws_morphism\<close> relates two pages whose handlers correspond.
  \<^item> \<open>JsonPrefix\<close>: what the parser reads of a text does not depend on what follows, hence the text of an
    object, cut off anywhere, is not the text of an object.

  Pages of the admin console (\<open>src/pages/\<close>).
  \<^item> \<open>DebugConsole\<close>: \<open>console/debug_console.tsx\<close>, the console of one process: history, input, form.
  \<^item> \<open>Consoles\<close>: \<open>console/consoles.tsx\<close>, the tabs of consoles and their connection.  A reconnecting page.
    The lemmas show the connection invariant, that only well-formed requests are sent, how messages
    become tabs and history entries, what a command and a confirmed hotfix do, and which messages
    cannot be handled.
  \<^item> \<open>ConsoleSpec\<close>: what the debug page is for, conversations with processes, as a specification of its
    own; the page refines it event by event.
  \<^item> \<open>ExportTable\<close>: \<open>exportTable.tsx\<close>, configuration and log of the table export.  A reconnecting page.
    The lemmas show its invariant, that a configuration survives the way through two JSON layers, and
    what the log shows, also after the page was left and entered again.
  \<^item> \<open>GmCommand\<close>, \<open>GmPane\<close>, \<open>GmPaneProps\<close>: \<open>gm/command.tsx\<close> and \<open>gm.tsx\<close>, the GM commands.  The
    results are one object that is changed in place and captured by the callbacks of all connections;
    the model keeps it in a heap and the invariant \<open>one_object\<close> shows that all references are the same.
    The page is a \<open>ws_page\<close> and does not reconnect; the lemmas include what is lost because of that.

  The admin process (\<open>src/engine/admin/\<close>) and the pages together.
  \<^item> \<open>AdminMessage\<close>: \<open>websocket.go\<close>, its messages; decoding (error, nil pointer, or message) and encoding;
    what a handler can do, as the type \<open>outcome\<close>.
  \<^item> \<open>AdminTable\<close>: \<open>message.go\<close>, the configuration file and the handlers of the export page.
  \<^item> \<open>Admin\<close>: \<open>message.go\<close>, \<open>websocket.go\<close>, \<open>main.go\<close>: the other handlers, the dispatcher, the goroutines of
    the connections and the tick goroutine that meet on one channel for responses, as events on a state.
    A handler that waits for a response is a continuation (\<open>cont\<close>) in the state of its connection.
  \<^item> \<open>AdminContract\<close>: page and process as one system (\<open>system\<close>), over a network that delays, repeats and
    reorders.  The interface \<open>admin_contract\<close> is what the handlers owe for requests of a kind (no panic, no
    unknown target, answers of a kind), and from it the same follows for the whole process;
    \<open>served_page\<close> extends it by a page that sends only such requests and handles such answers, and from it
    both are safe together.
  \<^item> \<open>EndToEnd\<close>, \<open>ExportSystem\<close>, \<open>GmSystem\<close>: the three pages as instances of \<open>served_page\<close>.  The process
    does not panic, every frame is decoded, the pages handle the answers, and what they hold has the
    right type; for the export page also where the shown configuration comes from; for the page of the
    GM commands also what becomes of it without a list of commands.
  \<^item> \<open>CommandOrder\<close>: which command an answer belongs to, for one page and one game process that answers in
    order and whose answers are read one at a time.
  \<^item> \<open>ExportEndToEnd\<close>: saving and showing the configuration, and the output of an export.
  \<^item> \<open>GmEndToEnd\<close>: which results of GM commands reach the page.

  The TCP client by which the admin process talks to a game process (\<open>src/engine/engine/\<close>).
  \<^item> \<open>RingBuffer\<close>: \<open>RingBuffer/ring_buffer.go\<close>, every operation on the array, with the doubling and halving;
    a size that is too large is a panic (\<open>None\<close>).  The lemmas are the interface \<open>byte_queue\<close>: writing
    appends, shifting drops, reading all shows the bytes in order.  The ring refines a queue of bytes,
    as long as no more than \<open>2 ^ 62\<close> bytes are written, where \<open>CeilToPowerOfTwo\<close> panics.
  \<^item> \<open>TcpClient\<close>: \<open>tcp_client.go\<close>, its goroutines and its tick as events on a state, over \<open>byte_queue\<close>, and the
    codec of \<open>admin.go\<close>.  For the client of the admin process, which connects once, a simulation by
    the stages of its life (\<open>life\<close>) shows that the bytes go through unchanged in both directions, and what
    a dial that is slow or fails does to it.

  The debugging port of a game process (\<open>src/engine/engine/telnet.go\<close>, \<open>lua_machine.go\<close>).
  \<^item> \<open>Telnet\<close>: the goroutines of its connections, the queue, the main thread that runs the commands, and the
    one channel for results, as events on a state; interpreter and scripts are the parameter \<open>lua_vm\<close>.
  \<^item> \<open>TelnetProps\<close>: results are handed out in the order of the commands, whoever waits; after enough
    timeouts the channel is full and the main thread stops for ever.
  \<^item> \<open>GameChain\<close>: page, admin process and game process in a row, and which result is shown for which
    command; without timeouts, that of the command.

  Around the pages.
  \<^item> \<open>Services\<close>: \<open>src/services/\<close>, the requests of the HTTP services.
  \<^item> \<open>Layout\<close>: \<open>src/app.tsx\<close>, \<open>src/access.ts\<close>, header, footer, \<open>404.tsx\<close>, \<open>debug.tsx\<close>.
  \<^item> \<open>Notice\<close>: \<open>src/components/NoticeIcon/\<close>.
  \<^item> \<open>HeaderSearch\<close>: \<open>src/components/HeaderSearch/\<close>, which no page uses.
  \<^item> \<open>Config\<close>: \<open>config/\<close>, the end-to-end tests and their runner.
  \<^item> \<open>Pwa\<close>: \<open>src/global.tsx\<close> and \<open>src/service-worker.js\<close>, with the update protocol between them as a
    step relation; an update reloads at most once, takes at most four steps, and never gets stuck.
  \<^item> \<open>Locales\<close>: \<open>src/locales/\<close>.
  \<^item> \<open>Typings\<close>: \<open>src/typings.d.ts\<close>, \<open>src/services/*/typings.d.ts\<close> and the types of the GM page, as data
    (\<open>ty\<close>) with the values that have them (\<open>has_type\<close>); what the declarations promise of the requests, the
    notices and the header.
  \<^item> \<open>XlsUi\<close>: what differs in the table exporter's front end, and its export page, whose reachable states
    are those of the console's but for the address; \<open>XlsUiCopies\<close>: its files that are identical copies.

  How a page is modelled.  The state of a component is a record with a field per state hook or
  variable; a handler is a function on it, and what it does besides goes to the log of the page's
  \<open>net\<close>.  A page runs by \<open>ws_step\<close>: the browser opens or closes a connection, or an event of the page's
  event type happens, in any order; \<open>ws_reach\<close> are the states reached from the first rendering.  A
  handler that throws leaves the state as it was before the statement that throws; a message handler
  runs as a whole once the message's text is there.

  Assumptions on what is not in the repository.  A state setter outside of a React event handler
  takes effect at once, and setting the object that is there already causes no rendering; an effect
  runs after the rendering that changed one of its dependencies; antd reports only events of items
  that are on the page.  Sending on a connection that is not open yet throws, on a closed one does
  nothing.  Packages with a result that matters are parameters, with what they document as a
  hypothesis where a property needs it (\<open>groups_by\<close> for lodash's \<open>groupBy\<close>).

  Bounds of the model.  Numbers are integers or NaN; property access does not see members that every
  object inherits; timestamps are given by the event; strings are the bytes of their UTF-8 encoding.
  Strings of Go and of the pages are the same bytes; Go's JSON agrees with \<open>JSON.parse\<close> and \<open>JSON.stringify\<close>
  on the values that occur.  The buffer of a connection of the admin process is not bounded (the code
  blocks the reader after 1000 requests, which only delays).
  The channel of the debugging port has its capacity, 100; the main thread runs a whole queue at a time,
  as the code does, and three seconds pass for a connection only while there is no result.
  \<open>Admin\<close> speaks of the TCP client as its callers see it: a command is written out by the next tick of a
  free tick goroutine, and a response may be cut or joined in any way except where \<open>CommandOrder\<close> says
  otherwise; that no byte is lost or reordered below is \<open>TcpClient\<close>'s.  That the handlers do not panic does
  not cover the panic of a tick during a dial, which \<open>TcpClient\<close> shows.
  Not modelled: style sheets, compiled bundles, workbox's caching strategies; the engine beyond the
  debugging port and the TCP client, the scripts and the exporter (other languages); of the admin process
  the HTTP server of the static files.
\<close>

end
